(* ===== verification/Prelude.thy ===== *)
theory Prelude imports Main "HOL-Library.Word" "HOL-Library.Monad_Syntax" begin

unbundle bit_operations_syntax

text \<open>
  Shared vocabulary of the development: the C integer types of the kernel as words, flat
  byte-addressed memory, little-endian encodings, fixed-width chunking of byte lists and the
  counting loops of the C code. Every component theory imports this one.

  A C function that can fault (an access outside an array, a loop that never ends) is modelled
  with an \<open>option\<close> result: \<open>None\<close> means that the C program has no defined continuation.
\<close>

named_theorems kernel_defs \<open>unfolding rules of the C constants\<close>
named_theorems len_simps \<open>lengths of encodings, memory reads and tables\<close>

type_synonym u8 = "8 word"
type_synonym u16 = "16 word"
type_synonym u32 = "32 word"
type_synonym memory = "u32 \<Rightarrow> u8"

section \<open>Flat memory\<close>

definition mem_read :: "memory \<Rightarrow> u32 \<Rightarrow> nat \<Rightarrow> u8 list" where
  "mem_read m a n = map (\<lambda>i. m (a + of_nat i)) [0..<n]"

definition mem_write :: "memory \<Rightarrow> u32 \<Rightarrow> u8 list \<Rightarrow> memory" where
  "mem_write m a bs = (\<lambda>x. if unat (x - a) < length bs then bs ! unat (x - a) else m x)"

text \<open>The region of \<open>n\<close> bytes at \<open>a\<close> does not meet the region of \<open>k\<close> bytes at \<open>b\<close>.\<close>

definition separate :: "u32 \<Rightarrow> nat \<Rightarrow> u32 \<Rightarrow> nat \<Rightarrow> bool" where
  "separate a n b k \<longleftrightarrow> (\<forall>i<n. k \<le> unat (a + of_nat i - b))"

lemma length_mem_read [simp, len_simps]: "length (mem_read m a n) = n"
  by (simp add: mem_read_def)

lemma nth_mem_read [simp]: "i < n \<Longrightarrow> mem_read m a n ! i = m (a + of_nat i)"
  by (simp add: mem_read_def)

lemma mem_read_0 [simp]: "mem_read m a 0 = []"
  by (simp add: mem_read_def)

lemma mem_write_Nil [simp]: "mem_write m a [] = m"
  by (simp add: mem_write_def)

lemma unat_of_nat_u32: "n < 2 ^ 32 \<Longrightarrow> unat (of_nat n :: u32) = n"
  by (simp add: unat_of_nat take_bit_nat_eq_self)

lemma unat_u32_less: "unat (x :: u32) < 2 ^ 32"
  using unsigned_less [of x] by simp

lemma mem_read_write_same:
  assumes "length bs \<le> 2 ^ 32"
  shows "mem_read (mem_write m a bs) a (length bs) = bs"
  using assms by (intro nth_equalityI) (auto simp: mem_write_def unat_of_nat_u32)

lemma mem_read_write_separate:
  assumes "separate a n b (length bs)"
  shows "mem_read (mem_write m b bs) a n = mem_read m a n"
  using assms by (intro nth_equalityI) (auto simp: mem_write_def separate_def)

lemma mem_write_outside: "length bs \<le> unat (x - a) \<Longrightarrow> mem_write m a bs x = m x"
  by (simp add: mem_write_def)

lemma mem_write_single: "mem_write m a [b] = m(a := b)"
  by (auto simp: mem_write_def fun_eq_iff unat_eq_0 less_Suc_eq)

lemma mem_read_add:
  "mem_read m a (n + k) = mem_read m a n @ mem_read m (a + of_nat n) k"
  by (intro nth_equalityI) (auto simp: nth_append algebra_simps of_nat_diff)

lemma take_mem_read: "k \<le> n \<Longrightarrow> take k (mem_read m a n) = mem_read m a k"
  by (intro nth_equalityI) auto

text \<open>Two consecutive writes are one write, as long as the whole does not wrap onto itself.\<close>

lemma mem_write_append:
  assumes "length bs + length cs \<le> 2 ^ 32"
  shows "mem_write (mem_write m a bs) (a + of_nat (length bs)) cs = mem_write m a (bs @ cs)"
proof
  fix x
  let ?o = "unat (x - a)" and ?n = "length bs"
  show "mem_write (mem_write m a bs) (a + of_nat ?n) cs x = mem_write m a (bs @ cs) x"
  proof (cases "cs = []")
    case False
    with assms have n: "?n < 2 ^ 32" by (cases cs) auto
    have sub: "unat (x - (a + of_nat ?n)) = (if ?n \<le> ?o then ?o - ?n else ?o + 2 ^ 32 - ?n)"
    proof -
      have "unat ((x - a) - of_nat ?n) = (if ?n \<le> ?o then ?o - ?n else ?o + 2 ^ 32 - ?n)"
        by (subst unat_sub_if') (simp only: unat_of_nat_u32 [OF n] len_of_numeral_defs len_num1, simp)
      then show ?thesis by (simp only: diff_diff_eq)
    qed
    have "?o < 2 ^ 32" by (rule unat_u32_less)
    with assms sub show ?thesis by (auto simp: mem_write_def nth_append)
  qed simp
qed

text \<open>Offsets in a region that does not wrap are read off as natural numbers.\<close>

lemma unat_region:
  fixes a :: u32
  assumes "unat a + n \<le> 2 ^ 32" and "i < n"
  shows "unat (a + of_nat i) = unat a + i"
  using assms by (simp add: unat_word_ariths unat_of_nat_u32)

lemma separate_disjoint:
  assumes "unat a + n \<le> 2 ^ 32" and "unat b + k \<le> 2 ^ 32"
    and "unat a + n \<le> unat b \<or> unat b + k \<le> unat a"
  shows "separate a n b k"
  unfolding separate_def
proof (intro allI impI)
  fix i assume "i < n"
  then have "unat (a + of_nat i) = unat a + i" using assms(1) by (simp add: unat_region)
  then show "k \<le> unat (a + of_nat i - b)" using assms \<open>i < n\<close> by (auto simp: unat_sub_if')
qed

lemma length_concat_const:
  "(\<And>x. x \<in> set xs \<Longrightarrow> length (f x) = n) \<Longrightarrow> length (concat (map f xs)) = n * length xs"
  by (induction xs) auto

text \<open>The \<open>n\<close> entries of an indexed store from \<open>off\<close> on.\<close>

definition slice :: "(nat \<Rightarrow> 'a) \<Rightarrow> nat \<Rightarrow> nat \<Rightarrow> 'a list" where
  "slice f off n = map f [off..<off + n]"

lemma length_slice [simp, len_simps]: "length (slice f off n) = n"
  by (simp add: slice_def)

lemma nth_slice [simp]: "i < n \<Longrightarrow> slice f off n ! i = f (off + i)"
  by (simp add: slice_def)

lemma slice_cong: "(\<And>i. i < n \<Longrightarrow> f (off + i) = g (off + i)) \<Longrightarrow> slice f off n = slice g off n"
  by (intro nth_equalityI) auto

section \<open>Counting loops\<close>

text \<open>
  \<open>for (i = 0; i < n; i++) body\<close> is \<open>fold body [0..<n]\<close>. A search loop that stops at the first
  index with a property is \<open>scan\<close>: \<open>Some i\<close> when the body returned or broke out at \<open>i\<close>,
  \<open>None\<close> when the loop ran to its bound.
\<close>

function scan :: "(nat \<Rightarrow> bool) \<Rightarrow> nat \<Rightarrow> nat \<Rightarrow> nat option" where
  "scan P i n = (if i < n then if P i then Some i else scan P (Suc i) n else None)"
  by pat_completeness auto
termination by (relation "measure (\<lambda>(P, i, n). n - i)") auto

declare scan.simps [simp del]

lemma scan_rec:
  "i < n \<Longrightarrow> P i \<Longrightarrow> scan P i n = Some i"
  "i < n \<Longrightarrow> \<not> P i \<Longrightarrow> scan P i n = scan P (Suc i) n"
  "n \<le> i \<Longrightarrow> scan P i n = None"
  by (simp_all add: scan.simps [of P i n])

lemma scan_SomeD:
  "scan P i n = Some k \<Longrightarrow> i \<le> k \<and> k < n \<and> P k \<and> (\<forall>j. i \<le> j \<longrightarrow> j < k \<longrightarrow> \<not> P j)"
proof (induction P i n rule: scan.induct)
  case (1 P i n)
  show ?case
  proof (cases "i < n \<and> \<not> P i")
    case True
    with "1.prems" have "scan P (Suc i) n = Some k" by (simp add: scan_rec(2))
    with True "1.IH" have "Suc i \<le> k \<and> k < n \<and> P k \<and> (\<forall>j. Suc i \<le> j \<longrightarrow> j < k \<longrightarrow> \<not> P j)"
      by blast
    with True show ?thesis by (metis Suc_leD Suc_leI le_neq_implies_less)
  next
    case False
    with "1.prems" have "i < n" "P i" "k = i" by (auto simp: scan.simps [of P i n] split: if_splits)
    then show ?thesis by simp
  qed
qed

lemma scan_NoneD: "scan P i n = None \<Longrightarrow> i \<le> j \<Longrightarrow> j < n \<Longrightarrow> \<not> P j"
proof (induction P i n rule: scan.induct)
  case (1 P i n)
  then have "i < n" by simp
  with "1.prems"(1) have ni: "\<not> P i" and s: "scan P (Suc i) n = None"
    by (auto simp: scan.simps [of P i n] split: if_splits)
  show ?case
  proof (cases "j = i")
    case False
    with "1.prems" have "Suc i \<le> j" by simp
    from "1.IH" [OF \<open>i < n\<close> ni s this "1.prems"(3)] show ?thesis .
  qed (use ni in simp)
qed

lemma scan_None_iff: "scan P i n = None \<longleftrightarrow> (\<forall>j. i \<le> j \<longrightarrow> j < n \<longrightarrow> \<not> P j)"
proof
  assume "\<forall>j. i \<le> j \<longrightarrow> j < n \<longrightarrow> \<not> P j"
  then show "scan P i n = None"
    by (cases "scan P i n") (auto dest: scan_SomeD)
qed (blast dest: scan_NoneD)

lemma scan_Some_iff:
  "scan P i n = Some k \<longleftrightarrow> i \<le> k \<and> k < n \<and> P k \<and> (\<forall>j. i \<le> j \<longrightarrow> j < k \<longrightarrow> \<not> P j)"
proof
  assume R: "i \<le> k \<and> k < n \<and> P k \<and> (\<forall>j. i \<le> j \<longrightarrow> j < k \<longrightarrow> \<not> P j)"
  show "scan P i n = Some k"
  proof (cases "scan P i n")
    case None
    with R show ?thesis by (blast dest: scan_NoneD)
  next
    case (Some l)
    then have "i \<le> l" "P l" "\<forall>j. i \<le> j \<longrightarrow> j < l \<longrightarrow> \<not> P j" by (auto dest: scan_SomeD)
    with R have "l = k" by (metis linorder_neqE_nat)
    with Some show ?thesis by simp
  qed
qed (rule scan_SomeD)

lemmas scan_iff = scan_Some_iff scan_None_iff

lemma scan_cong:
  assumes "\<And>j. i \<le> j \<Longrightarrow> j < n \<Longrightarrow> P j = Q j"
  shows "scan P i n = scan Q i n"
proof (cases "scan Q i n")
  case None
  then have "scan P i n = None" using assms by (simp add: scan_None_iff)
  with None show ?thesis by simp
next
  case (Some k)
  then have "scan P i n = Some k" using assms unfolding scan_Some_iff by (meson less_trans)
  with Some show ?thesis by simp
qed

section \<open>Little-endian integers\<close>

definition le16 :: "u16 \<Rightarrow> u8 list" where
  "le16 w = [ucast w, ucast (drop_bit 8 w)]"

definition le32 :: "u32 \<Rightarrow> u8 list" where
  "le32 w = [ucast w, ucast (drop_bit 8 w), ucast (drop_bit 16 w), ucast (drop_bit 24 w)]"

definition of_le16 :: "u8 list \<Rightarrow> u16" where
  "of_le16 bs = ucast (bs ! 0) OR push_bit 8 (ucast (bs ! 1))"

definition of_le32 :: "u8 list \<Rightarrow> u32" where
  "of_le32 bs = ucast (bs ! 0) OR push_bit 8 (ucast (bs ! 1)) OR push_bit 16 (ucast (bs ! 2))
     OR push_bit 24 (ucast (bs ! 3))"

lemma length_le16 [simp, len_simps]: "length (le16 w) = 2"
  by (simp add: le16_def)

lemma length_le32 [simp, len_simps]: "length (le32 w) = 4"
  by (simp add: le32_def)

lemma not_bit_u8 [simp]: "8 \<le> n \<Longrightarrow> \<not> bit (b :: u8) n"
  by (auto dest: bit_imp_le_length)

lemma of_le16_le16 [simp]: "of_le16 (le16 w) = w"
  by (rule bit_word_eqI) (auto simp: of_le16_def le16_def bit_simps)

lemma of_le32_le32 [simp]: "of_le32 (le32 w) = w"
proof (rule bit_word_eqI)
  fix n assume "n < LENGTH(32)"
  then consider "n < 8" | "8 \<le> n" "n < 16" | "16 \<le> n" "n < 24" | "24 \<le> n" "n < 32" by fastforce
  then show "bit (of_le32 (le32 w)) n = bit w n"
    by cases (auto simp: of_le32_def le32_def bit_simps)
qed

lemma le16_of_le16: "length bs = 2 \<Longrightarrow> le16 (of_le16 bs) = bs"
proof (intro nth_equalityI)
  fix i assume "length bs = 2" and "i < length (le16 (of_le16 bs))"
  then have "i \<in> {0, 1}" by auto
  then show "le16 (of_le16 bs) ! i = bs ! i"
    by (auto simp: le16_def of_le16_def bit_simps intro!: bit_word_eqI)
qed simp

lemma le32_of_le32: "length bs = 4 \<Longrightarrow> le32 (of_le32 bs) = bs"
proof (intro nth_equalityI)
  fix i assume "length bs = 4" and "i < length (le32 (of_le32 bs))"
  then have "i \<in> {0, 1, 2, 3}" by auto
  then show "le32 (of_le32 bs) ! i = bs ! i"
    by (auto simp: le32_def of_le32_def bit_simps intro!: bit_word_eqI)
qed simp

end
