(* ===== verification/CString.thy ===== *)
theory CString imports Prelude begin

text \<open>
  The freestanding C library of the kernel, \<open>src/ch0/stdlib/string.c\<close>, over flat memory. Each
  counting loop is a \<open>fold\<close> over its index range, so aliasing between source and destination is
  what the byte-by-byte C loop makes of it. The string loops have no bound in C; they are
  \<open>partial_function\<close>s whose \<open>None\<close> is a loop that never ends.
\<close>

section \<open>Memory blocks\<close>

text \<open>The loop bodies \<open>buf[i] = b\<close> and \<open>dstbuf[i] = srcbuf[i]\<close>.\<close>

definition store_byte :: "u32 \<Rightarrow> u8 \<Rightarrow> nat \<Rightarrow> memory \<Rightarrow> memory" where
  "store_byte p b i m = m(p + of_nat i := b)"

definition copy_byte :: "u32 \<Rightarrow> u32 \<Rightarrow> nat \<Rightarrow> memory \<Rightarrow> memory" where
  "copy_byte dest src i m = m(dest + of_nat i := m (src + of_nat i))"

definition memset :: "memory \<Rightarrow> u32 \<Rightarrow> u32 \<Rightarrow> nat \<Rightarrow> memory" where
  "memset m s c n = fold (store_byte s (ucast c)) [0..<n] m"

definition memcpy :: "memory \<Rightarrow> u32 \<Rightarrow> u32 \<Rightarrow> nat \<Rightarrow> memory" where
  "memcpy m dest src n = fold (copy_byte dest src) [0..<n] m"

definition memmove :: "memory \<Rightarrow> u32 \<Rightarrow> u32 \<Rightarrow> nat \<Rightarrow> memory" where
  "memmove m dest src n =
     (if dest < src
      then fold (copy_byte dest src) [0..<n] m
      else fold (\<lambda>i. copy_byte dest src (i - 1)) (rev [1..<Suc n]) m)"

definition clear :: "memory \<Rightarrow> u32 \<Rightarrow> nat \<Rightarrow> memory" where
  "clear m p n = fold (store_byte p 0) [0..<n] m"

text \<open>\<open>memcmp\<close> on the bytes two pointers point to: the loop returns at the first difference.\<close>

fun memcmp_bytes :: "u8 list \<Rightarrow> u8 list \<Rightarrow> nat \<Rightarrow> int" where
  "memcmp_bytes xs ys 0 = 0"
| "memcmp_bytes (x # xs) (y # ys) (Suc n) =
     (if x < y then -1 else if y < x then 1 else memcmp_bytes xs ys n)"
| "memcmp_bytes _ _ (Suc n) = 0"

function memcmp_from :: "memory \<Rightarrow> u32 \<Rightarrow> u32 \<Rightarrow> nat \<Rightarrow> nat \<Rightarrow> int" where
  "memcmp_from m s1 s2 i n =
     (if i < n then
        let b1 = m (s1 + of_nat i); b2 = m (s2 + of_nat i)
        in if b1 < b2 then -1 else if b1 > b2 then 1 else memcmp_from m s1 s2 (Suc i) n
      else 0)"
  by pat_completeness auto
termination by (relation "measure (\<lambda>(m, s1, s2, i, n). n - i)") auto

definition memcmp :: "memory \<Rightarrow> u32 \<Rightarrow> u32 \<Rightarrow> nat \<Rightarrow> int" where
  "memcmp m s1 s2 n = memcmp_from m s1 s2 0 n"

declare memcmp_from.simps [simp del]

subsection \<open>The loops as block writes\<close>

lemma fold_store:
  assumes "n \<le> 2 ^ 32"
  shows "fold (store_byte p b) [0..<n] m = mem_write m p (replicate n b)"
  using assms
proof (induction n)
  case (Suc n)
  have "mem_write (mem_write m p (replicate n b)) (p + of_nat (length (replicate n b))) [b]
      = mem_write m p (replicate n b @ [b])"
    using Suc.prems by (intro mem_write_append) simp
  then have "store_byte p b n (mem_write m p (replicate n b)) = mem_write m p (replicate (Suc n) b)"
    by (simp add: mem_write_single replicate_append_same store_byte_def [of p b n])
  with Suc show ?case by simp
qed simp

lemma memset_eq: "n \<le> 2 ^ 32 \<Longrightarrow> memset m s c n = mem_write m s (replicate n (ucast c))"
  by (simp add: memset_def fold_store)

lemma clear_eq: "n \<le> 2 ^ 32 \<Longrightarrow> clear m p n = mem_write m p (replicate n 0)"
  by (simp add: clear_def fold_store)

text \<open>
  The forward copy loop reads each source byte before any earlier store has reached it, when no
  source byte is the destination of an earlier index.
\<close>

definition forward_ok :: "u32 \<Rightarrow> u32 \<Rightarrow> nat \<Rightarrow> bool" where
  "forward_ok dest src n \<longleftrightarrow> (\<forall>j<n. \<forall>i<j. dest + of_nat i \<noteq> src + of_nat j)"

lemma mem_write_other:
  assumes "\<forall>i<length bs. a + of_nat i \<noteq> x"
  shows "mem_write m a bs x = m x"
proof (rule mem_write_outside, rule ccontr)
  assume "\<not> length bs \<le> unat (x - a)"
  then have "unat (x - a) < length bs" by simp
  then have "a + of_nat (unat (x - a)) \<noteq> x" using assms by blast
  then show False by simp
qed

lemma copy_forward:
  assumes "n \<le> 2 ^ 32" and "forward_ok dest src n"
  shows "fold (copy_byte dest src) [0..<n] m
       = mem_write m dest (mem_read m src n)"
  using assms
proof (induction n)
  case (Suc n)
  then have IH: "fold (copy_byte dest src) [0..<n] m
      = mem_write m dest (mem_read m src n)"
    by (simp add: forward_ok_def)
  have src_n: "mem_write m dest (mem_read m src n) (src + of_nat n) = m (src + of_nat n)"
    using Suc.prems(2) by (intro mem_write_other) (auto simp: forward_ok_def)
  have snoc: "mem_write (mem_write m dest (mem_read m src n)) (dest + of_nat (length (mem_read m src n))) [b]
      = mem_write m dest (mem_read m src n @ [b])" for b
    using Suc.prems(1) by (intro mem_write_append) simp
  have "mem_read m src (Suc n) = mem_read m src n @ [m (src + of_nat n)]"
    using mem_read_add [of m src n 1] by (simp add: mem_read_def)
  with src_n snoc have "copy_byte dest src n (mem_write m dest (mem_read m src n)) = mem_write m dest (mem_read m src (Suc n))"
    by (simp add: mem_write_single copy_byte_def [of dest src n])
  with IH show ?case by simp
qed simp

text \<open>The backward loop, counting the index down from \<open>n\<close>, dually.\<close>

definition backward_ok :: "u32 \<Rightarrow> u32 \<Rightarrow> nat \<Rightarrow> bool" where
  "backward_ok dest src n \<longleftrightarrow> (\<forall>j<n. \<forall>i<j. dest + of_nat j \<noteq> src + of_nat i)"

lemma mem_read_cong: "(\<And>i. i < n \<Longrightarrow> m (a + of_nat i) = m' (a + of_nat i)) \<Longrightarrow> mem_read m a n = mem_read m' a n"
  by (simp add: mem_read_def)

lemma mem_write_upd_past:
  assumes "length bs < 2 ^ 32"
  shows "mem_write (m(a + of_nat (length bs) := b)) a bs = mem_write m a (bs @ [b])"
proof
  fix x
  have "x = a + of_nat (length bs) \<longleftrightarrow> unat (x - a) = length bs"
  proof
    assume "unat (x - a) = length bs"
    then have "of_nat (unat (x - a)) = (of_nat (length bs) :: u32)" by (rule arg_cong)
    then show "x = a + of_nat (length bs)" by (simp add: algebra_simps)
  qed (use assms in \<open>simp add: unat_of_nat_u32\<close>)
  then show "mem_write (m(a + of_nat (length bs) := b)) a bs x = mem_write m a (bs @ [b]) x"
    by (auto simp: mem_write_def nth_append less_Suc_eq)
qed

lemma copy_backward:
  assumes "n \<le> 2 ^ 32" and "backward_ok dest src n"
  shows "fold (\<lambda>i. copy_byte dest src (i - 1)) (rev [1..<Suc n]) m
       = mem_write m dest (mem_read m src n)"
  using assms
proof (induction n arbitrary: m)
  case (Suc n)
  let ?m = "m(dest + of_nat n := m (src + of_nat n))"
  have "fold (\<lambda>i. copy_byte dest src (i - 1)) (rev [1..<Suc (Suc n)]) m
      = fold (\<lambda>i. copy_byte dest src (i - 1)) (rev [1..<Suc n]) ?m"
    by (simp add: copy_byte_def)
  also have "\<dots> = mem_write ?m dest (mem_read ?m src n)"
    using Suc.prems by (intro Suc.IH) (auto simp: backward_ok_def)
  also have "mem_read ?m src n = mem_read m src n"
    using Suc.prems(2) by (intro mem_read_cong) (simp add: backward_ok_def, metis lessI)
  also have "mem_write ?m dest (mem_read m src n) = mem_write m dest (mem_read m src n @ [m (src + of_nat n)])"
    using mem_write_upd_past [of "mem_read m src n" m dest] Suc.prems(1) by simp
  also have "mem_read m src n @ [m (src + of_nat n)] = mem_read m src (Suc n)"
    using mem_read_add [of m src n 1] by (simp add: mem_read_def)
  finally show ?case .
qed simp

lemma separate_forward_ok: "separate src n dest n \<Longrightarrow> forward_ok dest src n"
  unfolding forward_ok_def
proof (intro allI impI)
  fix j i assume "separate src n dest n" and "j < n" and "i < j"
  then have "n \<le> unat (src + of_nat j - dest)" by (simp add: separate_def)
  moreover have "unat (of_nat i :: u32) \<le> i" by (metis of_nat_inverse le_unat_uoi nat_le_linear)
  ultimately show "dest + of_nat i \<noteq> src + of_nat j" using \<open>i < j\<close> \<open>j < n\<close>
    by (auto simp: algebra_simps) (metis add_diff_cancel_left' le_trans less_trans not_le)
qed

lemma memcpy_forward:
  "n \<le> 2 ^ 32 \<Longrightarrow> forward_ok dest src n \<Longrightarrow> memcpy m dest src n = mem_write m dest (mem_read m src n)"
  unfolding memcpy_def by (rule copy_forward)

text \<open>Whatever the overlap, only the destination changes.\<close>

lemma memcpy_outside: "n \<le> unat (x - dest) \<Longrightarrow> memcpy m dest src n x = m x"
proof (induction n)
  case (Suc n)
  have "x \<noteq> dest + of_nat n"
  proof
    assume "x = dest + of_nat n"
    then have "unat (x - dest) = unat (of_nat n :: u32)" by simp
    also have "\<dots> \<le> n" by (simp add: unat_of_nat take_bit_nat_less_eq_self)
    finally show False using Suc.prems by simp
  qed
  with Suc show ?case by (simp add: memcpy_def copy_byte_def)
qed (simp add: memcpy_def)

lemma memmove_below_ok:
  assumes "dest < src" and "unat dest + n \<le> 2 ^ 32" and "unat src + n \<le> 2 ^ 32"
  shows "forward_ok dest src n"
  unfolding forward_ok_def
proof (intro allI impI notI)
  fix j i assume "j < n" "i < j" and eq: "dest + of_nat i = src + of_nat j"
  have "unat dest + i = unat src + j"
    using unat_region [OF assms(2), of i] unat_region [OF assms(3) \<open>j < n\<close>] \<open>i < j\<close> \<open>j < n\<close> eq by simp
  then show False using assms(1) \<open>i < j\<close> by (simp add: word_less_nat_alt)
qed

lemma memmove_above_ok:
  assumes "\<not> dest < src" and "unat dest + n \<le> 2 ^ 32" and "unat src + n \<le> 2 ^ 32"
  shows "backward_ok dest src n"
  unfolding backward_ok_def
proof (intro allI impI notI)
  fix j i assume "j < n" "i < j" and eq: "dest + of_nat j = src + of_nat i"
  have "unat dest + j = unat src + i"
    using unat_region [OF assms(2) \<open>j < n\<close>] unat_region [OF assms(3), of i] \<open>i < j\<close> \<open>j < n\<close> eq by simp
  then show False using assms(1) \<open>i < j\<close> by (simp add: word_less_nat_alt)
qed

text \<open>
  C39. \<open>memmove\<close> copies correctly for every overlap: for regions that do not run past the end of the
  address space, the destination receives the bytes the source held before the call, and nothing
  else changes.
\<close>

theorem memmove_correct:
  assumes "unat dest + n \<le> 2 ^ 32" and "unat src + n \<le> 2 ^ 32"
  shows "memmove m dest src n = mem_write m dest (mem_read m src n)"
proof -
  have n: "n \<le> 2 ^ 32" using assms by simp
  show ?thesis
  proof (cases "dest < src")
    case True
    then show ?thesis using copy_forward [OF n memmove_below_ok [OF True assms]] by (simp add: memmove_def)
  next
    case False
    then show ?thesis
      using copy_backward [OF n memmove_above_ok [OF False assms], of m] by (simp only: memmove_def if_False)
  qed
qed

theorem memmove_correct_witness:
  "memmove (\<lambda>x. ucast x) 101 100 3 = mem_write (\<lambda>x. ucast x) 101 (mem_read (\<lambda>x. ucast x) 100 3)"
  by (rule memmove_correct) simp_all

section \<open>Comparison\<close>

lemma memcmp_from_bytes:
  "i \<le> n \<Longrightarrow> memcmp_from m s1 s2 i n = memcmp_bytes (drop i (mem_read m s1 n)) (drop i (mem_read m s2 n)) (n - i)"
proof (induction m s1 s2 i n rule: memcmp_from.induct)
  case (1 m s1 s2 i n)
  show ?case
  proof (cases "i < n")
    case True
    then have d: "drop i (mem_read m a n) = m (a + of_nat i) # drop (Suc i) (mem_read m a n)" for a
      by (metis Cons_nth_drop_Suc length_mem_read nth_mem_read)
    have "n - i = Suc (n - Suc i)" using True by simp
    with True "1.IH" show ?thesis by (subst memcmp_from.simps) (auto simp: d Let_def)
  next
    case False
    with "1.prems" show ?thesis by (subst memcmp_from.simps) simp
  qed
qed

lemma memcmp_is_bytes: "memcmp m s1 s2 n = memcmp_bytes (mem_read m s1 n) (mem_read m s2 n) n"
  by (simp add: memcmp_def memcmp_from_bytes)

lemma memcmp_bytes_eq_0:
  "length xs = n \<Longrightarrow> length ys = n \<Longrightarrow> memcmp_bytes xs ys n = 0 \<longleftrightarrow> xs = ys"
  by (induction xs ys n rule: memcmp_bytes.induct) auto

lemma memcmp_bytes_less:
  "length xs = n \<Longrightarrow> length ys = n \<Longrightarrow> memcmp_bytes xs ys n = -1 \<longleftrightarrow> (xs, ys) \<in> lexord {(x, y). x < y}"
  by (induction xs ys n rule: memcmp_bytes.induct) auto

lemma memcmp_bytes_range: "memcmp_bytes xs ys n \<in> {-1, 0, 1}"
  by (induction xs ys n rule: memcmp_bytes.induct) auto

text \<open>
  \<open>memcmp\<close> is zero exactly on equal regions, and its sign is the lexicographic order of the
  two byte strings.
\<close>

theorem memcmp_correct:
  "(memcmp m s1 s2 n = 0 \<longleftrightarrow> mem_read m s1 n = mem_read m s2 n)
   \<and> (memcmp m s1 s2 n = -1 \<longleftrightarrow> (mem_read m s1 n, mem_read m s2 n) \<in> lexord {(x, y). x < y})
   \<and> memcmp m s1 s2 n \<in> {-1, 0, 1}"
  by (simp add: memcmp_is_bytes memcmp_bytes_eq_0 memcmp_bytes_less memcmp_bytes_range del: insert_iff)

section \<open>Strings\<close>

partial_function (option) strlen_from :: "memory \<Rightarrow> u32 \<Rightarrow> u32 \<Rightarrow> u32 option" where
  "strlen_from m s i = (if m (s + i) \<noteq> 0 then strlen_from m s (i + 1) else Some i)"

definition strlen :: "memory \<Rightarrow> u32 \<Rightarrow> u32 option" where
  "strlen m s = strlen_from m s 0"

partial_function (option) strcmp_from :: "memory \<Rightarrow> u32 \<Rightarrow> u32 \<Rightarrow> u32 \<Rightarrow> u8 option" where
  "strcmp_from m s1 s2 i =
     (if m (s1 + i) \<noteq> 0 then
        if m (s1 + i) \<noteq> m (s2 + i) then Some 1 else strcmp_from m s1 s2 (i + 1)
      else Some 0)"

definition strcmp :: "memory \<Rightarrow> u32 \<Rightarrow> u32 \<Rightarrow> u8 option" where
  "strcmp m s1 s2 = do {
     n1 \<leftarrow> strlen m s1;
     n2 \<leftarrow> strlen m s2;
     if n1 = n2 then strcmp_from m s1 s2 0 else Some 1 }"

partial_function (option) strcpy_from :: "u8 \<Rightarrow> memory \<Rightarrow> u32 \<Rightarrow> u32 \<Rightarrow> u32 \<Rightarrow> memory option" where
  "strcpy_from stop m dst src i =
     (if m (src + i) \<noteq> stop then strcpy_from stop (m(dst + i := m (src + i))) dst src (i + 1) else Some m)"

definition strcpy :: "memory \<Rightarrow> u32 \<Rightarrow> u32 \<Rightarrow> int \<Rightarrow> memory option" where
  "strcpy m dst src ty = do {
     n \<leftarrow> strlen m dst;
     let m = clear m dst (unat n);
     if ty = 1 then strcpy_from 0 m dst src 0 else strcpy_from 10 m dst src 0 }"

text \<open>The C string at \<open>s\<close>: its bytes up to the terminating NUL.\<close>

definition c_string :: "memory \<Rightarrow> u32 \<Rightarrow> u8 list \<Rightarrow> bool" where
  "c_string m s bs \<longleftrightarrow> length bs < 2 ^ 32 \<and> mem_read m s (length bs) = bs \<and> 0 \<notin> set bs
     \<and> m (s + of_nat (length bs)) = 0"

lemma c_string_nth: "c_string m s bs \<Longrightarrow> i < length bs \<Longrightarrow> m (s + of_nat i) = bs ! i \<and> bs ! i \<noteq> 0"
  unfolding c_string_def by (metis nth_mem_read nth_mem)

lemma strlen_from_step:
  assumes "c_string m s bs" and "i \<le> length bs"
  shows "strlen_from m s (of_nat i) = Some (of_nat (length bs))"
  using assms
proof (induction "length bs - i" arbitrary: i)
  case 0
  then show ?case by (subst strlen_from.simps) (simp add: c_string_def)
next
  case (Suc k)
  then have "strlen_from m s (of_nat (Suc i)) = Some (of_nat (length bs))" by (intro Suc.hyps) simp_all
  with Suc show ?case by (subst strlen_from.simps) (simp add: c_string_nth add.commute)
qed

lemma strlen_c_string: "c_string m s bs \<Longrightarrow> strlen m s = Some (of_nat (length bs))"
  using strlen_from_step [of m s bs 0] by (simp add: strlen_def)

lemma strlen_from_Some: "strlen_from m s i = Some r \<Longrightarrow> m (s + r) = 0"
  by (rule strlen_from.raw_induct [where P = "\<lambda>m s i r. m (s + r) = 0"]) (auto split: if_splits)

text \<open>
  \<open>strlen\<close> returns the number of bytes before the first NUL, and it loops for ever only when
  no byte of the whole address space is NUL.
\<close>

theorem strlen_correct:
  "(\<exists>bs. c_string m s bs \<and> strlen m s = Some (of_nat (length bs))) \<or> (strlen m s = None \<and> (\<forall>x. m x \<noteq> 0))"
proof (cases "\<exists>x. m x = 0")
  case True
  then obtain x where "m x = 0" by blast
  then have ex: "m (s + of_nat (unat (x - s))) = 0" by simp
  define k where "k = (LEAST k. m (s + of_nat k) = 0)"
  have k0: "m (s + of_nat k) = 0" unfolding k_def using ex by (rule LeastI)
  have kmin: "m (s + of_nat i) \<noteq> 0" if "i < k" for i using that not_less_Least unfolding k_def by blast
  have "k \<le> unat (x - s)" unfolding k_def using ex by (rule Least_le)
  then have "k < 2 ^ 32" using unat_u32_less [of "x - s"] by simp
  then have "c_string m s (mem_read m s k)"
    using k0 kmin by (auto simp: c_string_def in_set_conv_nth)
  then show ?thesis using strlen_c_string by blast
next
  case False
  then have "strlen m s = None"
    using strlen_from_Some [of m s 0] by (cases "strlen m s") (auto simp: strlen_def)
  with False show ?thesis by blast
qed

lemma strcmp_from_step:
  assumes "c_string m s1 xs" and "c_string m s2 ys" and "length xs = length ys" and "i \<le> length xs"
  shows "strcmp_from m s1 s2 (of_nat i) = Some (if drop i xs = drop i ys then 0 else 1)"
  using assms
proof (induction "length xs - i" arbitrary: i)
  case 0
  then show ?case by (subst strcmp_from.simps) (simp add: c_string_def)
next
  case (Suc k)
  then have i: "i < length xs" by simp
  from Suc i have IH: "strcmp_from m s1 s2 (of_nat (Suc i)) = Some (if drop (Suc i) xs = drop (Suc i) ys then 0 else 1)"
    by (intro Suc.hyps) simp_all
  have d: "drop i xs = xs ! i # drop (Suc i) xs" "drop i ys = ys ! i # drop (Suc i) ys"
    using i Suc.prems(3) by (simp_all add: Cons_nth_drop_Suc)
  show ?case using i IH Suc.prems c_string_nth [of m s1 xs i] c_string_nth [of m s2 ys i]
    by (subst strcmp_from.simps) (simp add: d add.commute)
qed

text \<open>\<open>strcmp\<close> returns 0 on equal strings and 1 on different ones; it never returns an order.\<close>

theorem strcmp_correct:
  assumes "c_string m s1 xs" and "c_string m s2 ys"
  shows "strcmp m s1 s2 = Some (if xs = ys then 0 else 1)"
proof -
  have len: "(of_nat (length xs) = (of_nat (length ys) :: u32)) = (length xs = length ys)"
    using assms unfolding c_string_def by (metis unat_of_nat_u32)
  show ?thesis
    using strcmp_from_step [OF assms, of 0] len
    by (auto simp: strcmp_def strlen_c_string [OF assms(1)] strlen_c_string [OF assms(2)])
qed

subsection \<open>Copying strings\<close>

lemma mem_write_Cons: "length bs < 2 ^ 32 \<Longrightarrow> mem_write (m(a := b)) (a + 1) bs = mem_write m a (b # bs)"
  using mem_write_append [of "[b]" bs m a] by (simp add: mem_write_single)

lemma strcpy_from_step:
  assumes "length bs < 2 ^ 32" and "stop \<notin> set bs" and "i \<le> length bs"
    and "mem_read m src (Suc (length bs)) = bs @ [stop]"
    and "\<forall>k<length bs. \<forall>j\<le>length bs. dst + of_nat k \<noteq> src + of_nat j"
  shows "strcpy_from stop m dst src (of_nat i) = Some (mem_write m (dst + of_nat i) (drop i bs))"
  using assms
proof (induction "length bs - i" arbitrary: i m)
  case 0
  then have i: "i = length bs" by simp
  have "m (src + of_nat (length bs)) = (bs @ [stop]) ! length bs"
    using "0.prems"(4) by (metis lessI nth_mem_read)
  with i show ?case by (subst strcpy_from.simps) simp
next
  case (Suc k)
  then have i: "i < length bs" by simp
  then have b: "m (src + of_nat i) = bs ! i"
    using Suc.prems(4) by (metis less_SucI nth_append nth_mem_read)
  let ?m = "m(dst + of_nat i := bs ! i)"
  have "mem_read ?m src (Suc (length bs)) = mem_read m src (Suc (length bs))"
    using Suc.prems(5) i by (intro mem_read_cong) (metis fun_upd_other less_Suc_eq_le)
  then have "mem_read ?m src (Suc (length bs)) = bs @ [stop]" using Suc.prems(4) by simp
  with Suc i have "strcpy_from stop ?m dst src (of_nat (Suc i)) = Some (mem_write ?m (dst + of_nat (Suc i)) (drop (Suc i) bs))"
    by (intro Suc.hyps) simp_all
  also have "dst + of_nat (Suc i) = (dst + of_nat i) + 1" by simp
  also have "mem_write ?m ((dst + of_nat i) + 1) (drop (Suc i) bs) = mem_write m (dst + of_nat i) (drop i bs)"
    using i Suc.prems(1) by (subst mem_write_Cons) (auto simp: Cons_nth_drop_Suc)
  finally have rest: "strcpy_from stop ?m dst src (of_nat (Suc i)) = Some (mem_write m (dst + of_nat i) (drop i bs))" .
  have "bs ! i \<noteq> stop" using Suc.prems(2) i nth_mem by blast
  with b rest show ?case by (subst strcpy_from.simps) (simp add: add.commute)
qed

lemma separate_neq:
  assumes "separate src n dst k" and "i < k" and "j < n"
  shows "dst + of_nat i \<noteq> src + of_nat j"
proof
  assume "dst + of_nat i = src + of_nat j"
  then have "src + of_nat j - dst = of_nat i" by (simp add: algebra_simps)
  moreover have "k \<le> unat (src + of_nat j - dst)" using assms by (simp add: separate_def)
  moreover have "unat (of_nat i :: u32) \<le> i" by (metis of_nat_inverse le_unat_uoi nat_le_linear)
  ultimately show False using assms(2) by simp
qed

text \<open>
  What \<open>strcpy\<close> does in its NUL mode: the old destination string is cleared, the bytes of the
  source string are copied, and no terminator is stored. The result is a C string only if the byte
  after the copy is already NUL, which is certain exactly when the source is no longer than the
  old destination string.
\<close>

theorem strcpy_correct:
  assumes old: "c_string m dst old" and new: "c_string m src bs"
    and sep: "separate src (Suc (length bs)) dst (Suc (max (length old) (length bs)))"
  shows "\<exists>m'. strcpy m dst src 1 = Some m' \<and> mem_read m' dst (length bs) = bs
     \<and> m' (dst + of_nat (length bs)) = (if length bs \<le> length old then 0 else m (dst + of_nat (length bs)))"
proof -
  let ?n = "length old" and ?k = "length bs"
  let ?c = "mem_write m dst (replicate ?n 0)"
  have n: "?n < 2 ^ 32" "?k < 2 ^ 32" using old new by (auto simp: c_string_def)
  have neq: "dst + of_nat i \<noteq> src + of_nat j" if "i < ?n \<or> i < ?k" "j \<le> ?k" for i j
    by (rule separate_neq [OF sep]) (use that in auto)
  have c: "clear m dst ?n = ?c" using n by (simp add: clear_eq)
  have "mem_read m src (Suc ?k) = bs @ [0]"
    using new mem_read_add [of m src ?k 1] by (simp add: c_string_def mem_read_def)
  moreover have "mem_read ?c src (Suc ?k) = mem_read m src (Suc ?k)"
    using neq by (intro mem_read_cong mem_write_other) (auto simp: less_Suc_eq_le)
  ultimately have "strcpy_from 0 ?c dst src (of_nat 0) = Some (mem_write ?c (dst + of_nat 0) (drop 0 bs))"
    using new neq by (intro strcpy_from_step) (auto simp: c_string_def)
  then have run: "strcpy m dst src 1 = Some (mem_write ?c dst bs)"
    using n by (simp add: strcpy_def strlen_c_string [OF old] unat_of_nat_u32 c)
  have "m (dst + of_nat ?n) = 0" using old by (simp add: c_string_def)
  then have "mem_write ?c dst bs (dst + of_nat ?k) = (if ?k \<le> ?n then 0 else m (dst + of_nat ?k))"
    using n by (auto simp: mem_write_def unat_of_nat_u32 le_less)
  with run show ?thesis using n by (auto simp: mem_read_write_same)
qed

text \<open>A memory holding the strings \<open>"ab"\<close> at 100 and \<open>"xyz"\<close> at 200, for the concrete runs.\<close>

definition two_strings :: memory where
  "two_strings = (\<lambda>x. if x = 100 then 97 else if x = 101 then 98 else if x = 102 then 0
     else if x = 103 then 7 else if x = 200 then 120 else if x = 201 then 121 else if x = 202 then 122 else 0)"

lemma two_strings_strings: "c_string two_strings 100 [97, 98]" "c_string two_strings 200 [120, 121, 122]"
  by (simp_all add: c_string_def two_strings_def mem_read_def upt_rec)

theorem strcmp_correct_witness: "strcmp two_strings 100 200 = Some 1"
  using strcmp_correct [OF two_strings_strings] by simp

theorem strcpy_correct_witness:
  "\<exists>m'. strcpy two_strings 100 200 1 = Some m' \<and> mem_read m' 100 3 = [120, 121, 122] \<and> m' 103 = 7"
proof -
  have sep: "separate 200 (Suc (length [120, 121, 122 :: u8])) 100 (Suc (max (length [97, 98 :: u8]) (length [120, 121, 122 :: u8])))"
    by (rule separate_disjoint) simp_all
  have "two_strings 103 = 7" by (simp add: two_strings_def)
  then show ?thesis using strcpy_correct [OF two_strings_strings sep] by (simp add: numeral_3_eq_3)
qed

end
