(* ===== verification/Block_Device.thy ===== *)
theory Block_Device imports Prelude begin

text \<open>
  The block interface of \<open>src/ch1/disk/disk.h\<close>: \<open>read_blocks\<close> and \<open>write_blocks\<close> on 512-byte blocks
  named by a 32-bit logical block address and an 8-bit count. The file system is linked against two
  providers of it: the ATA PIO driver of the kernel (\<open>disk.c\<close>) and the in-memory image of the
  external inserter (\<open>external-inserter.c\<close>). \<open>block_ops\<close> carries the two functions the program is
  linked with, and the locale \<open>block_device\<close> states what the file system relies on.
\<close>

record 'd block_ops =
  read_blocks_op :: "u32 \<Rightarrow> u8 \<Rightarrow> 'd \<Rightarrow> (u8 list \<times> 'd) option"
  write_blocks_op :: "u8 list \<Rightarrow> u32 \<Rightarrow> u8 \<Rightarrow> 'd \<Rightarrow> 'd option"

text \<open>The disk is 4 MiB (\<open>makefile\<close>, target \<open>disk\<close>; the inserter allocates the same size).\<close>

definition DISK_BLOCKS :: nat where
  [kernel_defs]: "DISK_BLOCKS = 8192"

text \<open>The 2048 bytes of a cluster are four consecutive blocks.\<close>

definition cluster_of :: "(nat \<Rightarrow> u8 list) \<Rightarrow> nat \<Rightarrow> u8 list" where
  "cluster_of f c = concat (map f [4 * c..<4 * c + 4])"

lemma upt_four: "[n..<n + 4] = [n, Suc n, Suc (Suc n), Suc (Suc (Suc n))]"
  by (simp add: upt_rec)

lemma cluster_of_cong: "(\<And>i. i < 4 \<Longrightarrow> f (4 * c + i) = g (4 * c + i)) \<Longrightarrow> cluster_of f c = cluster_of g c"
  unfolding cluster_of_def by (intro arg_cong [where f = concat] map_cong) (auto dest: le_Suc_ex)

lemma length_cluster_of:
  assumes "\<And>i. i < 4 \<Longrightarrow> length (f (4 * c + i)) = 512"
  shows "length (cluster_of f c) = 2048"
proof -
  have "length (f x) = 512" if "x \<in> set [4 * c..<4 * c + 4]" for x
    using that assms [of "x - 4 * c"] by auto
  then have "length (cluster_of f c) = 512 * length [4 * c..<4 * c + 4]"
    unfolding cluster_of_def by (rule length_concat_const)
  then show ?thesis by simp
qed

lemma concat_four_pieces:
  assumes "length bs = 2048"
  shows "take 512 bs @ take 512 (drop 512 bs) @ take 512 (drop 1024 bs) @ take 512 (drop 1536 bs) = bs"
proof -
  have "take 512 (drop 1536 bs) = drop 1536 bs" using assms by simp
  moreover have "take 512 (drop 1024 bs) @ drop 1536 bs = drop 1024 bs"
    using append_take_drop_id [of 512 "drop 1024 bs"] by simp
  moreover have "take 512 (drop 512 bs) @ drop 1024 bs = drop 512 bs"
    using append_take_drop_id [of 512 "drop 512 bs"] by simp
  ultimately show ?thesis by simp
qed

locale block_device =
  fixes ops :: "'d block_ops"
    and blocks :: "'d \<Rightarrow> nat \<Rightarrow> u8 list"
    and valid :: "'d \<Rightarrow> bool"
  assumes block_length: "valid d \<Longrightarrow> i < DISK_BLOCKS \<Longrightarrow> length (blocks d i) = 512"
    and read_blocks_law: "valid d \<Longrightarrow> n \<noteq> 0 \<Longrightarrow> unat lba + unat n \<le> DISK_BLOCKS \<Longrightarrow>
      \<exists>d'. read_blocks_op ops lba n d = Some (concat (map (blocks d) [unat lba..<unat lba + unat n]), d')
        \<and> valid d' \<and> (\<forall>i<DISK_BLOCKS. blocks d' i = blocks d i)"
    and write_blocks_law: "valid d \<Longrightarrow> n \<noteq> 0 \<Longrightarrow> unat lba + unat n \<le> DISK_BLOCKS \<Longrightarrow> length bs = 512 * unat n \<Longrightarrow>
      \<exists>d'. write_blocks_op ops bs lba n d = Some d' \<and> valid d'
        \<and> (\<forall>i<DISK_BLOCKS. blocks d' i =
             (if unat lba \<le> i \<and> i < unat lba + unat n then take 512 (drop (512 * (i - unat lba)) bs) else blocks d i))"
begin

lemma length_cluster: "valid d \<Longrightarrow> c < 2048 \<Longrightarrow> length (cluster_of (blocks d) c) = 2048"
  by (rule length_cluster_of) (simp add: block_length DISK_BLOCKS_def)

lemma read_cluster_law:
  assumes "valid d" and "c < 2048" and "unat lba = 4 * c"
  shows "\<exists>d'. read_blocks_op ops lba 4 d = Some (cluster_of (blocks d) c, d') \<and> valid d'
    \<and> (\<forall>k<2048. cluster_of (blocks d') k = cluster_of (blocks d) k)"
proof -
  have "unat lba + unat (4 :: u8) \<le> DISK_BLOCKS" using assms by (simp add: DISK_BLOCKS_def)
  have "(4 :: u8) \<noteq> 0" by simp
  from read_blocks_law [OF assms(1) this \<open>unat lba + unat (4 :: u8) \<le> DISK_BLOCKS\<close>] obtain d' where
    d': "read_blocks_op ops lba 4 d = Some (concat (map (blocks d) [unat lba..<unat lba + unat (4 :: u8)]), d')"
      "valid d'" "\<forall>i<DISK_BLOCKS. blocks d' i = blocks d i" by blast
  have "\<forall>k<2048. cluster_of (blocks d') k = cluster_of (blocks d) k"
    by (auto intro!: cluster_of_cong simp: d'(3) DISK_BLOCKS_def)
  then show ?thesis using d' assms(3) by (auto simp: cluster_of_def)
qed

lemma write_cluster_law:
  assumes "valid d" and "c < 2048" and "unat lba = 4 * c" and "length bs = 2048"
  shows "\<exists>d'. write_blocks_op ops bs lba 4 d = Some d' \<and> valid d'
    \<and> (\<forall>k<2048. cluster_of (blocks d') k = (if k = c then bs else cluster_of (blocks d) k))"
proof -
  have "unat lba + unat (4 :: u8) \<le> DISK_BLOCKS" and "length bs = 512 * unat (4 :: u8)"
    using assms by (simp_all add: DISK_BLOCKS_def)
  have "(4 :: u8) \<noteq> 0" by simp
  from write_blocks_law [OF assms(1) this \<open>unat lba + unat (4 :: u8) \<le> DISK_BLOCKS\<close> \<open>length bs = 512 * unat (4 :: u8)\<close>] obtain d' where
    d': "write_blocks_op ops bs lba 4 d = Some d'" "valid d'"
      "\<And>i. i < DISK_BLOCKS \<Longrightarrow> blocks d' i =
         (if 4 * c \<le> i \<and> i < 4 * c + 4 then take 512 (drop (512 * (i - 4 * c)) bs) else blocks d i)"
    using assms(3) by auto
  have "cluster_of (blocks d') k = (if k = c then bs else cluster_of (blocks d) k)" if "k < 2048" for k
  proof (cases "k = c")
    case True
    then have "cluster_of (blocks d') k = take 512 bs @ take 512 (drop 512 bs) @ take 512 (drop 1024 bs) @ take 512 (drop 1536 bs)"
      using assms(2) by (simp add: cluster_of_def upt_four d'(3) DISK_BLOCKS_def)
    then show ?thesis using True concat_four_pieces [OF assms(4)] by simp
  next
    case False
    have "cluster_of (blocks d') k = cluster_of (blocks d) k"
    proof (rule cluster_of_cong)
      fix i :: nat assume "i < 4"
      then have "(4 * c \<le> 4 * k + i \<and> 4 * k + i < 4 * c + 4) = False" using False by presburger
      moreover have "4 * k + i < DISK_BLOCKS" using that \<open>i < 4\<close> by (simp add: DISK_BLOCKS_def)
      ultimately show "blocks d' (4 * k + i) = blocks d (4 * k + i)"
        using d'(3) [of "4 * k + i"] by (simp only: if_False)
    qed
    with False show ?thesis by simp
  qed
  then show ?thesis using d' by blast
qed

end

text \<open>
  What the types of the file system rest on: a read that returns fills the buffer it was asked to fill,
  whatever the state of the device. Nothing is said about which bytes.
\<close>

locale sized_device =
  fixes ops :: "'d block_ops"
  assumes read_full: "read_blocks_op ops lba n d = Some (bs, d') \<Longrightarrow> length bs = 512 * unat n"

end
