(* ===== verification/Fat_Layout.thy ===== *)
theory Fat_Layout imports CString begin

text \<open>
  The on-disk structures of \<open>src/ch1/fat32/fat32.h\<close>: the file allocation table, the 32-byte
  directory entry, the directory table of one cluster, and their byte layout. The C structs are
  \<open>packed\<close> and the driver moves them to and from disk by \<open>memcpy\<close>; here a struct is a record or a
  list and the encoding functions give the bytes the packed struct occupies.
\<close>

section \<open>Constants\<close>

definition BOOT_SECTOR :: u32 where [kernel_defs]: "BOOT_SECTOR = 0"
definition CLUSTER_BLOCK_COUNT :: nat where [kernel_defs]: "CLUSTER_BLOCK_COUNT = 4"
definition CLUSTER_SIZE :: nat where [kernel_defs]: "CLUSTER_SIZE = 2048"
definition CLUSTER_MAP_SIZE :: nat where [kernel_defs]: "CLUSTER_MAP_SIZE = 512"
definition CLUSTER_0_VALUE :: u32 where [kernel_defs]: "CLUSTER_0_VALUE = 0x0FFFFFF0"
definition CLUSTER_1_VALUE :: u32 where [kernel_defs]: "CLUSTER_1_VALUE = 0x0FFFFFFF"
definition FAT32_FAT_END_OF_FILE :: u32 where [kernel_defs]: "FAT32_FAT_END_OF_FILE = 0x0FFFFFFF"
definition FAT32_FAT_EMPTY_ENTRY :: u32 where [kernel_defs]: "FAT32_FAT_EMPTY_ENTRY = 0"
definition FAT_CLUSTER_NUMBER :: u32 where [kernel_defs]: "FAT_CLUSTER_NUMBER = 1"
definition ROOT_CLUSTER_NUMBER :: u32 where [kernel_defs]: "ROOT_CLUSTER_NUMBER = 2"
definition ATTR_SUBDIRECTORY :: u8 where [kernel_defs]: "ATTR_SUBDIRECTORY = 0b00010000"
definition UATTR_NOT_EMPTY :: u8 where [kernel_defs]: "UATTR_NOT_EMPTY = 0b10101010"

text \<open>\<open>CLUSTER_SIZE / sizeof(struct FAT32DirectoryEntry)\<close>.\<close>

definition DIR_ENTRIES :: nat where [kernel_defs]: "DIR_ENTRIES = 64"

lemma eof_not_empty [simp]: "FAT32_FAT_END_OF_FILE \<noteq> FAT32_FAT_EMPTY_ENTRY" "FAT32_FAT_EMPTY_ENTRY \<noteq> FAT32_FAT_END_OF_FILE"
  by (simp_all add: kernel_defs)

section \<open>Structures\<close>

record FAT32DirectoryEntry =
  name :: "u8 list"
  ext :: "u8 list"
  attribute :: u8
  user_attribute :: u8
  undelete :: u8
  create_time :: u16
  create_date :: u16
  access_date :: u16
  cluster_high :: u16
  modified_time :: u16
  modified_date :: u16
  cluster_low :: u16
  filesize :: u32

text \<open>\<open>struct FAT32FileAllocationTable\<close> and \<open>struct FAT32DirectoryTable\<close> wrap one array each.\<close>

type_synonym fat_map = "u32 list"
type_synonym dir_table = "FAT32DirectoryEntry list"

definition entry_ok :: "FAT32DirectoryEntry \<Rightarrow> bool" where
  "entry_ok e \<longleftrightarrow> length (name e) = 8 \<and> length (ext e) = 3"

definition table_ok :: "dir_table \<Rightarrow> bool" where
  "table_ok t \<longleftrightarrow> length t = DIR_ENTRIES \<and> (\<forall>e\<in>set t. entry_ok e)"

text \<open>The all-zero entry: what \<open>memset\<close> or a partial initialiser leaves.\<close>

definition zero_entry :: FAT32DirectoryEntry where
  "zero_entry = \<lparr>name = replicate 8 0, ext = replicate 3 0, attribute = 0, user_attribute = 0, undelete = 0,
     create_time = 0, create_date = 0, access_date = 0, cluster_high = 0, modified_time = 0,
     modified_date = 0, cluster_low = 0, filesize = 0\<rparr>"

text \<open>\<open>entry.cluster_low | (entry.cluster_high << 16)\<close>\<close>

definition entry_cluster :: "FAT32DirectoryEntry \<Rightarrow> u32" where
  "entry_cluster e = ucast (cluster_low e) OR push_bit 16 (ucast (cluster_high e))"

definition set_entry_cluster :: "u32 \<Rightarrow> FAT32DirectoryEntry \<Rightarrow> FAT32DirectoryEntry" where
  "set_entry_cluster c e = e\<lparr>cluster_low := ucast c, cluster_high := ucast (drop_bit 16 c)\<rparr>"

lemma entry_cluster_set [simp]: "entry_cluster (set_entry_cluster c e) = c"
  by (rule bit_word_eqI) (auto simp: entry_cluster_def set_entry_cluster_def bit_simps)

lemma set_entry_cluster_simps [simp]:
  "name (set_entry_cluster c e) = name e" "ext (set_entry_cluster c e) = ext e"
  "attribute (set_entry_cluster c e) = attribute e" "user_attribute (set_entry_cluster c e) = user_attribute e"
  "filesize (set_entry_cluster c e) = filesize e"
  by (simp_all add: set_entry_cluster_def)

lemma entry_cluster_upd [simp]:
  "entry_cluster (e\<lparr>name := n\<rparr>) = entry_cluster e" "entry_cluster (e\<lparr>ext := x\<rparr>) = entry_cluster e"
  "entry_cluster (e\<lparr>attribute := a\<rparr>) = entry_cluster e" "entry_cluster (e\<lparr>user_attribute := u\<rparr>) = entry_cluster e"
  "entry_cluster (e\<lparr>filesize := s\<rparr>) = entry_cluster e"
  by (simp_all add: entry_cluster_def)

section \<open>Byte layout\<close>

definition encode_entry :: "FAT32DirectoryEntry \<Rightarrow> u8 list" where
  "encode_entry e = name e @ ext e @ [attribute e, user_attribute e, undelete e]
     @ le16 (create_time e) @ le16 (create_date e) @ le16 (access_date e) @ le16 (cluster_high e)
     @ le16 (modified_time e) @ le16 (modified_date e) @ le16 (cluster_low e) @ le32 (filesize e)"

definition bytes_at :: "u8 list \<Rightarrow> nat \<Rightarrow> nat \<Rightarrow> u8 list" where
  "bytes_at bs off n = take n (drop off bs)"

definition decode_entry :: "u8 list \<Rightarrow> FAT32DirectoryEntry" where
  "decode_entry bs = \<lparr>name = bytes_at bs 0 8, ext = bytes_at bs 8 3,
     attribute = bs ! 11, user_attribute = bs ! 12, undelete = bs ! 13,
     create_time = of_le16 (bytes_at bs 14 2), create_date = of_le16 (bytes_at bs 16 2),
     access_date = of_le16 (bytes_at bs 18 2), cluster_high = of_le16 (bytes_at bs 20 2),
     modified_time = of_le16 (bytes_at bs 22 2), modified_date = of_le16 (bytes_at bs 24 2),
     cluster_low = of_le16 (bytes_at bs 26 2), filesize = of_le32 (bytes_at bs 28 4)\<rparr>"

text \<open>An array of fixed-width elements: encoded one after another, decoded chunk by chunk.\<close>

fun chunks :: "nat \<Rightarrow> nat \<Rightarrow> 'a list \<Rightarrow> 'a list list" where
  "chunks w 0 bs = []"
| "chunks w (Suc n) bs = take w bs # chunks w n (drop w bs)"

definition encode_table :: "dir_table \<Rightarrow> u8 list" where
  "encode_table t = concat (map encode_entry t)"

definition decode_table :: "u8 list \<Rightarrow> dir_table" where
  "decode_table bs = map decode_entry (chunks 32 DIR_ENTRIES bs)"

definition encode_fat :: "fat_map \<Rightarrow> u8 list" where
  "encode_fat m = concat (map le32 m)"

definition decode_fat :: "u8 list \<Rightarrow> fat_map" where
  "decode_fat bs = map of_le32 (chunks 4 CLUSTER_MAP_SIZE bs)"

lemma length_chunks [simp, len_simps]: "length (chunks w n bs) = n"
  by (induction w n bs rule: chunks.induct) auto

lemma chunks_width: "w * n \<le> length bs \<Longrightarrow> c \<in> set (chunks w n bs) \<Longrightarrow> length c = w"
  by (induction w n bs rule: chunks.induct) auto

lemma concat_chunks: "length bs = w * n \<Longrightarrow> concat (chunks w n bs) = bs"
  by (induction w n bs rule: chunks.induct) auto

lemma chunks_concat:
  "(\<And>x. x \<in> set xs \<Longrightarrow> length (f x) = w) \<Longrightarrow> length xs = n \<Longrightarrow> chunks w n (concat (map f xs)) = map f xs"
  by (induction xs arbitrary: n) auto

lemma length_encode_entry: "entry_ok e \<Longrightarrow> length (encode_entry e) = 32"
  by (simp add: encode_entry_def entry_ok_def)

lemma decode_encode_entry: "entry_ok e \<Longrightarrow> decode_entry (encode_entry e) = e"
  by (cases e) (simp add: decode_entry_def encode_entry_def entry_ok_def bytes_at_def nth_append)

lemma length_bytes_at: "off + n \<le> length bs \<Longrightarrow> length (bytes_at bs off n) = n"
  by (simp add: bytes_at_def)

lemma entry_ok_decode: "length bs = 32 \<Longrightarrow> entry_ok (decode_entry bs)"
  by (simp add: entry_ok_def decode_entry_def length_bytes_at)

lemma bytes_at_split: "off + n \<le> length bs \<Longrightarrow> drop off bs = bytes_at bs off n @ drop (off + n) bs"
  by (simp add: bytes_at_def) (metis add.commute append_take_drop_id drop_drop)

lemma encode_decode_entry:
  assumes "length bs = 32"
  shows "encode_entry (decode_entry bs) = bs"
proof -
  have byte: "bytes_at bs i (Suc 0) = [bs ! i]" if "i < 32" for i
    using that assms by (simp add: bytes_at_def take_Suc_conv_app_nth hd_drop_conv_nth take_Suc)
  have "bs = bytes_at bs 0 8 @ bytes_at bs 8 3 @ bytes_at bs 11 1 @ bytes_at bs 12 1 @ bytes_at bs 13 1
      @ bytes_at bs 14 2 @ bytes_at bs 16 2 @ bytes_at bs 18 2 @ bytes_at bs 20 2 @ bytes_at bs 22 2
      @ bytes_at bs 24 2 @ bytes_at bs 26 2 @ bytes_at bs 28 4"
    using assms bytes_at_split [of 0 8 bs] bytes_at_split [of 8 3 bs] bytes_at_split [of 11 1 bs]
      bytes_at_split [of 12 1 bs] bytes_at_split [of 13 1 bs] bytes_at_split [of 14 2 bs]
      bytes_at_split [of 16 2 bs] bytes_at_split [of 18 2 bs] bytes_at_split [of 20 2 bs]
      bytes_at_split [of 22 2 bs] bytes_at_split [of 24 2 bs] bytes_at_split [of 26 2 bs]
      bytes_at_split [of 28 4 bs]
    by simp
  also have "\<dots> = encode_entry (decode_entry bs)"
    using assms by (simp add: encode_entry_def decode_entry_def le16_of_le16 le32_of_le32 length_bytes_at byte)
  finally show ?thesis by simp
qed

lemma length_encode_table: "table_ok t \<Longrightarrow> length (encode_table t) = CLUSTER_SIZE"
  unfolding encode_table_def table_ok_def
  by (subst length_concat_const [of t encode_entry 32]) (auto simp: length_encode_entry kernel_defs)

lemma decode_encode_table [simp]: "table_ok t \<Longrightarrow> decode_table (encode_table t) = t"
  unfolding decode_table_def encode_table_def table_ok_def
  by (subst chunks_concat) (auto simp: length_encode_entry decode_encode_entry o_def intro: map_idI)

lemma table_ok_decode: "length bs = CLUSTER_SIZE \<Longrightarrow> table_ok (decode_table bs)"
  by (auto simp: table_ok_def decode_table_def kernel_defs intro!: entry_ok_decode dest!: chunks_width [rotated])

lemma encode_decode_table: "length bs = CLUSTER_SIZE \<Longrightarrow> encode_table (decode_table bs) = bs"
proof -
  assume len: "length bs = CLUSTER_SIZE"
  have "map (\<lambda>x. encode_entry (decode_entry x)) (chunks 32 DIR_ENTRIES bs) = chunks 32 DIR_ENTRIES bs"
    using len by (intro map_idI encode_decode_entry) (auto simp: kernel_defs dest!: chunks_width [rotated])
  with len show ?thesis by (simp add: encode_table_def decode_table_def o_def concat_chunks kernel_defs)
qed

lemma length_encode_fat: "length m = CLUSTER_MAP_SIZE \<Longrightarrow> length (encode_fat m) = CLUSTER_SIZE"
  unfolding encode_fat_def by (subst length_concat_const [of m le32 4]) (auto simp: kernel_defs)

lemma decode_encode_fat [simp]: "length m = CLUSTER_MAP_SIZE \<Longrightarrow> decode_fat (encode_fat m) = m"
  unfolding decode_fat_def encode_fat_def by (subst chunks_concat) (auto simp: o_def)

lemma length_decode_fat [simp, len_simps]: "length (decode_fat bs) = CLUSTER_MAP_SIZE"
  by (simp add: decode_fat_def)

lemma encode_decode_fat: "length bs = CLUSTER_SIZE \<Longrightarrow> encode_fat (decode_fat bs) = bs"
proof -
  assume len: "length bs = CLUSTER_SIZE"
  have "map (\<lambda>x. le32 (of_le32 x)) (chunks 4 CLUSTER_MAP_SIZE bs) = chunks 4 CLUSTER_MAP_SIZE bs"
    using len by (intro map_idI le32_of_le32) (auto simp: kernel_defs dest!: chunks_width [rotated])
  with len show ?thesis by (simp add: encode_fat_def decode_fat_def o_def concat_chunks kernel_defs)
qed

end
