(* ===== verification/Fat_Driver.thy ===== *)
theory Fat_Driver imports Block_Device Fat_Layout begin

text \<open>
  The FAT32 driver, \<open>src/ch1/fat32/fat32.c\<close>: the driver state, the cluster wrappers of the block
  interface, formatting and initialisation, and the four operations of the file system. The state is
  the static \<open>driver_state\<close> of the C file, extended by the memory the requests point into and the
  block device. A definition takes the block functions the driver is linked with as \<open>ops\<close>.

  \<open>None\<close> is a fault: an index outside \<open>cluster_map\<close> (the C code does not check cluster numbers
  against \<open>CLUSTER_MAP_SIZE\<close>), a fault of the block functions, or a loop that never ends.
\<close>

section \<open>State and requests\<close>

record FAT32DriverState =
  fat_table :: fat_map
  dir_table_buf :: dir_table
  cluster_buf :: "u8 list"

record 'd fs_state = FAT32DriverState +
  mem :: memory
  dev :: 'd

text \<open>Updates of the state in one order, so that the simplifier can compare states.\<close>

lemma fs_state_order [simp]:
  fixes s :: "'d fs_state"
  shows "s\<lparr>dev := d, dir_table_buf := t\<rparr> = s\<lparr>dir_table_buf := t, dev := d\<rparr>"
    and "s\<lparr>dev := d, fat_table := f\<rparr> = s\<lparr>fat_table := f, dev := d\<rparr>"
    and "s\<lparr>dev := d, mem := m\<rparr> = s\<lparr>mem := m, dev := d\<rparr>"
    and "s\<lparr>mem := m, dir_table_buf := t\<rparr> = s\<lparr>dir_table_buf := t, mem := m\<rparr>"
    and "s\<lparr>mem := m, fat_table := f\<rparr> = s\<lparr>fat_table := f, mem := m\<rparr>"
    and "s\<lparr>fat_table := f, dir_table_buf := t\<rparr> = s\<lparr>dir_table_buf := t, fat_table := f\<rparr>"
  by simp_all

record FAT32DriverRequest =
  buf :: u32
  req_name :: "u8 list"
  req_ext :: "u8 list"
  parent_cluster_number :: u32
  buffer_size :: u32

definition request_ok :: "FAT32DriverRequest \<Rightarrow> bool" where
  "request_ok r \<longleftrightarrow> length (req_name r) = 8 \<and> length (req_ext r) = 3"

section \<open>Cluster wrappers\<close>

definition cluster_to_lba :: "u32 \<Rightarrow> u32" where
  "cluster_to_lba c = c * of_nat CLUSTER_BLOCK_COUNT"

text \<open>The bytes \<open>read_clusters\<close> stores at \<open>ptr\<close>, and the source bytes \<open>write_clusters\<close> takes from it.\<close>

fun read_clusters_from :: "'d block_ops \<Rightarrow> u32 \<Rightarrow> nat \<Rightarrow> nat \<Rightarrow> 'd \<Rightarrow> (u8 list \<times> 'd) option" where
  "read_clusters_from ops c i 0 d = Some ([], d)"
| "read_clusters_from ops c i (Suc k) d = do {
     (b, d) \<leftarrow> read_blocks_op ops (cluster_to_lba (c + of_nat i)) (of_nat CLUSTER_BLOCK_COUNT) d;
     (rest, d) \<leftarrow> read_clusters_from ops c (Suc i) k d;
     Some (take CLUSTER_SIZE b @ rest, d) }"

definition read_clusters :: "'d block_ops \<Rightarrow> u32 \<Rightarrow> u8 \<Rightarrow> 'd \<Rightarrow> (u8 list \<times> 'd) option" where
  "read_clusters ops cluster_number cluster_count d =
     (if cluster_count > 63 then Some ([], d)
      else read_clusters_from ops cluster_number 0 (unat cluster_count) d)"

fun write_clusters_from :: "'d block_ops \<Rightarrow> u8 list \<Rightarrow> u32 \<Rightarrow> nat \<Rightarrow> nat \<Rightarrow> 'd \<Rightarrow> 'd option" where
  "write_clusters_from ops bs c i 0 d = Some d"
| "write_clusters_from ops bs c i (Suc k) d = do {
     d \<leftarrow> write_blocks_op ops (take CLUSTER_SIZE (drop (i * CLUSTER_SIZE) bs))
            (cluster_to_lba (c + of_nat i)) (of_nat CLUSTER_BLOCK_COUNT) d;
     write_clusters_from ops bs c (Suc i) k d }"

definition write_clusters :: "'d block_ops \<Rightarrow> u8 list \<Rightarrow> u32 \<Rightarrow> u8 \<Rightarrow> 'd \<Rightarrow> 'd option" where
  "write_clusters ops bs cluster_number cluster_count d =
     (if cluster_count > 63 then Some d
      else write_clusters_from ops bs cluster_number 0 (unat cluster_count) d)"

section \<open>Formatting and initialisation\<close>

definition ascii :: "string \<Rightarrow> u8 list" where
  "ascii = map of_char"

definition fs_signature :: "u8 list" where
  "fs_signature =
     ascii ''Course          '' @ ascii ''Designed by     '' @ ascii ''Lab Sister ITB  ''
     @ ascii ''Made with <3    '' @ ascii ''-----------2024'' @ [10] @ replicate 430 0 @ ascii ''Ok''"

definition init_directory_table :: "dir_table \<Rightarrow> u8 list \<Rightarrow> u32 \<Rightarrow> dir_table" where
  "init_directory_table t nm parent_dir_cluster =
     (let t = fold (\<lambda>i t. t[i := zero_entry]) [0..<DIR_ENTRIES] t;
          t = t[0 := (t ! 0)\<lparr>name := take 8 nm, attribute := ATTR_SUBDIRECTORY, user_attribute := UATTR_NOT_EMPTY\<rparr>]
      in t[1 := (t ! 1)\<lparr>name := ascii ''..'' @ drop 2 (name (t ! 1)), attribute := ATTR_SUBDIRECTORY,
                   user_attribute := UATTR_NOT_EMPTY,
                   cluster_high := ucast (drop_bit 16 parent_dir_cluster), cluster_low := ucast parent_dir_cluster\<rparr>])"

definition is_empty_storage :: "'d block_ops \<Rightarrow> 'd \<Rightarrow> (bool \<times> 'd) option" where
  "is_empty_storage ops d = do {
     (boot_sector, d) \<leftarrow> read_blocks_op ops BOOT_SECTOR 1 d;
     Some (memcmp_bytes boot_sector fs_signature 512 \<noteq> 0, d) }"

definition fresh_fat :: fat_map where
  "fresh_fat = [CLUSTER_0_VALUE, CLUSTER_1_VALUE, FAT32_FAT_END_OF_FILE] @ replicate 509 0"

definition dir_entry_for :: "string \<Rightarrow> FAT32DirectoryEntry" where
  "dir_entry_for s = zero_entry\<lparr>name := ascii s @ replicate (8 - length s) 0,
     attribute := ATTR_SUBDIRECTORY, user_attribute := UATTR_NOT_EMPTY,
     cluster_high := 0, cluster_low := ucast ROOT_CLUSTER_NUMBER, filesize := 0\<rparr>"

definition root_directory_table :: dir_table where
  "root_directory_table = [dir_entry_for ''root'', dir_entry_for ''..''] @ replicate 62 zero_entry"

definition create_fat32 :: "'d block_ops \<Rightarrow> 'd \<Rightarrow> 'd option" where
  "create_fat32 ops d = do {
     d \<leftarrow> write_blocks_op ops fs_signature BOOT_SECTOR 1 d;
     d \<leftarrow> write_clusters ops (encode_fat fresh_fat) FAT_CLUSTER_NUMBER 1 d;
     write_clusters ops (encode_table root_directory_table) ROOT_CLUSTER_NUMBER 1 d }"

definition load_fat :: "'d block_ops \<Rightarrow> 'd fs_state \<Rightarrow> 'd fs_state option" where
  "load_fat ops s = do {
     (bs, d) \<leftarrow> read_clusters ops FAT_CLUSTER_NUMBER 1 (dev s);
     Some (s\<lparr>fat_table := decode_fat bs, dev := d\<rparr>) }"

definition load_directory_table :: "'d block_ops \<Rightarrow> u32 \<Rightarrow> 'd fs_state \<Rightarrow> 'd fs_state option" where
  "load_directory_table ops c s = do {
     (bs, d) \<leftarrow> read_clusters ops c 1 (dev s);
     Some (s\<lparr>dir_table_buf := decode_table bs, dev := d\<rparr>) }"

definition initialize_filesystem_fat32 :: "'d block_ops \<Rightarrow> 'd fs_state \<Rightarrow> 'd fs_state option" where
  "initialize_filesystem_fat32 ops s = do {
     (empty, d) \<leftarrow> is_empty_storage ops (dev s);
     d \<leftarrow> (if empty then create_fat32 ops d else Some d);
     s \<leftarrow> load_fat ops (s\<lparr>dev := d\<rparr>);
     load_directory_table ops ROOT_CLUSTER_NUMBER s }"

section \<open>Lookups shared by the operations\<close>

definition fat_at :: "fat_map \<Rightarrow> u32 \<Rightarrow> u32 option" where
  "fat_at fat c = (if unat c < CLUSTER_MAP_SIZE then Some (fat ! unat c) else None)"

text \<open>The test of the search loops: \<open>user_attribute == UATTR_NOT_EMPTY && memcmp(...) == 0\<close>.\<close>

definition entry_matches :: "u8 list \<Rightarrow> FAT32DirectoryEntry \<Rightarrow> bool" where
  "entry_matches identifier e \<longleftrightarrow>
     user_attribute e = UATTR_NOT_EMPTY \<and> memcmp_bytes identifier (name e @ ext e) 11 = 0"

definition find_entry :: "u8 list \<Rightarrow> dir_table \<Rightarrow> nat option" where
  "find_entry identifier t = scan (\<lambda>i. entry_matches identifier (t ! i)) 2 DIR_ENTRIES"

definition find_empty_slot :: "dir_table \<Rightarrow> nat option" where
  "find_empty_slot t = scan (\<lambda>i. user_attribute (t ! i) \<noteq> UATTR_NOT_EMPTY) 2 DIR_ENTRIES"

text \<open>
  The checks at the head of every operation: the parent's FAT entry, loading the parent's directory
  table, and the validity of its entry 0. The flag is false when the operation must fail.
\<close>

definition open_parent :: "'d block_ops \<Rightarrow> u32 \<Rightarrow> 'd fs_state \<Rightarrow> (bool \<times> 'd fs_state) option" where
  "open_parent ops c s = do {
     v \<leftarrow> fat_at (fat_table s) c;
     if v \<noteq> FAT32_FAT_END_OF_FILE then Some (False, s)
     else do {
       s \<leftarrow> load_directory_table ops c s;
       Some (attribute (dir_table_buf s ! 0) = ATTR_SUBDIRECTORY, s) } }"

section \<open>Reading\<close>

definition read_directory :: "'d block_ops \<Rightarrow> FAT32DriverRequest \<Rightarrow> 'd fs_state \<Rightarrow> (int \<times> 'd fs_state) option" where
  "read_directory ops request s =
     (if parent_cluster_number request < 2 then Some (-1, s)
      else if buffer_size request \<noteq> of_nat CLUSTER_SIZE then Some (-1, s)
      else do {
        (ok, s) \<leftarrow> open_parent ops (parent_cluster_number request) s;
        if \<not> ok then Some (-1, s)
        else case find_entry (req_name request @ [0, 0, 0]) (dir_table_buf s) of
          None \<Rightarrow> Some (2, s)
        | Some i \<Rightarrow>
            if attribute (dir_table_buf s ! i) \<noteq> ATTR_SUBDIRECTORY then Some (1, s)
            else do {
              (bs, d) \<leftarrow> read_clusters ops (entry_cluster (dir_table_buf s ! i)) 1 (dev s);
              Some (0, s\<lparr>mem := mem_write (mem s) (buf request) bs, dev := d\<rparr>) } })"

text \<open>The \<open>do ... while\<close> loop of \<open>read\<close>, following the chain in the FAT.\<close>

partial_function (option) read_chain :: "'d block_ops \<Rightarrow> u32 \<Rightarrow> u32 \<Rightarrow> 'd fs_state \<Rightarrow> 'd fs_state option" where
  "read_chain ops temp_buf cluster_number s = do {
     (bs, d) \<leftarrow> read_clusters ops cluster_number 1 (dev s);
     let s = s\<lparr>mem := mem_write (mem s) temp_buf bs, dev := d\<rparr>;
     next_cluster \<leftarrow> fat_at (fat_table s) cluster_number;
     if next_cluster \<noteq> FAT32_FAT_END_OF_FILE
     then read_chain ops (temp_buf + of_nat CLUSTER_SIZE) next_cluster s
     else Some s }"

text \<open>
  \<open>request\<close> is passed by value: the final \<open>request.buffer_size = filesize\<close> of the C code stores
  into the callee's copy and is not visible to the caller.
\<close>

definition read_fat32 :: "'d block_ops \<Rightarrow> FAT32DriverRequest \<Rightarrow> 'd fs_state \<Rightarrow> (int \<times> 'd fs_state) option" where
  "read_fat32 ops request s =
     (if parent_cluster_number request < 2 then Some (-1, s)
      else do {
        (ok, s) \<leftarrow> open_parent ops (parent_cluster_number request) s;
        if \<not> ok then Some (-1, s)
        else case find_entry (req_name request @ req_ext request) (dir_table_buf s) of
          None \<Rightarrow> Some (3, s)
        | Some i \<Rightarrow>
            if attribute (dir_table_buf s ! i) = ATTR_SUBDIRECTORY then Some (1, s)
            else if buffer_size request < filesize (dir_table_buf s ! i) then Some (2, s)
            else do {
              s \<leftarrow> read_chain ops (buf request) (entry_cluster (dir_table_buf s ! i)) s;
              Some (0, s) } })"

section \<open>Writing\<close>

definition count_available :: "fat_map \<Rightarrow> u32" where
  "count_available fat =
     fold (\<lambda>i n. if fat ! i = FAT32_FAT_EMPTY_ENTRY then n + 1 else n) [2..<CLUSTER_MAP_SIZE] 0"

definition clusters_needed :: "FAT32DriverRequest \<Rightarrow> u32" where
  "clusters_needed request = buffer_size request div of_nat CLUSTER_SIZE + 1"

text \<open>The search \<open>while (cluster_map[fat_index] != EMPTY) ++fat_index\<close>; past the table it is a fault.\<close>

definition next_free :: "fat_map \<Rightarrow> nat \<Rightarrow> nat option" where
  "next_free fat i = scan (\<lambda>j. fat ! j = FAT32_FAT_EMPTY_ENTRY) i CLUSTER_MAP_SIZE"

definition add_entry :: "FAT32DriverRequest \<Rightarrow> FAT32DirectoryEntry \<Rightarrow> FAT32DirectoryEntry" where
  "add_entry request e =
     (let e = e\<lparr>name := req_name request, ext := req_ext request\<rparr>;
          e = (if buffer_size request = 0 then e\<lparr>attribute := ATTR_SUBDIRECTORY\<rparr> else e)
      in e\<lparr>user_attribute := UATTR_NOT_EMPTY\<rparr>)"

function write_loop :: "'d block_ops \<Rightarrow> FAT32DriverRequest \<Rightarrow> nat \<Rightarrow> nat \<Rightarrow> nat \<Rightarrow> nat \<Rightarrow> nat
    \<Rightarrow> 'd fs_state \<Rightarrow> (nat \<times> nat \<times> 'd fs_state) option" where
  "write_loop ops request slot count i fat_index previous_fat_index s = do {
     fat_index \<leftarrow> next_free (fat_table s) fat_index;
     let s = (if i = 0
              then s\<lparr>dir_table_buf := (dir_table_buf s)[slot := set_entry_cluster (of_nat fat_index) (dir_table_buf s ! slot)]\<rparr>
              else s\<lparr>fat_table := (fat_table s)[previous_fat_index := of_nat fat_index]\<rparr>);
     d \<leftarrow> write_clusters ops (mem_read (mem s) (buf request + of_nat (i * CLUSTER_SIZE)) CLUSTER_SIZE)
            (of_nat fat_index) 1 (dev s);
     let s = s\<lparr>dev := d\<rparr>;
     if Suc i < count then write_loop ops request slot count (Suc i) fat_index fat_index s
     else Some (Suc i, fat_index, s) }"
  by pat_completeness auto
termination
  by (relation "measure (\<lambda>(ops, request, slot, count, i, fat_index, previous_fat_index, s). count - i)") auto

declare write_loop.simps [simp del]

definition write_fat32 :: "'d block_ops \<Rightarrow> FAT32DriverRequest \<Rightarrow> 'd fs_state \<Rightarrow> (int \<times> 'd fs_state) option" where
  "write_fat32 ops request s =
     (if parent_cluster_number request < 2 then Some (2, s)
      else do {
        (ok, s) \<leftarrow> open_parent ops (parent_cluster_number request) s;
        if \<not> ok then Some (2, s)
        else case find_entry (req_name request @ req_ext request) (dir_table_buf s) of
          Some i \<Rightarrow> Some (1, s)
        | None \<Rightarrow>
          case find_empty_slot (dir_table_buf s) of
            None \<Rightarrow> Some (-1, s)
          | Some slot \<Rightarrow>
            if count_available (fat_table s) < clusters_needed request then Some (-1, s)
            else do {
              let s = s\<lparr>dir_table_buf := (dir_table_buf s)[slot := add_entry request (dir_table_buf s ! slot)]\<rparr>;
              (i, fat_index, s) \<leftarrow> write_loop ops request slot (unat (clusters_needed request)) 0 2 0 s;
              let s = s\<lparr>dir_table_buf := (dir_table_buf s)
                          [slot := (dir_table_buf s ! slot)\<lparr>filesize := of_nat (i * CLUSTER_SIZE)\<rparr>],
                        fat_table := (fat_table s)[fat_index := FAT32_FAT_END_OF_FILE]\<rparr>;
              d \<leftarrow> write_clusters ops (encode_fat (fat_table s)) FAT_CLUSTER_NUMBER 1 (dev s);
              d \<leftarrow> write_clusters ops (encode_table (dir_table_buf s)) (parent_cluster_number request) 1 d;
              Some (0, s\<lparr>dev := d\<rparr>) } })"

section \<open>Deleting\<close>

text \<open>The loop over the chain, with \<open>current_fat_index\<close> and \<open>next_fat_index\<close>, and the last store after it.\<close>

partial_function (option) free_chain :: "fat_map \<Rightarrow> u32 \<Rightarrow> u32 \<Rightarrow> fat_map option" where
  "free_chain fat current next_index =
     (if next_index \<noteq> FAT32_FAT_END_OF_FILE then do {
        let fat = fat[unat current := FAT32_FAT_EMPTY_ENTRY];
        following \<leftarrow> fat_at fat next_index;
        free_chain fat next_index following }
      else Some (fat[unat current := FAT32_FAT_EMPTY_ENTRY]))"

text \<open>The emptiness check of a directory; it loads the subdirectory's table into the driver's buffer.\<close>

definition directory_occupied :: "'d block_ops \<Rightarrow> nat \<Rightarrow> 'd fs_state \<Rightarrow> (bool \<times> 'd fs_state) option" where
  "directory_occupied ops slot s =
     (if attribute (dir_table_buf s ! slot) = ATTR_SUBDIRECTORY
      then do {
        s \<leftarrow> load_directory_table ops (entry_cluster (dir_table_buf s ! slot)) s;
        Some (scan (\<lambda>i. user_attribute (dir_table_buf s ! i) = UATTR_NOT_EMPTY) 2 DIR_ENTRIES \<noteq> None, s) }
      else Some (False, s))"

definition delete_fat32 :: "'d block_ops \<Rightarrow> FAT32DriverRequest \<Rightarrow> 'd fs_state \<Rightarrow> (int \<times> 'd fs_state) option" where
  "delete_fat32 ops request s =
     (if parent_cluster_number request < 2 then Some (-1, s)
      else do {
        (ok, s) \<leftarrow> open_parent ops (parent_cluster_number request) s;
        if \<not> ok then Some (-1, s)
        else case find_entry (req_name request @ req_ext request) (dir_table_buf s) of
          None \<Rightarrow> Some (1, s)
        | Some slot \<Rightarrow> do {
            (occupied, s) \<leftarrow> directory_occupied ops slot s;
            if occupied then Some (2, s)
            else do {
              s \<leftarrow> load_directory_table ops (parent_cluster_number request) s;
              let cluster_number = entry_cluster (dir_table_buf s ! slot);
              next_index \<leftarrow> fat_at (fat_table s) cluster_number;
              fat \<leftarrow> free_chain (fat_table s) cluster_number next_index;
              let s = s\<lparr>fat_table := fat, dir_table_buf := (dir_table_buf s)
                          [slot := (dir_table_buf s ! slot)\<lparr>user_attribute := 0\<rparr>]\<rparr>;
              d \<leftarrow> write_clusters ops (encode_fat (fat_table s)) FAT_CLUSTER_NUMBER 1 (dev s);
              d \<leftarrow> write_clusters ops (encode_table (dir_table_buf s)) (parent_cluster_number request) 1 d;
              Some (0, s\<lparr>dev := d\<rparr>) } } })"

end
