(* ===== verification/Fat_Chain.thy ===== *)
theory Fat_Chain imports Fat_Driver begin

text \<open>
  The file allocation table as a linked structure: chains of clusters ending in the end-of-file mark,
  what freeing a chain does, and the allocation the loop of \<open>write\<close> performs. Nothing here mentions
  the disk.
\<close>

section \<open>Chains\<close>

text \<open>\<open>fat_path fat c cs\<close>: following the table from cluster \<open>c\<close> visits \<open>cs\<close> and then the end-of-file mark.\<close>

primrec fat_path :: "fat_map \<Rightarrow> u32 \<Rightarrow> nat list \<Rightarrow> bool" where
  "fat_path fat c [] = False"
| "fat_path fat c (x # xs) \<longleftrightarrow> x = unat c \<and> x < CLUSTER_MAP_SIZE \<and>
     (if xs = [] then fat ! x = FAT32_FAT_END_OF_FILE
      else fat ! x \<noteq> FAT32_FAT_END_OF_FILE \<and> fat_path fat (fat ! x) xs)"

lemma fat_path_hd: "fat_path fat c cs \<Longrightarrow> \<exists>xs. cs = unat c # xs"
  by (cases cs) auto

lemma fat_path_range: "fat_path fat c cs \<Longrightarrow> x \<in> set cs \<Longrightarrow> x < CLUSTER_MAP_SIZE"
  by (induction cs arbitrary: c) (auto split: if_splits)

lemma fat_path_unique: "fat_path fat c cs \<Longrightarrow> fat_path fat c ds \<Longrightarrow> cs = ds"
proof (induction cs arbitrary: c ds)
  case (Cons x xs)
  then show ?case by (cases ds) (auto split: if_splits)
qed simp

lemma fat_path_suffix:
  "fat_path fat c cs \<Longrightarrow> x \<in> set cs \<Longrightarrow> \<exists>xs. fat_path fat (of_nat x) (x # xs) \<and> length xs < length cs"
proof (induction cs arbitrary: c)
  case (Cons y ys)
  show ?case
  proof (cases "x = y")
    case True
    with Cons.prems show ?thesis by (intro exI [of _ ys]) auto
  next
    case False
    with Cons.prems have "fat_path fat (fat ! y) ys" "x \<in> set ys" by (auto split: if_splits)
    from Cons.IH [OF this] obtain zs where "fat_path fat (of_nat x) (x # zs)" "length zs < length ys" by blast
    then show ?thesis by (intro exI [of _ zs] conjI) simp_all
  qed
qed simp

lemma fat_path_distinct: "fat_path fat c cs \<Longrightarrow> distinct cs"
proof (induction cs arbitrary: c)
  case (Cons x xs)
  show ?case
  proof (cases "xs = []")
    case False
    with Cons.prems have tl: "fat_path fat (fat ! x) xs" and c: "of_nat x = c" by auto
    have "x \<notin> set xs"
    proof
      assume "x \<in> set xs"
      then obtain zs where zs: "fat_path fat (of_nat x) (x # zs)" "length zs < length xs"
        using fat_path_suffix [OF tl] by blast
      with Cons.prems c have "x # zs = x # xs" using fat_path_unique by blast
      with zs(2) show False by simp
    qed
    with Cons.IH [OF tl] show ?thesis by simp
  qed simp
qed simp

lemma fat_path_length: "fat_path fat c cs \<Longrightarrow> length cs \<le> CLUSTER_MAP_SIZE"
proof -
  assume p: "fat_path fat c cs"
  then have "set cs \<subseteq> {..<CLUSTER_MAP_SIZE}" by (auto dest: fat_path_range)
  then have "card (set cs) \<le> CLUSTER_MAP_SIZE" using card_mono [of "{..<CLUSTER_MAP_SIZE}"] by fastforce
  then show ?thesis using distinct_card [OF fat_path_distinct [OF p]] by simp
qed

lemma fat_path_cong:
  "fat_path fat c cs \<Longrightarrow> (\<And>x. x \<in> set cs \<Longrightarrow> fat' ! x = fat ! x) \<Longrightarrow> fat_path fat' c cs"
  by (induction cs arbitrary: c) (auto split: if_splits)

lemma fat_path_update: "fat_path fat c cs \<Longrightarrow> i \<notin> set cs \<Longrightarrow> fat_path (fat[i := v]) c cs"
  by (erule fat_path_cong) (metis nth_list_update_neq)

lemma of_nat_u32_eq_iff: "x < 2 ^ 32 \<Longrightarrow> y < 2 ^ 32 \<Longrightarrow> (of_nat x :: u32) = of_nat y \<longleftrightarrow> x = y"
  by (metis unat_of_nat_u32)

lemma fat_path_nthI:
  assumes "cs \<noteq> []" and "\<And>k. k < length cs \<Longrightarrow> cs ! k < CLUSTER_MAP_SIZE"
    and "\<And>k. k < length cs \<Longrightarrow> fat ! (cs ! k) = (if Suc k < length cs then of_nat (cs ! Suc k) else FAT32_FAT_END_OF_FILE)"
  shows "fat_path fat (of_nat (hd cs)) cs"
  using assms
proof (induction cs)
  case (Cons x xs)
  from Cons.prems(2) [of 0] have x: "x < 512" by (simp add: kernel_defs)
  then have ux: "unat (of_nat x :: u32) = x" by (simp add: unat_of_nat_u32)
  show ?case
  proof (cases xs)
    case Nil
    with Cons.prems(3) [of 0] ux x show ?thesis by (simp add: kernel_defs)
  next
    case (Cons y ys)
    have "fat_path fat (of_nat (hd xs)) xs"
    proof (rule Cons.IH)
      show "xs \<noteq> []" using Cons by simp
    next
      fix k assume "k < length xs"
      then show "xs ! k < CLUSTER_MAP_SIZE" using Cons.prems(2) [of "Suc k"] by simp
      show "fat ! (xs ! k) = (if Suc k < length xs then of_nat (xs ! Suc k) else FAT32_FAT_END_OF_FILE)"
        using Cons.prems(3) [of "Suc k"] \<open>k < length xs\<close> by simp
    qed
    moreover have "fat ! x = of_nat y" using Cons.prems(3) [of 0] Cons by simp
    moreover have "y < 512" using Cons.prems(2) [of 1] Cons by (simp add: kernel_defs)
    then have "(of_nat y :: u32) \<noteq> FAT32_FAT_END_OF_FILE"
      using of_nat_u32_eq_iff [of y "0x0FFFFFFF"] by (simp add: kernel_defs)
    ultimately show ?thesis using Cons ux x by (simp add: CLUSTER_MAP_SIZE_def)
  qed
qed simp

section \<open>Freeing a chain\<close>

definition clear_clusters :: "fat_map \<Rightarrow> nat list \<Rightarrow> fat_map" where
  "clear_clusters fat cs = fold (\<lambda>i f. f[i := FAT32_FAT_EMPTY_ENTRY]) cs fat"

lemma length_clear_clusters [simp, len_simps]: "length (clear_clusters fat cs) = length fat"
  unfolding clear_clusters_def by (induction cs arbitrary: fat) auto

lemma nth_clear_clusters:
  "x < length fat \<Longrightarrow> clear_clusters fat cs ! x = (if x \<in> set cs then FAT32_FAT_EMPTY_ENTRY else fat ! x)"
  unfolding clear_clusters_def by (induction cs arbitrary: fat) (auto simp: nth_list_update)

text \<open>The loop of \<open>delete\<close> frees exactly the clusters of the chain it is started on, and it returns.\<close>

lemma free_chain_path:
  "fat_path fat c cs \<Longrightarrow> free_chain fat c (fat ! unat c) = Some (clear_clusters fat cs)"
proof (induction "length cs" arbitrary: fat c cs)
  case (Suc n)
  then obtain xs where cs: "cs = unat c # xs" using fat_path_hd by blast
  show ?case
  proof (cases xs)
    case Nil
    with Suc.prems cs show ?thesis by (subst free_chain.simps) (simp add: clear_clusters_def)
  next
    case (Cons y ys)
    let ?c = "fat ! unat c" and ?fat = "fat[unat c := FAT32_FAT_EMPTY_ENTRY]"
    have dist: "unat c \<notin> set xs" using fat_path_distinct [OF Suc.prems] cs by simp
    have tl: "fat_path fat ?c xs" and ne: "?c \<noteq> FAT32_FAT_END_OF_FILE"
      using Suc.prems cs Cons by auto
    have y: "y = unat ?c" "unat ?c < CLUSTER_MAP_SIZE"
      using fat_path_hd [OF tl] fat_path_range [OF tl] Cons by auto
    have "fat_path ?fat ?c xs" using tl dist by (rule fat_path_update)
    then have "free_chain ?fat ?c (?fat ! unat ?c) = Some (clear_clusters ?fat xs)"
      using Suc.hyps cs by (intro Suc.hyps(1)) simp_all
    with y ne cs show ?thesis
      by (subst free_chain.simps) (simp add: fat_at_def clear_clusters_def)
  qed
qed simp

section \<open>Allocation\<close>

definition free_clusters :: "fat_map \<Rightarrow> nat list" where
  "free_clusters fat = filter (\<lambda>i. fat ! i = FAT32_FAT_EMPTY_ENTRY) [2..<CLUSTER_MAP_SIZE]"

lemma free_clusters_set: "x \<in> set (free_clusters fat) \<longleftrightarrow> 2 \<le> x \<and> x < CLUSTER_MAP_SIZE \<and> fat ! x = FAT32_FAT_EMPTY_ENTRY"
  by (auto simp: free_clusters_def)

lemma free_clusters_sorted: "sorted_wrt (<) (free_clusters fat)"
  unfolding free_clusters_def by (rule sorted_wrt_filter) (rule strict_sorted_iff [THEN iffD2], simp)

lemma free_clusters_distinct: "distinct (free_clusters fat)"
  by (simp add: free_clusters_def)

lemma free_clusters_nth:
  "k < length (free_clusters fat) \<Longrightarrow> 2 \<le> free_clusters fat ! k \<and> free_clusters fat ! k < CLUSTER_MAP_SIZE
     \<and> fat ! (free_clusters fat ! k) = FAT32_FAT_EMPTY_ENTRY"
  using nth_mem free_clusters_set by blast

lemma free_clusters_mono:
  "i < j \<Longrightarrow> j < length (free_clusters fat) \<Longrightarrow> free_clusters fat ! i < free_clusters fat ! j"
  using free_clusters_sorted sorted_wrt_nth_less by blast

lemma free_clusters_inj:
  "i < length (free_clusters fat) \<Longrightarrow> j < length (free_clusters fat) \<Longrightarrow>
   free_clusters fat ! i = free_clusters fat ! j \<longleftrightarrow> i = j"
  using free_clusters_distinct nth_eq_iff_index_eq by blast

lemma length_free_clusters: "length (free_clusters fat) \<le> 510"
proof -
  have "length (free_clusters fat) \<le> length [2..<CLUSTER_MAP_SIZE]"
    unfolding free_clusters_def by (rule length_filter_le)
  also have "\<dots> = 510" by (simp only: length_upt) (simp add: kernel_defs)
  finally show ?thesis .
qed

lemma count_available_eq: "unat (count_available fat) = length (free_clusters fat)"
proof -
  have "fold (\<lambda>i n. if fat ! i = FAT32_FAT_EMPTY_ENTRY then n + 1 else n) xs (of_nat k)
      = (of_nat (k + length (filter (\<lambda>i. fat ! i = FAT32_FAT_EMPTY_ENTRY) xs)) :: u32)" for xs k
  proof (induction xs arbitrary: k)
    case (Cons x xs)
    show ?case using Cons.IH [of "Suc k"] Cons.IH [of k] by (simp add: add.commute)
  qed simp
  from this [of "[2..<CLUSTER_MAP_SIZE]" 0] have "count_available fat = of_nat (length (free_clusters fat))"
    by (simp add: count_available_def free_clusters_def)
  then show ?thesis using length_free_clusters [of fat] by (simp add: unat_of_nat_u32)
qed

lemma clusters_needed_eq: "unat (clusters_needed r) = unat (buffer_size r) div 2048 + 1"
proof -
  have "unat (buffer_size r) div 2048 < 2 ^ 21" using unat_u32_less [of "buffer_size r"] by simp
  then show ?thesis
    by (simp add: clusters_needed_def CLUSTER_SIZE_def unat_word_ariths unat_div)
qed

subsection \<open>The table inside the loop of \<open>write\<close>\<close>

text \<open>
  The loop resumes its search at the cluster it used last, and that cluster's FAT entry is still
  empty on the next iteration, since it is only linked one iteration later. So iteration \<open>j\<close> uses
  free cluster number \<open>j div 2\<close>: an odd iteration reuses the cluster of the one before it and links
  it to itself. \<open>loop_fat fat F j\<close> is the table after iteration \<open>j\<close>, \<open>F\<close> the free clusters.
\<close>

primrec loop_fat :: "fat_map \<Rightarrow> nat list \<Rightarrow> nat \<Rightarrow> fat_map" where
  "loop_fat fat F 0 = fat"
| "loop_fat fat F (Suc j) = (loop_fat fat F j)[F ! (j div 2) := of_nat (F ! (Suc j div 2))]"

lemma length_loop_fat [simp, len_simps]: "length (loop_fat fat F j) = length fat"
  by (induction j) simp_all

lemma loop_fat_other:
  "(\<And>k. k < (j + 1) div 2 \<Longrightarrow> F ! k \<noteq> x) \<Longrightarrow> loop_fat fat F j ! x = fat ! x"
proof (induction j)
  case (Suc j)
  have "F ! (j div 2) \<noteq> x" by (rule Suc.prems) simp
  moreover have "loop_fat fat F j ! x = fat ! x" by (rule Suc.IH) (rule Suc.prems, simp)
  ultimately show ?case by simp
qed simp

text \<open>Entry \<open>F ! k\<close> after iteration \<open>j\<close>: linked to itself in iteration \<open>2k + 1\<close>, to the next cluster in \<open>2k + 2\<close>.\<close>

lemma loop_fat_nth:
  assumes F: "F = free_clusters fat" and "length fat = CLUSTER_MAP_SIZE"
    and "j div 2 < length F" and "k < (j + 1) div 2"
  shows "loop_fat fat F j ! (F ! k) = of_nat (if 2 * k + 2 \<le> j then F ! Suc k else F ! k)"
  using assms(3,4)
proof (induction j)
  case (Suc j)
  have kl: "k < length F" using Suc.prems by linarith
  have jl: "j div 2 < length F" using Suc.prems by linarith
  have in_range: "F ! k < length (loop_fat fat F j)"
    using free_clusters_nth [of k fat] kl assms(2) by (simp add: F)
  show ?case
  proof (cases "k = j div 2")
    case True
    then have v: "loop_fat fat F (Suc j) ! (F ! k) = of_nat (F ! (Suc j div 2))" using in_range by simp
    show ?thesis
    proof (cases "even j")
      case True
      then have "Suc j div 2 = k" "\<not> 2 * k + 2 \<le> Suc j" using \<open>k = j div 2\<close> by auto
      with v show ?thesis by simp
    next
      case False
      then have "Suc j div 2 = Suc k" "2 * k + 2 \<le> Suc j" using \<open>k = j div 2\<close> by presburger+
      with v show ?thesis by simp
    qed
  next
    case False
    then have "k < (j + 1) div 2" and lt: "2 * k + 2 \<le> j" using Suc.prems(2) by presburger+
    moreover have "F ! (j div 2) \<noteq> F ! k" using free_clusters_inj [of "j div 2" fat k] jl kl False by (simp add: F)
    ultimately show ?thesis using Suc.IH jl by simp
  qed
qed simp

lemma of_nat_cluster_neq:
  "x < CLUSTER_MAP_SIZE \<Longrightarrow> 2 \<le> x \<Longrightarrow> (of_nat x :: u32) \<noteq> FAT32_FAT_EMPTY_ENTRY"
  "x < CLUSTER_MAP_SIZE \<Longrightarrow> (of_nat x :: u32) \<noteq> FAT32_FAT_END_OF_FILE"
  using of_nat_u32_eq_iff [of x 0] of_nat_u32_eq_iff [of x "0x0FFFFFFF"] by (auto simp: kernel_defs)

lemma loop_fat_empty_iff:
  assumes F: "F = free_clusters fat" and len: "length fat = CLUSTER_MAP_SIZE" and j: "j div 2 < length F"
  shows "loop_fat fat F j ! x = FAT32_FAT_EMPTY_ENTRY
    \<longleftrightarrow> fat ! x = FAT32_FAT_EMPTY_ENTRY \<and> (\<forall>k<(j + 1) div 2. F ! k \<noteq> x)"
proof (cases "\<exists>k<(j + 1) div 2. F ! k = x")
  case True
  then obtain k where k: "k < (j + 1) div 2" "F ! k = x" by blast
  let ?y = "if 2 * k + 2 \<le> j then F ! Suc k else F ! k"
  have "k < length F" using k j by linarith
  moreover have "2 * k + 2 \<le> j \<Longrightarrow> Suc k < length F" using j by linarith
  ultimately have "2 \<le> ?y \<and> ?y < CLUSTER_MAP_SIZE" using free_clusters_nth by (auto simp: F)
  then have "(of_nat ?y :: u32) \<noteq> FAT32_FAT_EMPTY_ENTRY" using of_nat_cluster_neq(1) by blast
  moreover have "loop_fat fat F j ! x = of_nat ?y" using loop_fat_nth [OF F len j k(1)] k(2) by simp
  ultimately show ?thesis using k by auto
next
  case False
  then show ?thesis using loop_fat_other [of j F x fat] by auto
qed

text \<open>The search of iteration \<open>j + 1\<close>, resumed at the cluster of iteration \<open>j\<close>.\<close>

lemma next_free_loop:
  assumes F: "F = free_clusters fat" and len: "length fat = CLUSTER_MAP_SIZE" and j: "Suc j div 2 < length F"
  shows "next_free (loop_fat fat F j) (F ! (j div 2)) = Some (F ! (Suc j div 2))"
proof -
  have jl: "j div 2 < length F" using j by linarith
  note empty_iff = loop_fat_empty_iff [OF F len jl]
  let ?t = "Suc j div 2"
  have t: "2 \<le> F ! ?t" "F ! ?t < CLUSTER_MAP_SIZE" "fat ! (F ! ?t) = FAT32_FAT_EMPTY_ENTRY"
    using free_clusters_nth [of ?t fat] j by (simp_all add: F)
  have le: "F ! (j div 2) \<le> F ! ?t"
  proof (cases "j div 2 = ?t")
    case False
    then have "j div 2 < ?t" by linarith
    then show ?thesis using free_clusters_mono [of "j div 2" ?t fat] j by (simp add: F)
  qed simp
  have ne: "F ! k \<noteq> F ! ?t" if "k < ?t" for k
    using free_clusters_inj [of k fat ?t] that j by (simp add: F)
  have skip: "loop_fat fat F j ! y \<noteq> FAT32_FAT_EMPTY_ENTRY" if y: "F ! (j div 2) \<le> y" "y < F ! ?t" for y
  proof
    assume "loop_fat fat F j ! y = FAT32_FAT_EMPTY_ENTRY"
    then have e: "fat ! y = FAT32_FAT_EMPTY_ENTRY" and new: "\<And>k. k < ?t \<Longrightarrow> F ! k \<noteq> y"
      by (simp_all add: empty_iff)
    have "2 \<le> F ! (j div 2)" using free_clusters_nth [of "j div 2" fat] jl by (simp add: F)
    with y e t(2) have "y \<in> set F" by (simp add: F free_clusters_set)
    then obtain k where k: "k < length F" "F ! k = y" by (auto simp: in_set_conv_nth)
    have "?t \<le> k"
    proof (rule ccontr)
      assume "\<not> ?t \<le> k"
      then show False using new [of k] k(2) by simp
    qed
    then have "F ! ?t \<le> F ! k"
      using free_clusters_mono [of ?t k fat] k(1) by (cases "k = ?t") (auto simp: F)
    with k y show False by simp
  qed
  have "loop_fat fat F j ! (F ! ?t) = FAT32_FAT_EMPTY_ENTRY" using t(3) ne by (simp add: empty_iff)
  with le t(2) skip show ?thesis unfolding next_free_def by (simp add: scan_Some_iff)
qed

lemma next_free_first:
  assumes F: "F = free_clusters fat" and "F \<noteq> []"
  shows "next_free fat 2 = Some (F ! 0)"
proof -
  have 0: "2 \<le> F ! 0" "F ! 0 < CLUSTER_MAP_SIZE" "fat ! (F ! 0) = FAT32_FAT_EMPTY_ENTRY"
    using free_clusters_nth [of 0 fat] assms by auto
  have "fat ! y \<noteq> FAT32_FAT_EMPTY_ENTRY" if y: "2 \<le> y" "y < F ! 0" for y
  proof
    assume "fat ! y = FAT32_FAT_EMPTY_ENTRY"
    with y 0 have "y \<in> set F" by (simp add: F free_clusters_set)
    then obtain k where k: "k < length F" "F ! k = y" by (auto simp: in_set_conv_nth)
    then show False using free_clusters_mono [of 0 k fat] y(2) by (cases k) (auto simp: F)
  qed
  with 0 show ?thesis unfolding next_free_def by (simp add: scan_Some_iff)
qed

text \<open>
  The table after the whole loop and the end-of-file mark: with \<open>n\<close> iterations, the first
  \<open>\<lceil>n/2\<rceil>\<close> free clusters form one chain.
\<close>

definition linked_fat :: "fat_map \<Rightarrow> nat \<Rightarrow> fat_map" where
  "linked_fat fat n = (loop_fat fat (free_clusters fat) (n - 1))
     [free_clusters fat ! ((n - 1) div 2) := FAT32_FAT_END_OF_FILE]"

definition written_chain :: "fat_map \<Rightarrow> nat \<Rightarrow> nat list" where
  "written_chain fat n = take ((n + 1) div 2) (free_clusters fat)"

lemma length_linked_fat [simp, len_simps]: "length (linked_fat fat n) = length fat"
  by (simp add: linked_fat_def)

lemma length_written_chain: "n \<le> length (free_clusters fat) \<Longrightarrow> length (written_chain fat n) = (n + 1) div 2"
  by (simp add: written_chain_def)

lemma linked_fat_other: "x \<notin> set (written_chain fat n) \<Longrightarrow> 0 < n \<Longrightarrow> n \<le> length (free_clusters fat) \<Longrightarrow> linked_fat fat n ! x = fat ! x"
proof -
  assume x: "x \<notin> set (written_chain fat n)" and n: "0 < n" "n \<le> length (free_clusters fat)"
  have "free_clusters fat ! k \<noteq> x" if "k < (n + 1) div 2" for k
    using x that n by (metis in_set_conv_nth length_written_chain nth_take written_chain_def)
  then show ?thesis
    using n loop_fat_other [of "n - 1" "free_clusters fat" x fat] by (simp add: linked_fat_def)
qed

lemma linked_fat_nth:
  assumes len: "length fat = CLUSTER_MAP_SIZE" and n: "0 < n" "n \<le> length (free_clusters fat)"
    and k: "k < (n + 1) div 2"
  shows "linked_fat fat n ! (free_clusters fat ! k)
    = (if Suc k < (n + 1) div 2 then of_nat (free_clusters fat ! Suc k) else FAT32_FAT_END_OF_FILE)"
proof -
  let ?F = "free_clusters fat" and ?m = "(n + 1) div 2" and ?l = "(n - 1) div 2"
  have m: "?m \<le> length ?F" "?l < ?m" "?l < length ?F" "?m = Suc ?l" using n by linarith+
  show ?thesis
  proof (cases "Suc k < ?m")
    case True
    then have "?F ! ?l \<noteq> ?F ! k" using free_clusters_inj [of ?l fat k] m k by simp
    moreover have "k < (n - 1 + 1) div 2" "2 * k + 2 \<le> n - 1" using True by linarith+
    ultimately have "linked_fat fat n ! (?F ! k) = of_nat (?F ! Suc k)"
      using loop_fat_nth [OF refl len m(3)] by (simp add: linked_fat_def)
    with True show ?thesis by simp
  next
    case False
    then have "k = ?l" using k m(4) by linarith
    then have "linked_fat fat n ! (?F ! k) = FAT32_FAT_END_OF_FILE"
      using free_clusters_nth [of k fat] m(3) len by (simp add: linked_fat_def)
    with False show ?thesis by simp
  qed
qed

lemma linked_fat_path:
  assumes len: "length fat = CLUSTER_MAP_SIZE" and n: "0 < n" "n \<le> length (free_clusters fat)"
  shows "fat_path (linked_fat fat n) (of_nat (free_clusters fat ! 0)) (written_chain fat n)"
proof -
  let ?F = "free_clusters fat" and ?m = "(n + 1) div 2"
  have hd: "of_nat (?F ! 0) = (of_nat (hd (written_chain fat n)) :: u32)"
    using n by (cases ?F) (auto simp: written_chain_def)
  show ?thesis
    unfolding hd
  proof (rule fat_path_nthI)
    show "written_chain fat n \<noteq> []" using n by (auto simp: written_chain_def)
  next
    fix k assume "k < length (written_chain fat n)"
    then have k: "k < ?m" using n by (simp add: length_written_chain)
    moreover have "?m \<le> length ?F" using n by linarith
    ultimately show "written_chain fat n ! k < CLUSTER_MAP_SIZE"
      using free_clusters_nth [of k fat] by (simp add: written_chain_def)
    show "linked_fat fat n ! (written_chain fat n ! k)
      = (if Suc k < length (written_chain fat n) then of_nat (written_chain fat n ! Suc k) else FAT32_FAT_END_OF_FILE)"
      using k n linked_fat_nth [OF len n k] by (simp add: written_chain_def length_written_chain)
  qed
qed

lemma written_chain_set:
  "n \<le> length (free_clusters fat) \<Longrightarrow> x \<in> set (written_chain fat n) \<longleftrightarrow> (\<exists>k<(n + 1) div 2. x = free_clusters fat ! k)"
  by (auto simp: written_chain_def in_set_conv_nth)

text \<open>
  The clusters on disk after iteration \<open>j\<close> of the loop, when iteration \<open>i\<close> writes the chunk \<open>B i\<close>:
  cluster number \<open>k\<close> of the chain holds the later of the two chunks written to it.
\<close>

primrec loop_disk :: "(nat \<Rightarrow> u8 list) \<Rightarrow> nat list \<Rightarrow> (nat \<Rightarrow> u8 list) \<Rightarrow> nat \<Rightarrow> nat \<Rightarrow> u8 list" where
  "loop_disk D F B 0 = D(F ! 0 := B 0)"
| "loop_disk D F B (Suc j) = (loop_disk D F B j)(F ! (Suc j div 2) := B (Suc j))"

lemma loop_disk_other: "(\<And>k. k \<le> j div 2 \<Longrightarrow> F ! k \<noteq> x) \<Longrightarrow> loop_disk D F B j x = D x"
proof (induction j)
  case (Suc j)
  have "F ! (Suc j div 2) \<noteq> x" by (rule Suc.prems) simp
  moreover have "loop_disk D F B j x = D x"
    by (rule Suc.IH) (rule Suc.prems, meson div_le_mono le_SucI le_refl order_trans)
  ultimately show ?case by simp
next
  case 0
  then show ?case using "0" [of 0] by simp
qed

lemma loop_disk_nth:
  assumes "distinct F" and "j div 2 < length F" and "k \<le> j div 2"
  shows "loop_disk D F B j (F ! k) = B (min (2 * k + 1) j)"
  using assms(2,3)
proof (induction j)
  case (Suc j)
  have kl: "k < length F" using Suc.prems by linarith
  show ?case
  proof (cases "k = Suc j div 2")
    case True
    then have "min (2 * k + 1) (Suc j) = Suc j" by presburger
    with True show ?thesis by simp
  next
    case False
    then have k: "k \<le> j div 2" "min (2 * k + 1) (Suc j) = min (2 * k + 1) j" using Suc.prems by presburger+
    moreover have "j div 2 < length F" using Suc.prems by linarith
    moreover have "F ! k \<noteq> F ! (Suc j div 2)"
      using nth_eq_iff_index_eq [OF assms(1) kl Suc.prems(1)] False by simp
    ultimately show ?thesis using Suc.IH by simp
  qed
qed simp

end
