(* ===== verification/Fat_Device.thy ===== *)
theory Fat_Device imports Fat_Chain begin

text \<open>
  The driver operations on an arbitrary block device: what each branch of \<open>write\<close>, \<open>read\<close>,
  \<open>read_directory\<close> and \<open>delete\<close> does to the FAT, the directory table buffer, the memory and the
  clusters on disk. Everything is proved once, in the context of the interface \<open>block_device\<close>; the
  device itself is only described by its clusters, so any provider of the interface inherits it.
\<close>

text \<open>Cluster \<open>i\<close> of the request's buffer, and the parent's directory table as it is on disk.\<close>

definition buffer_chunk :: "FAT32DriverRequest \<Rightarrow> memory \<Rightarrow> nat \<Rightarrow> u8 list" where
  "buffer_chunk r m i = mem_read m (buf r + of_nat (i * CLUSTER_SIZE)) CLUSTER_SIZE"

definition req_identifier :: "FAT32DriverRequest \<Rightarrow> u8 list" where
  "req_identifier r = req_name r @ req_ext r"

text \<open>The directory entry a successful \<open>write\<close> of \<open>n\<close> clusters leaves in its slot.\<close>

definition written_entry :: "FAT32DriverRequest \<Rightarrow> fat_map \<Rightarrow> nat \<Rightarrow> FAT32DirectoryEntry \<Rightarrow> FAT32DirectoryEntry" where
  "written_entry r fat n e =
     (set_entry_cluster (of_nat (free_clusters fat ! 0)) (add_entry r e))\<lparr>filesize := of_nat (n * CLUSTER_SIZE)\<rparr>"

lemma length_buffer_chunk [simp, len_simps]: "length (buffer_chunk r m i) = CLUSTER_SIZE"
  by (simp add: buffer_chunk_def)

lemma unat_cluster_to_lba: "unat c < 2048 \<Longrightarrow> unat (cluster_to_lba c) = 4 * unat c"
  by (simp add: cluster_to_lba_def CLUSTER_BLOCK_COUNT_def unat_word_ariths)

context block_device
begin

lemma read_clusters_one:
  assumes "valid d" and "unat c < 2048"
  shows "\<exists>d'. read_clusters ops c 1 d = Some (cluster_of (blocks d) (unat c), d') \<and> valid d'
    \<and> (\<forall>k<2048. cluster_of (blocks d') k = cluster_of (blocks d) k)"
proof -
  from read_cluster_law [OF assms unat_cluster_to_lba [OF assms(2)]] obtain d' where
    d': "read_blocks_op ops (cluster_to_lba c) 4 d = Some (cluster_of (blocks d) (unat c), d')" "valid d'"
      "\<forall>k<2048. cluster_of (blocks d') k = cluster_of (blocks d) k" by blast
  have "length (cluster_of (blocks d) (unat c)) = CLUSTER_SIZE"
    using length_cluster [OF assms] by (simp add: CLUSTER_SIZE_def)
  with d' show ?thesis by (simp add: read_clusters_def CLUSTER_BLOCK_COUNT_def)
qed

lemma write_clusters_one:
  assumes "valid d" and "unat c < 2048" and "length bs = CLUSTER_SIZE"
  shows "\<exists>d'. write_clusters ops bs c 1 d = Some d' \<and> valid d'
    \<and> (\<forall>k<2048. cluster_of (blocks d') k = (if k = unat c then bs else cluster_of (blocks d) k))"
proof -
  have "length bs = 2048" using assms(3) by (simp add: CLUSTER_SIZE_def)
  from write_cluster_law [OF assms(1,2) unat_cluster_to_lba [OF assms(2)] this] obtain d' where
    d': "write_blocks_op ops bs (cluster_to_lba c) 4 d = Some d'" "valid d'"
      "\<forall>k<2048. cluster_of (blocks d') k = (if k = unat c then bs else cluster_of (blocks d) k)" by blast
  then have "write_clusters ops bs c 1 d = Some d'"
    using assms(3) by (simp add: write_clusters_def CLUSTER_BLOCK_COUNT_def)
  with d' show ?thesis by blast
qed

lemma load_directory_table_ok:
  assumes "valid (dev s)" and "unat c < 2048"
  shows "\<exists>d'. load_directory_table ops c s
      = Some (s\<lparr>dir_table_buf := decode_table (cluster_of (blocks (dev s)) (unat c)), dev := d'\<rparr>) \<and> valid d'
    \<and> (\<forall>k<2048. cluster_of (blocks d') k = cluster_of (blocks (dev s)) k)"
proof -
  from read_clusters_one [OF assms] obtain d' where
    "read_clusters ops c 1 (dev s) = Some (cluster_of (blocks (dev s)) (unat c), d')" "valid d'"
    "\<forall>k<2048. cluster_of (blocks d') k = cluster_of (blocks (dev s)) k" by blast
  then show ?thesis by (auto simp: load_directory_table_def)
qed

lemma open_parent_ok:
  assumes "valid (dev s)" and "unat c < CLUSTER_MAP_SIZE" and "fat_table s ! unat c = FAT32_FAT_END_OF_FILE"
  shows "\<exists>d'. open_parent ops c s = Some
        (attribute (decode_table (cluster_of (blocks (dev s)) (unat c)) ! 0) = ATTR_SUBDIRECTORY,
         s\<lparr>dir_table_buf := decode_table (cluster_of (blocks (dev s)) (unat c)), dev := d'\<rparr>) \<and> valid d'
    \<and> (\<forall>k<2048. cluster_of (blocks d') k = cluster_of (blocks (dev s)) k)"
proof -
  have "unat c < 2048" using assms(2) by (simp add: CLUSTER_MAP_SIZE_def)
  from load_directory_table_ok [OF assms(1) this] obtain d' where
    "load_directory_table ops c s
      = Some (s\<lparr>dir_table_buf := decode_table (cluster_of (blocks (dev s)) (unat c)), dev := d'\<rparr>)" "valid d'"
    "\<forall>k<2048. cluster_of (blocks d') k = cluster_of (blocks (dev s)) k" by blast
  then show ?thesis using assms(2,3) by (auto simp: open_parent_def fat_at_def)
qed

lemma open_parent_not_directory:
  "unat c < CLUSTER_MAP_SIZE \<Longrightarrow> fat_table s ! unat c \<noteq> FAT32_FAT_END_OF_FILE \<Longrightarrow> open_parent ops c s = Some (False, s)"
  by (simp add: open_parent_def fat_at_def)

section \<open>The loop of \<open>write\<close>\<close>

lemma write_loop_rest:
  assumes F: "F = free_clusters A" and len: "length A = CLUSTER_MAP_SIZE" and count: "count \<le> length F"
    and i: "Suc j < count"
    and fat: "fat_table s = loop_fat A F j" and d: "valid (dev s)"
    and disk: "\<forall>k<2048. cluster_of (blocks (dev s)) k = loop_disk D F (buffer_chunk r (mem s)) j k"
  shows "\<exists>d'. write_loop ops r slot count (Suc j) (F ! (j div 2)) (F ! (j div 2)) s
      = Some (count, F ! ((count - 1) div 2), s\<lparr>fat_table := loop_fat A F (count - 1), dev := d'\<rparr>) \<and> valid d'
    \<and> (\<forall>k<2048. cluster_of (blocks d') k = loop_disk D F (buffer_chunk r (mem s)) (count - 1) k)"
  using i fat d disk
proof (induction "count - Suc j" arbitrary: j s)
  case (Suc n)
  let ?f = "F ! (Suc j div 2)"
  have jl: "Suc j div 2 < length F" using Suc.prems(1) count by linarith
  have f: "?f < CLUSTER_MAP_SIZE" using free_clusters_nth [of "Suc j div 2" A] jl by (simp add: F)
  then have uf: "unat (of_nat ?f :: u32) = ?f" by (simp add: unat_of_nat_u32 CLUSTER_MAP_SIZE_def)
  then have fl: "unat (of_nat ?f :: u32) < 2048" using f by (simp add: CLUSTER_MAP_SIZE_def)
  from write_clusters_one [OF Suc.prems(3) fl length_buffer_chunk] obtain d' where
    w: "write_clusters ops (buffer_chunk r (mem s) (Suc j)) (of_nat ?f) 1 (dev s) = Some d'" and v: "valid d'"
    and c: "\<forall>k<2048. cluster_of (blocks d') k = (if k = ?f then buffer_chunk r (mem s) (Suc j) else cluster_of (blocks (dev s)) k)"
    unfolding uf by blast
  let ?s = "s\<lparr>fat_table := loop_fat A F (Suc j), dev := d'\<rparr>"
  have c': "\<forall>k<2048. cluster_of (blocks (dev ?s)) k = loop_disk D F (buffer_chunk r (mem ?s)) (Suc j) k"
    using c Suc.prems(4) by simp
  have step: "write_loop ops r slot count (Suc j) (F ! (j div 2)) (F ! (j div 2)) s =
    (if Suc (Suc j) < count then write_loop ops r slot count (Suc (Suc j)) ?f ?f ?s else Some (Suc (Suc j), ?f, ?s))"
    using w Suc.prems(2) next_free_loop [OF F len jl]
    by (subst write_loop.simps) (simp add: buffer_chunk_def del: of_nat_mult of_nat_Suc mult_Suc)
  show ?case
  proof (cases "Suc (Suc j) < count")
    case True
    have hyp: "n = count - Suc (Suc j)" using Suc.hyps(2) by simp
    show ?thesis using Suc.hyps(1) [OF hyp True _ _ c'] v step True by simp
  next
    case False
    with Suc.prems(1) have "count = Suc (Suc j)" by simp
    then show ?thesis using step v c' by auto
  qed
qed simp

lemma write_loop_ok:
  assumes len: "length (fat_table s) = CLUSTER_MAP_SIZE" and n: "0 < n" "n \<le> length (free_clusters (fat_table s))"
    and d: "valid (dev s)"
  shows "\<exists>d'. write_loop ops r slot n 0 2 0 s
      = Some (n, free_clusters (fat_table s) ! ((n - 1) div 2),
          s\<lparr>dir_table_buf := (dir_table_buf s)
              [slot := set_entry_cluster (of_nat (free_clusters (fat_table s) ! 0)) (dir_table_buf s ! slot)],
            fat_table := loop_fat (fat_table s) (free_clusters (fat_table s)) (n - 1), dev := d'\<rparr>) \<and> valid d'
    \<and> (\<forall>k<2048. cluster_of (blocks d') k =
         loop_disk (cluster_of (blocks (dev s))) (free_clusters (fat_table s)) (buffer_chunk r (mem s)) (n - 1) k)"
proof -
  let ?A = "fat_table s" and ?D = "cluster_of (blocks (dev s))"
  let ?F = "free_clusters ?A"
  let ?t = "(dir_table_buf s)[slot := set_entry_cluster (of_nat (?F ! 0)) (dir_table_buf s ! slot)]"
  have f: "?F ! 0 < CLUSTER_MAP_SIZE" using free_clusters_nth [of 0 ?A] n by fastforce
  then have uf: "unat (of_nat (?F ! 0) :: u32) = ?F ! 0" by (simp add: unat_of_nat_u32 CLUSTER_MAP_SIZE_def)
  then have fl: "unat (of_nat (?F ! 0) :: u32) < 2048" using f by (simp add: CLUSTER_MAP_SIZE_def)
  from write_clusters_one [OF d fl length_buffer_chunk] obtain d' where
    w: "write_clusters ops (buffer_chunk r (mem s) 0) (of_nat (?F ! 0)) 1 (dev s) = Some d'" and v: "valid d'"
    and c: "\<forall>k<2048. cluster_of (blocks d') k = (if k = ?F ! 0 then buffer_chunk r (mem s) 0 else ?D k)"
    unfolding uf by blast
  let ?s = "s\<lparr>dir_table_buf := ?t, dev := d'\<rparr>"
  have "?F \<noteq> []" using n by auto
  then have nf: "next_free ?A 2 = Some (?F ! 0)" by (rule next_free_first [OF refl])
  have step: "write_loop ops r slot n 0 2 0 s =
      (if Suc 0 < n then write_loop ops r slot n (Suc 0) (?F ! 0) (?F ! 0) ?s else Some (Suc 0, ?F ! 0, ?s))"
    using w nf by (subst write_loop.simps) (simp add: buffer_chunk_def)
  have c': "\<forall>k<2048. cluster_of (blocks (dev ?s)) k = loop_disk ?D ?F (buffer_chunk r (mem ?s)) 0 k"
    using c by simp
  show ?thesis
  proof (cases "Suc 0 < n")
    case True
    have "\<exists>d''. write_loop ops r slot n (Suc 0) (?F ! (0 div 2)) (?F ! (0 div 2)) ?s
      = Some (n, ?F ! ((n - 1) div 2), ?s\<lparr>fat_table := loop_fat ?A ?F (n - 1), dev := d''\<rparr>) \<and> valid d''
      \<and> (\<forall>k<2048. cluster_of (blocks d'') k = loop_disk ?D ?F (buffer_chunk r (mem ?s)) (n - 1) k)"
      by (rule write_loop_rest [OF refl len n(2) True _ _ c']) (simp_all add: v)
    then show ?thesis using step True by (auto simp del: loop_fat.simps loop_disk.simps)
  next
    case False
    with n have "n = Suc 0" by simp
    then show ?thesis using step v c' by auto
  qed
qed

end

end
