(* ===== verification/Fat_Write.thy ===== *)
theory Fat_Write imports Fat_Device begin

text \<open>
  The branches of \<open>write\<close>, on any block device: the return code as a function of the FAT and the
  parent's table, no effect on the storage when it is not 0, and the exact result when it is 0.
\<close>

text \<open>The checks every operation makes on the parent cluster, against the storage.\<close>

definition parent_ok :: "fat_map \<Rightarrow> (nat \<Rightarrow> u8 list) \<Rightarrow> u32 \<Rightarrow> bool" where
  "parent_ok fat D c \<longleftrightarrow> 2 \<le> c \<and> unat c < CLUSTER_MAP_SIZE \<and> fat ! unat c = FAT32_FAT_END_OF_FILE
     \<and> attribute (decode_table (D (unat c)) ! 0) = ATTR_SUBDIRECTORY"

definition parent_table :: "(nat \<Rightarrow> u8 list) \<Rightarrow> FAT32DriverRequest \<Rightarrow> dir_table" where
  "parent_table D r = decode_table (D (unat (parent_cluster_number r)))"

definition clusters_written :: "FAT32DriverRequest \<Rightarrow> nat" where
  "clusters_written r = unat (buffer_size r) div CLUSTER_SIZE + 1"

text \<open>The return code of \<open>write\<close> once the parent is valid.\<close>

definition write_code :: "FAT32DriverRequest \<Rightarrow> fat_map \<Rightarrow> dir_table \<Rightarrow> int" where
  "write_code r fat t =
     (if find_entry (req_identifier r) t \<noteq> None then 1
      else if find_empty_slot t = None then -1
      else if length (free_clusters fat) < clusters_written r then -1 else 0)"

definition written_table :: "FAT32DriverRequest \<Rightarrow> fat_map \<Rightarrow> dir_table \<Rightarrow> dir_table" where
  "written_table r fat t =
     (let slot = the (find_empty_slot t) in t[slot := written_entry r fat (clusters_written r) (t ! slot)])"

text \<open>The clusters on disk after a successful \<open>write\<close>.\<close>

definition written_disk :: "FAT32DriverRequest \<Rightarrow> fat_map \<Rightarrow> memory \<Rightarrow> (nat \<Rightarrow> u8 list) \<Rightarrow> nat \<Rightarrow> u8 list" where
  "written_disk r fat m D =
     (loop_disk D (free_clusters fat) (buffer_chunk r m) (clusters_written r - 1))
       (1 := encode_fat (linked_fat fat (clusters_written r)),
        unat (parent_cluster_number r) := encode_table (written_table r fat (parent_table D r)))"

lemma clusters_needed_written: "unat (clusters_needed r) = clusters_written r"
  by (simp add: clusters_needed_eq clusters_written_def CLUSTER_SIZE_def)

lemma find_empty_slot_range: "find_empty_slot t = Some slot \<Longrightarrow> 2 \<le> slot \<and> slot < DIR_ENTRIES"
  by (simp add: find_empty_slot_def scan_Some_iff)

lemma find_entry_range: "find_entry ident t = Some i \<Longrightarrow> 2 \<le> i \<and> i < DIR_ENTRIES \<and> entry_matches ident (t ! i)"
  by (simp add: find_entry_def scan_Some_iff)

lemma count_available_less: "count_available fat < clusters_needed r \<longleftrightarrow> length (free_clusters fat) < clusters_written r"
  by (simp add: word_less_nat_alt count_available_eq clusters_needed_written)

lemma written_entry_ok: "request_ok r \<Longrightarrow> entry_ok (written_entry r fat n e)"
  by (simp add: written_entry_def entry_ok_def request_ok_def add_entry_def Let_def)

lemma table_ok_update: "table_ok t \<Longrightarrow> entry_ok e \<Longrightarrow> table_ok (t[i := e])"
  by (auto simp: table_ok_def dest: set_update_subset_insert [THEN subsetD])

lemma table_ok_written: "request_ok r \<Longrightarrow> table_ok t \<Longrightarrow> table_ok (written_table r fat t)"
  by (simp add: written_table_def Let_def table_ok_update written_entry_ok)

lemma not_less_2_iff: "\<not> (c :: u32) < 2 \<longleftrightarrow> 2 \<le> c"
  by auto

lemma parent_unat: "parent_ok fat D c \<Longrightarrow> 2 \<le> unat c \<and> unat c < 512"
  by (auto simp: parent_ok_def CLUSTER_MAP_SIZE_def word_le_nat_alt)

context block_device
begin

lemma parent_table_ok:
  "valid d \<Longrightarrow> unat (parent_cluster_number r) < 2048 \<Longrightarrow> table_ok (parent_table (cluster_of (blocks d)) r)"
  unfolding parent_table_def by (rule table_ok_decode) (simp add: length_cluster CLUSTER_SIZE_def)

lemma open_parent_valid:
  assumes "valid (dev s)" and "parent_ok (fat_table s) (cluster_of (blocks (dev s))) (parent_cluster_number r)"
  shows "\<exists>d'. open_parent ops (parent_cluster_number r) s = Some
        (True, s\<lparr>dir_table_buf := parent_table (cluster_of (blocks (dev s))) r, dev := d'\<rparr>) \<and> valid d'
    \<and> (\<forall>k<2048. cluster_of (blocks d') k = cluster_of (blocks (dev s)) k)"
  using open_parent_ok [OF assms(1), of "parent_cluster_number r"] assms(2)
  by (simp add: parent_ok_def parent_table_def)

text \<open>A parent that fails the checks: the operation stops with the storage unchanged.\<close>

lemma open_parent_invalid:
  assumes "valid (dev s)" and "2 \<le> c" and "unat c < CLUSTER_MAP_SIZE"
    and "\<not> parent_ok (fat_table s) (cluster_of (blocks (dev s))) c"
  shows "\<exists>s'. open_parent ops c s = Some (False, s') \<and> valid (dev s') \<and> fat_table s' = fat_table s \<and> mem s' = mem s
    \<and> (\<forall>k<2048. cluster_of (blocks (dev s')) k = cluster_of (blocks (dev s)) k)"
proof (cases "fat_table s ! unat c = FAT32_FAT_END_OF_FILE")
  case True
  with assms have "attribute (decode_table (cluster_of (blocks (dev s)) (unat c)) ! 0) \<noteq> ATTR_SUBDIRECTORY"
    by (simp add: parent_ok_def)
  with open_parent_ok [OF assms(1,3) True] show ?thesis by auto
next
  case False
  with assms show ?thesis by (auto simp: open_parent_not_directory)
qed

lemma write_bad_parent:
  assumes "valid (dev s)" and "unat (parent_cluster_number r) < CLUSTER_MAP_SIZE"
    and "\<not> parent_ok (fat_table s) (cluster_of (blocks (dev s))) (parent_cluster_number r)"
  shows "\<exists>s'. write_fat32 ops r s = Some (2, s') \<and> valid (dev s') \<and> fat_table s' = fat_table s \<and> mem s' = mem s
    \<and> (\<forall>k<2048. cluster_of (blocks (dev s')) k = cluster_of (blocks (dev s)) k)"
proof (cases "parent_cluster_number r < 2")
  case True
  with assms(1) show ?thesis by (auto simp: write_fat32_def)
next
  case False
  then have "2 \<le> parent_cluster_number r" by simp
  from open_parent_invalid [OF assms(1) this assms(2,3)] False show ?thesis by (auto simp: write_fat32_def)
qed

lemma write_fails:
  assumes "valid (dev s)" and ok: "parent_ok (fat_table s) (cluster_of (blocks (dev s))) (parent_cluster_number r)"
    and code: "write_code r (fat_table s) (parent_table (cluster_of (blocks (dev s))) r) \<noteq> 0"
  shows "\<exists>d'. write_fat32 ops r s = Some (write_code r (fat_table s) (parent_table (cluster_of (blocks (dev s))) r),
        s\<lparr>dir_table_buf := parent_table (cluster_of (blocks (dev s))) r, dev := d'\<rparr>) \<and> valid d'
    \<and> (\<forall>k<2048. cluster_of (blocks d') k = cluster_of (blocks (dev s)) k)"
proof -
  let ?t = "parent_table (cluster_of (blocks (dev s))) r"
  from open_parent_valid [OF assms(1,2)] obtain d' where
    o: "open_parent ops (parent_cluster_number r) s = Some (True, s\<lparr>dir_table_buf := ?t, dev := d'\<rparr>)"
    and d': "valid d'" "\<forall>k<2048. cluster_of (blocks d') k = cluster_of (blocks (dev s)) k" by blast
  have p: "\<not> parent_cluster_number r < 2" using ok by (auto simp: parent_ok_def)
  have "write_fat32 ops r s = Some (write_code r (fat_table s) ?t, s\<lparr>dir_table_buf := ?t, dev := d'\<rparr>)"
    using o p code
    by (auto simp: write_fat32_def write_code_def req_identifier_def count_available_less split: option.split if_splits)
  with d' show ?thesis by blast
qed

lemma write_succeeds:
  assumes v: "valid (dev s)" and ok: "parent_ok (fat_table s) (cluster_of (blocks (dev s))) (parent_cluster_number r)"
    and len: "length (fat_table s) = CLUSTER_MAP_SIZE" and req: "request_ok r"
    and code: "write_code r (fat_table s) (parent_table (cluster_of (blocks (dev s))) r) = 0"
  shows "\<exists>d'. write_fat32 ops r s = Some (0,
        s\<lparr>dir_table_buf := written_table r (fat_table s) (parent_table (cluster_of (blocks (dev s))) r),
          fat_table := linked_fat (fat_table s) (clusters_written r), dev := d'\<rparr>) \<and> valid d'
    \<and> (\<forall>k<2048. cluster_of (blocks d') k = written_disk r (fat_table s) (mem s) (cluster_of (blocks (dev s))) k)"
proof -
  let ?D = "cluster_of (blocks (dev s))" and ?n = "clusters_written r" and ?A = "fat_table s"
  let ?t = "parent_table ?D r" and ?F = "free_clusters ?A"
  from open_parent_valid [OF v ok] obtain d1 where
    o: "open_parent ops (parent_cluster_number r) s = Some (True, s\<lparr>dir_table_buf := ?t, dev := d1\<rparr>)"
    and d1: "valid d1" "\<forall>k<2048. cluster_of (blocks d1) k = ?D k" by blast
  have p: "\<not> parent_cluster_number r < 2" using ok by (auto simp: parent_ok_def)
  have pl: "2 \<le> unat (parent_cluster_number r)" "unat (parent_cluster_number r) < 2048"
    using parent_unat [OF ok] by simp_all
  have t_ok: "table_ok ?t" using v pl(2) by (rule parent_table_ok)
  from code obtain slot where slot: "find_entry (req_identifier r) ?t = None" "find_empty_slot ?t = Some slot"
    and space: "?n \<le> length ?F"
    by (auto simp: write_code_def split: if_splits)
  have sl: "slot < length ?t" using find_empty_slot_range [OF slot(2)] t_ok by (simp add: table_ok_def)
  let ?s1 = "s\<lparr>dir_table_buf := ?t[slot := add_entry r (?t ! slot)], dev := d1\<rparr>"
  have "\<exists>d'. write_loop ops r slot ?n 0 2 0 ?s1 = Some (?n, ?F ! ((?n - 1) div 2),
      ?s1\<lparr>dir_table_buf := (dir_table_buf ?s1)[slot := set_entry_cluster (of_nat (?F ! 0)) (dir_table_buf ?s1 ! slot)],
          fat_table := loop_fat ?A ?F (?n - 1), dev := d'\<rparr>) \<and> valid d'
      \<and> (\<forall>k<2048. cluster_of (blocks d') k = loop_disk (cluster_of (blocks (dev ?s1))) ?F (buffer_chunk r (mem ?s1)) (?n - 1) k)"
    using write_loop_ok [of ?s1 ?n r slot] len space d1(1) by (simp add: clusters_written_def)
  then obtain d2 where loop: "write_loop ops r slot ?n 0 2 0 ?s1 = Some (?n, ?F ! ((?n - 1) div 2),
      ?s1\<lparr>dir_table_buf := (dir_table_buf ?s1)[slot := set_entry_cluster (of_nat (?F ! 0)) (dir_table_buf ?s1 ! slot)],
          fat_table := loop_fat ?A ?F (?n - 1), dev := d2\<rparr>)" and d2: "valid d2"
      "\<forall>k<2048. cluster_of (blocks d2) k = loop_disk (cluster_of (blocks d1)) ?F (buffer_chunk r (mem s)) (?n - 1) k"
    by auto
  let ?t' = "written_table r ?A ?t" and ?A' = "linked_fat ?A ?n"
  have lf: "length (encode_fat ?A') = CLUSTER_SIZE" by (rule length_encode_fat) (simp add: len)
  have lt: "length (encode_table ?t') = CLUSTER_SIZE"
    by (rule length_encode_table) (rule table_ok_written [OF req t_ok])
  have "unat FAT_CLUSTER_NUMBER < 2048" by (simp add: FAT_CLUSTER_NUMBER_def)
  from write_clusters_one [OF d2(1) this lf] obtain d3 where
    w3: "write_clusters ops (encode_fat ?A') FAT_CLUSTER_NUMBER 1 d2 = Some d3" and d3: "valid d3"
      "\<forall>k<2048. cluster_of (blocks d3) k = (if k = unat FAT_CLUSTER_NUMBER then encode_fat ?A' else cluster_of (blocks d2) k)"
    by blast
  from write_clusters_one [OF d3(1) pl(2) lt] obtain d4 where
    w4: "write_clusters ops (encode_table ?t') (parent_cluster_number r) 1 d3 = Some d4" and d4: "valid d4"
      "\<forall>k<2048. cluster_of (blocks d4) k = (if k = unat (parent_cluster_number r) then encode_table ?t' else cluster_of (blocks d3) k)"
    by blast
  have run: "write_fat32 ops r s = Some (0, s\<lparr>dir_table_buf := ?t', fat_table := ?A', dev := d4\<rparr>)"
    using p o slot space loop w3 w4 sl
    by (simp add: write_fat32_def req_identifier_def count_available_less clusters_needed_written linked_fat_def
        written_table_def written_entry_def Let_def)
  have D: "loop_disk (cluster_of (blocks d1)) ?F (buffer_chunk r (mem s)) (?n - 1) k
      = loop_disk ?D ?F (buffer_chunk r (mem s)) (?n - 1) k" if "k < 2048" for k
  proof -
    have "loop_disk E ?F B j k = loop_disk E' ?F B j k" if "E k = E' k" for E E' B j
      using that by (induction j) auto
    then show ?thesis using d1(2) \<open>k < 2048\<close> by blast
  qed
  have "\<forall>k<2048. cluster_of (blocks d4) k = written_disk r ?A (mem s) ?D k"
    using d2(2) d3(2) d4(2) D by (simp add: written_disk_def FAT_CLUSTER_NUMBER_def)
  with run d4(1) show ?thesis by blast
qed

end

end
