(* ===== verification/Fat_Read.thy ===== *)
theory Fat_Read imports Fat_Write begin

text \<open>
  The branches of \<open>read\<close> and \<open>read_directory\<close> on any block device. The chain loop of \<open>read\<close> returns
  exactly when following the FAT reaches the end-of-file mark; then it has stored the clusters of the
  chain, whole, one after another at the request's buffer.
\<close>

definition chain_bytes :: "(nat \<Rightarrow> u8 list) \<Rightarrow> nat list \<Rightarrow> u8 list" where
  "chain_bytes D cs = concat (map D cs)"

definition read_code :: "FAT32DriverRequest \<Rightarrow> dir_table \<Rightarrow> int" where
  "read_code r t = (case find_entry (req_identifier r) t of
     None \<Rightarrow> 3
   | Some i \<Rightarrow> if attribute (t ! i) = ATTR_SUBDIRECTORY then 1
               else if buffer_size r < filesize (t ! i) then 2 else 0)"

definition read_directory_code :: "FAT32DriverRequest \<Rightarrow> dir_table \<Rightarrow> int" where
  "read_directory_code r t = (case find_entry (req_name r @ [0, 0, 0]) t of
     None \<Rightarrow> 2
   | Some i \<Rightarrow> if attribute (t ! i) \<noteq> ATTR_SUBDIRECTORY then 1 else 0)"

lemma bind_Some_iff: "Option.bind x f = Some y \<longleftrightarrow> (\<exists>z. x = Some z \<and> f z = Some y)"
  by (cases x) auto

text \<open>A run of the loop that returns has followed a chain to its end.\<close>

lemma read_chain_returns_path:
  "read_chain ops b c s = Some s' \<Longrightarrow> \<exists>cs. fat_path (fat_table s) c cs"
proof (rule read_chain.raw_induct [where P = "\<lambda>ops b c s s'. \<exists>cs. fat_path (fat_table s) c cs"], goal_cases)
  case (1 loop ops b c s s')
  from 1(3) obtain bs d v where "read_clusters ops c 1 (dev s) = Some (bs, d)"
    and v: "fat_at (fat_table s) c = Some v"
    and rest: "(if v \<noteq> FAT32_FAT_END_OF_FILE
       then loop ops (b + of_nat CLUSTER_SIZE) v (s\<lparr>mem := mem_write (mem s) b bs, dev := d\<rparr>)
       else Some (s\<lparr>mem := mem_write (mem s) b bs, dev := d\<rparr>)) = Some s'"
    by (auto simp: bind_Some_iff Let_def)
  from v have c: "unat c < CLUSTER_MAP_SIZE" "v = fat_table s ! unat c" by (auto simp: fat_at_def split: if_splits)
  show ?case
  proof (cases "v = FAT32_FAT_END_OF_FILE")
    case True
    with c show ?thesis by (intro exI [of _ "[unat c]"]) simp
  next
    case False
    with rest 1(2) obtain cs where cs: "fat_path (fat_table s) v cs" by fastforce
    then have "cs \<noteq> []" by auto
    with False c cs show ?thesis by (intro exI [of _ "unat c # cs"]) simp
  qed
qed simp

context block_device
begin

lemma length_chain_bytes:
  "valid d \<Longrightarrow> (\<And>x. x \<in> set cs \<Longrightarrow> x < CLUSTER_MAP_SIZE) \<Longrightarrow> length (chain_bytes (cluster_of (blocks d)) cs) = 2048 * length cs"
  unfolding chain_bytes_def by (rule length_concat_const) (force simp: length_cluster CLUSTER_MAP_SIZE_def)

lemma read_chain_path:
  assumes "fat_path (fat_table s) c cs" and "valid (dev s)"
  shows "\<exists>d'. read_chain ops b c s
      = Some (s\<lparr>mem := mem_write (mem s) b (chain_bytes (cluster_of (blocks (dev s))) cs), dev := d'\<rparr>) \<and> valid d'
    \<and> (\<forall>k<2048. cluster_of (blocks d') k = cluster_of (blocks (dev s)) k)"
  using assms
proof (induction "length cs" arbitrary: b c cs s)
  case (Suc n)
  let ?D = "cluster_of (blocks (dev s))"
  obtain xs where cs: "cs = unat c # xs" using fat_path_hd [OF Suc.prems(1)] by blast
  have c: "unat c < CLUSTER_MAP_SIZE" using fat_path_range [OF Suc.prems(1)] cs by simp
  then have cl: "unat c < 2048" by (simp add: CLUSTER_MAP_SIZE_def)
  from read_clusters_one [OF Suc.prems(2) cl] obtain d' where
    r: "read_clusters ops c 1 (dev s) = Some (?D (unat c), d')" and d': "valid d'" "\<forall>k<2048. cluster_of (blocks d') k = ?D k"
    by blast
  let ?s = "s\<lparr>mem := mem_write (mem s) b (?D (unat c)), dev := d'\<rparr>"
  show ?case
  proof (cases "xs = []")
    case True
    with Suc.prems cs r c have "read_chain ops b c s = Some ?s"
      by (subst read_chain.simps) (simp add: fat_at_def)
    with d' True cs show ?thesis by (auto simp: chain_bytes_def)
  next
    case False
    then have tl: "fat_path (fat_table s) (fat_table s ! unat c) xs"
      and ne: "fat_table s ! unat c \<noteq> FAT32_FAT_END_OF_FILE" using Suc.prems(1) cs by auto
    have rng: "x < CLUSTER_MAP_SIZE" if "x \<in> set xs" for x using fat_path_range [OF tl that] .
    have "chain_bytes (cluster_of (blocks d')) xs = chain_bytes ?D xs"
      using d'(2) rng unfolding chain_bytes_def CLUSTER_MAP_SIZE_def
      by (intro arg_cong [where f = concat] map_cong) force+
    then obtain d'' where run: "read_chain ops (b + of_nat CLUSTER_SIZE) (fat_table s ! unat c) ?s
        = Some (s\<lparr>mem := mem_write (mem ?s) (b + of_nat CLUSTER_SIZE) (chain_bytes ?D xs), dev := d''\<rparr>)"
      and d'': "valid d''" "\<forall>k<2048. cluster_of (blocks d'') k = cluster_of (blocks d') k"
      using Suc.hyps(1) [of xs ?s "fat_table s ! unat c" "b + of_nat CLUSTER_SIZE"] Suc.hyps(2) cs tl d'(1) by auto
    have step: "read_chain ops b c s = read_chain ops (b + of_nat CLUSTER_SIZE) (fat_table s ! unat c) ?s"
      using r c ne by (subst read_chain.simps) (simp add: fat_at_def)
    have len: "length (?D (unat c)) = CLUSTER_SIZE"
      using length_cluster [OF Suc.prems(2) cl] by (simp add: CLUSTER_SIZE_def)
    have "length cs \<le> 512" using fat_path_length [OF Suc.prems(1)] by (simp add: CLUSTER_MAP_SIZE_def)
    then have "length (?D (unat c)) + length (chain_bytes ?D xs) \<le> 2 ^ 32"
      using len length_chain_bytes [OF Suc.prems(2) rng] cs by (simp add: CLUSTER_SIZE_def)
    from mem_write_append [OF this, of "mem s" b] len cs
    have "mem_write (mem ?s) (b + of_nat CLUSTER_SIZE) (chain_bytes ?D xs) = mem_write (mem s) b (chain_bytes ?D cs)"
      by (simp add: chain_bytes_def)
    with run step have "read_chain ops b c s = Some (s\<lparr>mem := mem_write (mem s) b (chain_bytes ?D cs), dev := d''\<rparr>)" by simp
    with d' d'' show ?thesis by auto
  qed
qed simp

text \<open>Termination of the loop, exactly: it returns if and only if the FAT leads to the end mark.\<close>

lemma read_chain_terminates_iff:
  "valid (dev s) \<Longrightarrow> (\<exists>s'. read_chain ops b c s = Some s') \<longleftrightarrow> (\<exists>cs. fat_path (fat_table s) c cs)"
  using read_chain_returns_path read_chain_path by blast

lemma read_bad_parent:
  assumes "valid (dev s)" and "unat (parent_cluster_number r) < CLUSTER_MAP_SIZE"
    and "\<not> parent_ok (fat_table s) (cluster_of (blocks (dev s))) (parent_cluster_number r)"
  shows "\<exists>s'. read_fat32 ops r s = Some (-1, s') \<and> valid (dev s') \<and> fat_table s' = fat_table s \<and> mem s' = mem s
    \<and> (\<forall>k<2048. cluster_of (blocks (dev s')) k = cluster_of (blocks (dev s)) k)"
proof (cases "parent_cluster_number r < 2")
  case True
  with assms(1) show ?thesis by (auto simp: read_fat32_def)
next
  case False
  then have "2 \<le> parent_cluster_number r" by simp
  from open_parent_invalid [OF assms(1) this assms(2,3)] False show ?thesis by (auto simp: read_fat32_def)
qed

lemma read_fails:
  assumes "valid (dev s)" and ok: "parent_ok (fat_table s) (cluster_of (blocks (dev s))) (parent_cluster_number r)"
    and code: "read_code r (parent_table (cluster_of (blocks (dev s))) r) \<noteq> 0"
  shows "\<exists>d'. read_fat32 ops r s = Some (read_code r (parent_table (cluster_of (blocks (dev s))) r),
        s\<lparr>dir_table_buf := parent_table (cluster_of (blocks (dev s))) r, dev := d'\<rparr>) \<and> valid d'
    \<and> (\<forall>k<2048. cluster_of (blocks d') k = cluster_of (blocks (dev s)) k)"
proof -
  let ?t = "parent_table (cluster_of (blocks (dev s))) r"
  from open_parent_valid [OF assms(1,2)] obtain d' where
    o: "open_parent ops (parent_cluster_number r) s = Some (True, s\<lparr>dir_table_buf := ?t, dev := d'\<rparr>)"
    and d': "valid d'" "\<forall>k<2048. cluster_of (blocks d') k = cluster_of (blocks (dev s)) k" by blast
  have p: "\<not> parent_cluster_number r < 2" using ok by (auto simp: parent_ok_def)
  have "read_fat32 ops r s = Some (read_code r ?t, s\<lparr>dir_table_buf := ?t, dev := d'\<rparr>)"
    using o p code by (auto simp: read_fat32_def read_code_def req_identifier_def split: option.splits if_splits)
  with d' show ?thesis by blast
qed

lemma read_succeeds:
  assumes v: "valid (dev s)" and ok: "parent_ok (fat_table s) (cluster_of (blocks (dev s))) (parent_cluster_number r)"
    and i: "find_entry (req_identifier r) (parent_table (cluster_of (blocks (dev s))) r) = Some i"
    and code: "read_code r (parent_table (cluster_of (blocks (dev s))) r) = 0"
    and path: "fat_path (fat_table s) (entry_cluster (parent_table (cluster_of (blocks (dev s))) r ! i)) cs"
  shows "\<exists>d'. read_fat32 ops r s = Some (0,
        s\<lparr>dir_table_buf := parent_table (cluster_of (blocks (dev s))) r,
          mem := mem_write (mem s) (buf r) (chain_bytes (cluster_of (blocks (dev s))) cs), dev := d'\<rparr>) \<and> valid d'
    \<and> (\<forall>k<2048. cluster_of (blocks d') k = cluster_of (blocks (dev s)) k)"
proof -
  let ?D = "cluster_of (blocks (dev s))"
  let ?t = "parent_table ?D r"
  from open_parent_valid [OF v ok] obtain d1 where
    o: "open_parent ops (parent_cluster_number r) s = Some (True, s\<lparr>dir_table_buf := ?t, dev := d1\<rparr>)"
    and d1: "valid d1" "\<forall>k<2048. cluster_of (blocks d1) k = ?D k" by blast
  have p: "\<not> parent_cluster_number r < 2" using ok by (auto simp: parent_ok_def)
  let ?s = "s\<lparr>dir_table_buf := ?t, dev := d1\<rparr>"
  from read_chain_path [of ?s "entry_cluster (?t ! i)" cs "buf r"] path d1(1) obtain d2 where
    run: "read_chain ops (buf r) (entry_cluster (?t ! i)) ?s
      = Some (?s\<lparr>mem := mem_write (mem s) (buf r) (chain_bytes (cluster_of (blocks d1)) cs), dev := d2\<rparr>)"
    and d2: "valid d2" "\<forall>k<2048. cluster_of (blocks d2) k = cluster_of (blocks d1) k" by auto
  have "chain_bytes (cluster_of (blocks d1)) cs = chain_bytes ?D cs"
    using d1(2) fat_path_range [OF path] unfolding chain_bytes_def CLUSTER_MAP_SIZE_def
    by (intro arg_cong [where f = concat] map_cong) force+
  with o p i code run have "read_fat32 ops r s = Some (0, s\<lparr>dir_table_buf := ?t,
      mem := mem_write (mem s) (buf r) (chain_bytes ?D cs), dev := d2\<rparr>)"
    by (auto simp: read_fat32_def read_code_def req_identifier_def split: if_splits)
  with d1 d2 show ?thesis by auto
qed

text \<open>When the chain of the file does not reach the end mark, \<open>read\<close> does not return.\<close>

lemma read_hangs:
  assumes v: "valid (dev s)" and ok: "parent_ok (fat_table s) (cluster_of (blocks (dev s))) (parent_cluster_number r)"
    and i: "find_entry (req_identifier r) (parent_table (cluster_of (blocks (dev s))) r) = Some i"
    and code: "read_code r (parent_table (cluster_of (blocks (dev s))) r) = 0"
    and path: "\<nexists>cs. fat_path (fat_table s) (entry_cluster (parent_table (cluster_of (blocks (dev s))) r ! i)) cs"
  shows "read_fat32 ops r s = None"
proof -
  let ?t = "parent_table (cluster_of (blocks (dev s))) r"
  from open_parent_valid [OF v ok] obtain d1 where
    o: "open_parent ops (parent_cluster_number r) s = Some (True, s\<lparr>dir_table_buf := ?t, dev := d1\<rparr>)" by blast
  have p: "\<not> parent_cluster_number r < 2" using ok by (auto simp: parent_ok_def)
  let ?s = "s\<lparr>dir_table_buf := ?t, dev := d1\<rparr>"
  have "read_chain ops (buf r) (entry_cluster (?t ! i)) ?s = None"
  proof (cases "read_chain ops (buf r) (entry_cluster (?t ! i)) ?s")
    case (Some s')
    from read_chain_returns_path [OF Some] path show ?thesis by simp
  qed
  with o p i code show ?thesis by (auto simp: read_fat32_def read_code_def req_identifier_def split: if_splits)
qed

lemma read_directory_run:
  assumes v: "valid (dev s)" and ok: "parent_ok (fat_table s) (cluster_of (blocks (dev s))) (parent_cluster_number r)"
    and size: "buffer_size r = of_nat CLUSTER_SIZE"
  shows "read_directory_code r (parent_table (cluster_of (blocks (dev s))) r) \<noteq> 0 \<longrightarrow>
      (\<exists>d'. read_directory ops r s = Some (read_directory_code r (parent_table (cluster_of (blocks (dev s))) r),
        s\<lparr>dir_table_buf := parent_table (cluster_of (blocks (dev s))) r, dev := d'\<rparr>) \<and> valid d'
        \<and> (\<forall>k<2048. cluster_of (blocks d') k = cluster_of (blocks (dev s)) k))"
    and "find_entry (req_name r @ [0, 0, 0]) (parent_table (cluster_of (blocks (dev s))) r) = Some i \<longrightarrow>
      read_directory_code r (parent_table (cluster_of (blocks (dev s))) r) = 0 \<longrightarrow>
      unat (entry_cluster (parent_table (cluster_of (blocks (dev s))) r ! i)) < 2048 \<longrightarrow>
      (\<exists>d'. read_directory ops r s = Some (0, s\<lparr>dir_table_buf := parent_table (cluster_of (blocks (dev s))) r,
          mem := mem_write (mem s) (buf r) (cluster_of (blocks (dev s))
            (unat (entry_cluster (parent_table (cluster_of (blocks (dev s))) r ! i)))), dev := d'\<rparr>) \<and> valid d'
        \<and> (\<forall>k<2048. cluster_of (blocks d') k = cluster_of (blocks (dev s)) k))"
proof -
  let ?D = "cluster_of (blocks (dev s))"
  let ?t = "parent_table ?D r"
  from open_parent_valid [OF v ok] obtain d1 where
    o: "open_parent ops (parent_cluster_number r) s = Some (True, s\<lparr>dir_table_buf := ?t, dev := d1\<rparr>)"
    and d1: "valid d1" "\<forall>k<2048. cluster_of (blocks d1) k = ?D k" by blast
  have p: "\<not> parent_cluster_number r < 2" using ok by (auto simp: parent_ok_def)
  show "read_directory_code r ?t \<noteq> 0 \<longrightarrow>
      (\<exists>d'. read_directory ops r s = Some (read_directory_code r ?t, s\<lparr>dir_table_buf := ?t, dev := d'\<rparr>) \<and> valid d'
        \<and> (\<forall>k<2048. cluster_of (blocks d') k = ?D k))"
    using o p size d1 by (auto simp: read_directory_def read_directory_code_def split: option.splits)
  show "find_entry (req_name r @ [0, 0, 0]) ?t = Some i \<longrightarrow> read_directory_code r ?t = 0 \<longrightarrow>
      unat (entry_cluster (?t ! i)) < 2048 \<longrightarrow>
      (\<exists>d'. read_directory ops r s = Some (0, s\<lparr>dir_table_buf := ?t,
          mem := mem_write (mem s) (buf r) (?D (unat (entry_cluster (?t ! i)))), dev := d'\<rparr>) \<and> valid d'
        \<and> (\<forall>k<2048. cluster_of (blocks d') k = ?D k))"
  proof (intro impI)
    assume f: "find_entry (req_name r @ [0, 0, 0]) ?t = Some i" "read_directory_code r ?t = 0"
      and c: "unat (entry_cluster (?t ! i)) < 2048"
    from read_clusters_one [OF d1(1) c] obtain d2 where
      "read_clusters ops (entry_cluster (?t ! i)) 1 d1 = Some (cluster_of (blocks d1) (unat (entry_cluster (?t ! i))), d2)"
      "valid d2" "\<forall>k<2048. cluster_of (blocks d2) k = cluster_of (blocks d1) k" by blast
    with f o p size d1 c show "\<exists>d'. read_directory ops r s = Some (0, s\<lparr>dir_table_buf := ?t,
          mem := mem_write (mem s) (buf r) (?D (unat (entry_cluster (?t ! i)))), dev := d'\<rparr>) \<and> valid d'
        \<and> (\<forall>k<2048. cluster_of (blocks d') k = ?D k)"
      by (auto simp: read_directory_def read_directory_code_def split: if_splits)
  qed
qed

end

end
