(* ===== verification/Fat_Delete.thy ===== *)
theory Fat_Delete imports Fat_Read begin

text \<open>
  The branches of \<open>delete\<close> on any block device: the return code, no effect on the storage when it is
  not 0, and the table, FAT and clusters after a successful deletion.
\<close>

definition dir_empty :: "dir_table \<Rightarrow> bool" where
  "dir_empty t \<longleftrightarrow> scan (\<lambda>i. user_attribute (t ! i) = UATTR_NOT_EMPTY) 2 DIR_ENTRIES = None"

definition delete_code :: "FAT32DriverRequest \<Rightarrow> (nat \<Rightarrow> u8 list) \<Rightarrow> dir_table \<Rightarrow> int" where
  "delete_code r D t = (case find_entry (req_identifier r) t of
     None \<Rightarrow> 1
   | Some i \<Rightarrow> if attribute (t ! i) = ATTR_SUBDIRECTORY \<and> \<not> dir_empty (decode_table (D (unat (entry_cluster (t ! i)))))
               then 2 else 0)"

definition deleted_table :: "nat \<Rightarrow> dir_table \<Rightarrow> dir_table" where
  "deleted_table i t = t[i := (t ! i)\<lparr>user_attribute := 0\<rparr>]"

definition deleted_disk :: "FAT32DriverRequest \<Rightarrow> fat_map \<Rightarrow> dir_table \<Rightarrow> (nat \<Rightarrow> u8 list) \<Rightarrow> nat \<Rightarrow> u8 list" where
  "deleted_disk r fat t D = D(1 := encode_fat fat, unat (parent_cluster_number r) := encode_table t)"

lemma table_ok_deleted: "table_ok t \<Longrightarrow> i < DIR_ENTRIES \<Longrightarrow> table_ok (deleted_table i t)"
  unfolding deleted_table_def by (rule table_ok_update) (auto simp: table_ok_def entry_ok_def)

context block_device
begin

lemma delete_bad_parent:
  assumes "valid (dev s)" and "unat (parent_cluster_number r) < CLUSTER_MAP_SIZE"
    and "\<not> parent_ok (fat_table s) (cluster_of (blocks (dev s))) (parent_cluster_number r)"
  shows "\<exists>s'. delete_fat32 ops r s = Some (-1, s') \<and> valid (dev s') \<and> fat_table s' = fat_table s \<and> mem s' = mem s
    \<and> (\<forall>k<2048. cluster_of (blocks (dev s')) k = cluster_of (blocks (dev s)) k)"
proof (cases "parent_cluster_number r < 2")
  case True
  with assms(1) show ?thesis by (auto simp: delete_fat32_def)
next
  case False
  then have "2 \<le> parent_cluster_number r" by simp
  from open_parent_invalid [OF assms(1) this assms(2,3)] False show ?thesis by (auto simp: delete_fat32_def)
qed

lemma delete_not_found:
  assumes "valid (dev s)" and ok: "parent_ok (fat_table s) (cluster_of (blocks (dev s))) (parent_cluster_number r)"
    and none: "find_entry (req_identifier r) (parent_table (cluster_of (blocks (dev s))) r) = None"
  shows "\<exists>d'. delete_fat32 ops r s = Some (1,
        s\<lparr>dir_table_buf := parent_table (cluster_of (blocks (dev s))) r, dev := d'\<rparr>) \<and> valid d'
    \<and> (\<forall>k<2048. cluster_of (blocks d') k = cluster_of (blocks (dev s)) k)"
proof -
  let ?t = "parent_table (cluster_of (blocks (dev s))) r"
  from open_parent_valid [OF assms(1,2)] obtain d' where
    o: "open_parent ops (parent_cluster_number r) s = Some (True, s\<lparr>dir_table_buf := ?t, dev := d'\<rparr>)"
    and d': "valid d'" "\<forall>k<2048. cluster_of (blocks d') k = cluster_of (blocks (dev s)) k" by blast
  have p: "\<not> parent_cluster_number r < 2" using ok by (auto simp: parent_ok_def)
  have "delete_fat32 ops r s = Some (1, s\<lparr>dir_table_buf := ?t, dev := d'\<rparr>)"
    using o p none by (simp add: delete_fat32_def req_identifier_def)
  with d' show ?thesis by blast
qed

text \<open>The emptiness check of a directory entry: it loads the subdirectory's table into the buffer.\<close>

lemma delete_occupied:
  assumes v: "valid (dev s)" and ok: "parent_ok (fat_table s) (cluster_of (blocks (dev s))) (parent_cluster_number r)"
    and i: "find_entry (req_identifier r) (parent_table (cluster_of (blocks (dev s))) r) = Some i"
    and dir: "attribute (parent_table (cluster_of (blocks (dev s))) r ! i) = ATTR_SUBDIRECTORY"
    and c: "unat (entry_cluster (parent_table (cluster_of (blocks (dev s))) r ! i)) < 2048"
    and occ: "\<not> dir_empty (decode_table (cluster_of (blocks (dev s)) (unat (entry_cluster (parent_table (cluster_of (blocks (dev s))) r ! i)))))"
  shows "\<exists>s'. delete_fat32 ops r s = Some (2, s') \<and> valid (dev s') \<and> fat_table s' = fat_table s \<and> mem s' = mem s
    \<and> (\<forall>k<2048. cluster_of (blocks (dev s')) k = cluster_of (blocks (dev s)) k)"
proof -
  let ?D = "cluster_of (blocks (dev s))"
  let ?t = "parent_table ?D r"
  let ?c = "entry_cluster (?t ! i)"
  from open_parent_valid [OF v ok] obtain d1 where
    o: "open_parent ops (parent_cluster_number r) s = Some (True, s\<lparr>dir_table_buf := ?t, dev := d1\<rparr>)"
    and d1: "valid d1" "\<forall>k<2048. cluster_of (blocks d1) k = ?D k" by blast
  from load_directory_table_ok [of "s\<lparr>dir_table_buf := ?t, dev := d1\<rparr>" ?c] c d1 obtain d2 where
    l: "load_directory_table ops ?c (s\<lparr>dir_table_buf := ?t, dev := d1\<rparr>)
      = Some (s\<lparr>dir_table_buf := decode_table (?D (unat ?c)), dev := d2\<rparr>)"
    and d2: "valid d2" "\<forall>k<2048. cluster_of (blocks d2) k = ?D k" by auto
  have p: "\<not> parent_cluster_number r < 2" using ok by (auto simp: parent_ok_def)
  have "delete_fat32 ops r s = Some (2, s\<lparr>dir_table_buf := decode_table (?D (unat ?c)), dev := d2\<rparr>)"
    using o p i l dir occ by (simp add: delete_fat32_def directory_occupied_def req_identifier_def dir_empty_def)
  with d2 show ?thesis by auto
qed

lemma delete_succeeds:
  assumes v: "valid (dev s)" and ok: "parent_ok (fat_table s) (cluster_of (blocks (dev s))) (parent_cluster_number r)"
    and len: "length (fat_table s) = CLUSTER_MAP_SIZE"
    and i: "find_entry (req_identifier r) (parent_table (cluster_of (blocks (dev s))) r) = Some i"
    and code: "delete_code r (cluster_of (blocks (dev s))) (parent_table (cluster_of (blocks (dev s))) r) = 0"
    and path: "fat_path (fat_table s) (entry_cluster (parent_table (cluster_of (blocks (dev s))) r ! i)) cs"
  shows "\<exists>d'. delete_fat32 ops r s = Some (0,
        s\<lparr>dir_table_buf := deleted_table i (parent_table (cluster_of (blocks (dev s))) r),
          fat_table := clear_clusters (fat_table s) cs, dev := d'\<rparr>) \<and> valid d'
    \<and> (\<forall>k<2048. cluster_of (blocks d') k = deleted_disk r (clear_clusters (fat_table s) cs)
          (deleted_table i (parent_table (cluster_of (blocks (dev s))) r)) (cluster_of (blocks (dev s))) k)"
proof -
  let ?D = "cluster_of (blocks (dev s))" and ?p = "parent_cluster_number r"
  let ?t = "parent_table ?D r"
  let ?c = "entry_cluster (?t ! i)" and ?A' = "clear_clusters (fat_table s) cs" and ?t' = "deleted_table i ?t"
  have p: "\<not> ?p < 2" using ok by (auto simp: parent_ok_def)
  have pl: "2 \<le> unat ?p" "unat ?p < 2048" using parent_unat [OF ok] by simp_all
  have c: "unat ?c < CLUSTER_MAP_SIZE" using fat_path_range [OF path] fat_path_hd [OF path] by auto
  then have cl: "unat ?c < 2048" by (simp add: CLUSTER_MAP_SIZE_def)
  from open_parent_valid [OF v ok] obtain d1 where
    o: "open_parent ops ?p s = Some (True, s\<lparr>dir_table_buf := ?t, dev := d1\<rparr>)"
    and d1: "valid d1" "\<forall>k<2048. cluster_of (blocks d1) k = ?D k" by blast
  \<comment> \<open>the emptiness check, which only a directory makes\<close>
  have "\<exists>d2 t2. directory_occupied ops i (s\<lparr>dir_table_buf := ?t, dev := d1\<rparr>)
      = Some (False, s\<lparr>dir_table_buf := t2, dev := d2\<rparr>) \<and> valid d2 \<and> (\<forall>k<2048. cluster_of (blocks d2) k = ?D k)"
  proof (cases "attribute (?t ! i) = ATTR_SUBDIRECTORY")
    case True
    from load_directory_table_ok [of "s\<lparr>dir_table_buf := ?t, dev := d1\<rparr>" ?c] cl d1 obtain d2 where
      "load_directory_table ops ?c (s\<lparr>dir_table_buf := ?t, dev := d1\<rparr>)
        = Some (s\<lparr>dir_table_buf := decode_table (?D (unat ?c)), dev := d2\<rparr>)"
      "valid d2" "\<forall>k<2048. cluster_of (blocks d2) k = ?D k" by auto
    with True code i show ?thesis by (auto simp: directory_occupied_def delete_code_def dir_empty_def split: if_splits)
  next
    case False
    with d1 show ?thesis by (auto simp: directory_occupied_def)
  qed
  then obtain d2 t2 where check: "directory_occupied ops i (s\<lparr>dir_table_buf := ?t, dev := d1\<rparr>)
      = Some (False, s\<lparr>dir_table_buf := t2, dev := d2\<rparr>)"
    and d2: "valid d2" "\<forall>k<2048. cluster_of (blocks d2) k = ?D k" by blast
  from load_directory_table_ok [of "s\<lparr>dir_table_buf := t2, dev := d2\<rparr>" ?p] pl d2 obtain d3 where
    reload: "load_directory_table ops ?p (s\<lparr>dir_table_buf := t2, dev := d2\<rparr>) = Some (s\<lparr>dir_table_buf := ?t, dev := d3\<rparr>)"
    and d3: "valid d3" "\<forall>k<2048. cluster_of (blocks d3) k = ?D k" by (auto simp: parent_table_def)
  have t_ok: "table_ok ?t" using v pl(2) by (rule parent_table_ok)
  have il: "i < DIR_ENTRIES" using find_entry_range [OF i] by simp
  have lf: "length (encode_fat ?A') = CLUSTER_SIZE" by (rule length_encode_fat) (simp add: len)
  have lt: "length (encode_table ?t') = CLUSTER_SIZE"
    by (rule length_encode_table) (rule table_ok_deleted [OF t_ok il])
  have "unat FAT_CLUSTER_NUMBER < 2048" by (simp add: FAT_CLUSTER_NUMBER_def)
  from write_clusters_one [OF d3(1) this lf] obtain d4 where
    w4: "write_clusters ops (encode_fat ?A') FAT_CLUSTER_NUMBER 1 d3 = Some d4" and d4: "valid d4"
      "\<forall>k<2048. cluster_of (blocks d4) k = (if k = unat FAT_CLUSTER_NUMBER then encode_fat ?A' else cluster_of (blocks d3) k)"
    by blast
  from write_clusters_one [OF d4(1) pl(2) lt] obtain d5 where
    w5: "write_clusters ops (encode_table ?t') ?p 1 d4 = Some d5" and d5: "valid d5"
      "\<forall>k<2048. cluster_of (blocks d5) k = (if k = unat ?p then encode_table ?t' else cluster_of (blocks d4) k)"
    by blast
  have at: "fat_at (fat_table s) ?c = Some (fat_table s ! unat ?c)" using c by (simp add: fat_at_def)
  note free = free_chain_path [OF path]
  have "delete_fat32 ops r s = Some (0, s\<lparr>dir_table_buf := ?t', fat_table := ?A', dev := d5\<rparr>)"
    using p o i check reload at free w4 w5
    by (simp add: delete_fat32_def req_identifier_def Let_def deleted_table_def)
  moreover have "\<forall>k<2048. cluster_of (blocks d5) k = deleted_disk r ?A' ?t' ?D k"
    using d5(2) d4(2) d3(2) by (simp add: deleted_disk_def FAT_CLUSTER_NUMBER_def)
  ultimately show ?thesis using d5(1) by blast
qed

end

end
