(* ===== verification/Fat_Init.thy ===== *)
theory Fat_Init imports Fat_Delete begin

text \<open>
  Formatting and initialisation on any block device: the boot-sector test, what \<open>create_fat32\<close> puts
  on the storage, and what \<open>initialize_filesystem_fat32\<close> caches. Also \<open>init_directory_table\<close>.
\<close>

lemma length_ascii [simp, len_simps]: "length (ascii s) = length s"
  by (simp add: ascii_def)

lemma length_fs_signature [simp, len_simps]: "length fs_signature = 512"
  by (simp add: fs_signature_def)

lemma length_fresh_fat [simp, len_simps]: "length fresh_fat = CLUSTER_MAP_SIZE"
  by (simp add: fresh_fat_def CLUSTER_MAP_SIZE_def)

lemma zero_entry_ok: "entry_ok zero_entry"
  by (simp add: entry_ok_def zero_entry_def)

lemma dir_entry_for_ok: "length s \<le> 8 \<Longrightarrow> entry_ok (dir_entry_for s)"
  using zero_entry_ok by (simp add: entry_ok_def dir_entry_for_def)

lemma root_directory_table_ok: "table_ok root_directory_table"
  by (auto simp: table_ok_def root_directory_table_def DIR_ENTRIES_def zero_entry_ok dir_entry_for_ok)

lemma memcmp_bytes_512: "length bs = 512 \<Longrightarrow> memcmp_bytes bs fs_signature 512 \<noteq> 0 \<longleftrightarrow> bs \<noteq> fs_signature"
  by (simp add: memcmp_bytes_eq_0)

text \<open>
  \<open>init_directory_table\<close> builds a table whose entry 0 is the directory itself and entry 1 its
  parent, whose cluster number can be read back, and whose other 62 slots are empty.
\<close>

theorem init_directory_table_correct:
  assumes "length t = DIR_ENTRIES" and "length nm = 8"
  shows "table_ok (init_directory_table t nm p)
    \<and> name (init_directory_table t nm p ! 0) = nm
    \<and> attribute (init_directory_table t nm p ! 0) = ATTR_SUBDIRECTORY
    \<and> entry_cluster (init_directory_table t nm p ! 0) = 0
    \<and> attribute (init_directory_table t nm p ! 1) = ATTR_SUBDIRECTORY
    \<and> entry_cluster (init_directory_table t nm p ! 1) = p
    \<and> dir_empty (init_directory_table t nm p)"
proof -
  have "fold (\<lambda>i t. t[i := zero_entry]) [0..<n] t = replicate n zero_entry @ drop n t" if "n \<le> length t" for n
    using that
  proof (induction n)
    case (Suc n)
    then have "fold (\<lambda>i t. t[i := zero_entry]) [0..<Suc n] t = (replicate n zero_entry @ drop n t)[n := zero_entry]" by simp
    also have "\<dots> = replicate n zero_entry @ zero_entry # drop (Suc n) t"
      using Suc.prems by (simp add: list_update_append Cons_nth_drop_Suc [symmetric])
    finally show ?case by (simp add: replicate_append_same [symmetric] del: replicate_append_same)
  qed simp
  then have z: "fold (\<lambda>i t. t[i := zero_entry]) [0..<DIR_ENTRIES] t = replicate DIR_ENTRIES zero_entry"
    using assms(1) by simp
  have eq: "init_directory_table t nm p = (replicate DIR_ENTRIES zero_entry)
      [0 := zero_entry\<lparr>name := nm, attribute := ATTR_SUBDIRECTORY, user_attribute := UATTR_NOT_EMPTY\<rparr>,
       1 := zero_entry\<lparr>name := ascii ''..'' @ replicate 6 0, attribute := ATTR_SUBDIRECTORY,
              user_attribute := UATTR_NOT_EMPTY, cluster_high := ucast (drop_bit 16 p), cluster_low := ucast p\<rparr>]"
    using assms(2) unfolding init_directory_table_def z Let_def
    by (simp add: DIR_ENTRIES_def) (simp add: zero_entry_def eval_nat_numeral)
  have "table_ok (init_directory_table t nm p)"
    unfolding eq using assms(2)
    by (intro table_ok_update) (auto simp: table_ok_def entry_ok_def zero_entry_def DIR_ENTRIES_def)
  moreover have "entry_cluster (zero_entry\<lparr>name := ascii ''..'' @ replicate 6 0, attribute := ATTR_SUBDIRECTORY,
       user_attribute := UATTR_NOT_EMPTY, cluster_high := ucast (drop_bit 16 p), cluster_low := ucast p\<rparr>) = p"
    by (rule bit_word_eqI) (auto simp: entry_cluster_def bit_simps)
  moreover have "entry_cluster (zero_entry\<lparr>name := nm, attribute := ATTR_SUBDIRECTORY, user_attribute := UATTR_NOT_EMPTY\<rparr>) = 0"
    by (simp add: entry_cluster_def zero_entry_def)
  moreover have "dir_empty (init_directory_table t nm p)"
    unfolding dir_empty_def scan_None_iff eq by (auto simp: zero_entry_def UATTR_NOT_EMPTY_def DIR_ENTRIES_def)
  ultimately show ?thesis by (simp add: eq DIR_ENTRIES_def)
qed

theorem init_directory_table_correct_witness:
  "entry_cluster (init_directory_table (replicate 64 zero_entry) (ascii ''folder'' @ [0, 0]) 0x12345 ! 1) = 0x12345"
  using init_directory_table_correct [of "replicate 64 zero_entry" "ascii ''folder'' @ [0, 0]" "0x12345"]
  by (simp add: DIR_ENTRIES_def)

context block_device
begin

lemma block_0_of_cluster: "valid d \<Longrightarrow> blocks d 0 = take 512 (cluster_of (blocks d) 0)"
  using block_length [of d 0] by (simp add: cluster_of_def upt_four [of 0, simplified] DISK_BLOCKS_def)

lemma is_empty_storage_ok:
  assumes "valid d"
  shows "\<exists>d'. is_empty_storage ops d = Some (blocks d 0 \<noteq> fs_signature, d') \<and> valid d'
    \<and> (\<forall>k<2048. cluster_of (blocks d') k = cluster_of (blocks d) k)"
proof -
  have "unat BOOT_SECTOR + unat (1 :: u8) \<le> DISK_BLOCKS" by (simp add: BOOT_SECTOR_def DISK_BLOCKS_def)
  from read_blocks_law [OF assms one_neq_zero this] obtain d' where
    d': "read_blocks_op ops BOOT_SECTOR 1 d = Some (blocks d 0, d')" "valid d'" "\<forall>i<DISK_BLOCKS. blocks d' i = blocks d i"
    by (auto simp: BOOT_SECTOR_def)
  moreover have "length (blocks d 0) = 512" using assms by (simp add: block_length DISK_BLOCKS_def)
  moreover have "\<forall>k<2048. cluster_of (blocks d') k = cluster_of (blocks d) k"
    using d'(3) by (auto intro!: cluster_of_cong simp: DISK_BLOCKS_def)
  ultimately show ?thesis by (auto simp: is_empty_storage_def memcmp_bytes_512)
qed

lemma write_boot_sector_ok:
  assumes "valid d"
  shows "\<exists>d'. write_blocks_op ops fs_signature BOOT_SECTOR 1 d = Some d' \<and> valid d' \<and> blocks d' 0 = fs_signature
    \<and> (\<forall>k<2048. k \<noteq> 0 \<longrightarrow> cluster_of (blocks d') k = cluster_of (blocks d) k)"
proof -
  have "unat BOOT_SECTOR + unat (1 :: u8) \<le> DISK_BLOCKS" "length fs_signature = 512 * unat (1 :: u8)"
    by (simp_all add: BOOT_SECTOR_def DISK_BLOCKS_def)
  from write_blocks_law [OF assms one_neq_zero this] obtain d' where
    d': "write_blocks_op ops fs_signature BOOT_SECTOR 1 d = Some d'" "valid d'"
    "\<forall>i<DISK_BLOCKS. blocks d' i = (if i < 1 then take 512 (drop (512 * i) fs_signature) else blocks d i)"
    by (auto simp: BOOT_SECTOR_def)
  have "cluster_of (blocks d') k = cluster_of (blocks d) k" if "k < 2048" "k \<noteq> 0" for k
    using d'(3) that by (intro cluster_of_cong) (simp add: DISK_BLOCKS_def)
  moreover have "blocks d' 0 = fs_signature" using d'(3) by (simp add: DISK_BLOCKS_def)
  ultimately show ?thesis using d' by blast
qed

lemma create_fat32_ok:
  assumes "valid d"
  shows "\<exists>d'. create_fat32 ops d = Some d' \<and> valid d' \<and> blocks d' 0 = fs_signature
    \<and> cluster_of (blocks d') 1 = encode_fat fresh_fat \<and> cluster_of (blocks d') 2 = encode_table root_directory_table
    \<and> (\<forall>k<2048. 3 \<le> k \<longrightarrow> cluster_of (blocks d') k = cluster_of (blocks d) k)"
proof -
  from write_boot_sector_ok [OF assms] obtain d1 where
    w1: "write_blocks_op ops fs_signature BOOT_SECTOR 1 d = Some d1" and d1: "valid d1" "blocks d1 0 = fs_signature"
      "\<forall>k<2048. k \<noteq> 0 \<longrightarrow> cluster_of (blocks d1) k = cluster_of (blocks d) k" by blast
  have lens: "length (encode_fat fresh_fat) = CLUSTER_SIZE" "length (encode_table root_directory_table) = CLUSTER_SIZE"
    by (simp_all add: length_encode_fat length_encode_table root_directory_table_ok)
  have nums: "unat FAT_CLUSTER_NUMBER < 2048" "unat ROOT_CLUSTER_NUMBER < 2048"
    by (simp_all add: FAT_CLUSTER_NUMBER_def ROOT_CLUSTER_NUMBER_def)
  from write_clusters_one [OF d1(1) nums(1) lens(1)] obtain d2 where
    w2: "write_clusters ops (encode_fat fresh_fat) FAT_CLUSTER_NUMBER 1 d1 = Some d2" and d2: "valid d2"
      "\<forall>k<2048. cluster_of (blocks d2) k = (if k = unat FAT_CLUSTER_NUMBER then encode_fat fresh_fat else cluster_of (blocks d1) k)"
    by blast
  from write_clusters_one [OF d2(1) nums(2) lens(2)] obtain d3 where
    w3: "write_clusters ops (encode_table root_directory_table) ROOT_CLUSTER_NUMBER 1 d2 = Some d3" and d3: "valid d3"
      "\<forall>k<2048. cluster_of (blocks d3) k = (if k = unat ROOT_CLUSTER_NUMBER then encode_table root_directory_table else cluster_of (blocks d2) k)"
    by blast
  have "cluster_of (blocks d3) 0 = cluster_of (blocks d1) 0"
    using d2(2) d3(2) by (simp add: FAT_CLUSTER_NUMBER_def ROOT_CLUSTER_NUMBER_def)
  then have "blocks d3 0 = fs_signature" using block_0_of_cluster d1(1,2) d3(1) by metis
  moreover have "create_fat32 ops d = Some d3" using w1 w2 w3 by (simp add: create_fat32_def)
  ultimately show ?thesis using d1(3) d2(2) d3
    by (auto simp: FAT_CLUSTER_NUMBER_def ROOT_CLUSTER_NUMBER_def)
qed

lemma initialize_ok:
  assumes "valid (dev s)"
  shows "\<exists>s'. initialize_filesystem_fat32 ops s = Some s' \<and> valid (dev s') \<and> mem s' = mem s
    \<and> blocks (dev s') 0 = fs_signature
    \<and> fat_table s' = decode_fat (cluster_of (blocks (dev s')) 1)
    \<and> dir_table_buf s' = decode_table (cluster_of (blocks (dev s')) 2)
    \<and> (if blocks (dev s) 0 = fs_signature
       then \<forall>k<2048. cluster_of (blocks (dev s')) k = cluster_of (blocks (dev s)) k
       else fat_table s' = fresh_fat \<and> dir_table_buf s' = root_directory_table
         \<and> cluster_of (blocks (dev s')) 1 = encode_fat fresh_fat
         \<and> cluster_of (blocks (dev s')) 2 = encode_table root_directory_table
         \<and> (\<forall>k<2048. 3 \<le> k \<longrightarrow> cluster_of (blocks (dev s')) k = cluster_of (blocks (dev s)) k))"
proof -
  let ?D = "\<lambda>d. cluster_of (blocks d)"
  from is_empty_storage_ok [OF assms] obtain d0 where
    e: "is_empty_storage ops (dev s) = Some (blocks (dev s) 0 \<noteq> fs_signature, d0)"
    and d0: "valid d0" "\<forall>k<2048. ?D d0 k = ?D (dev s) k" by blast
  have b0: "blocks d0 0 = blocks (dev s) 0" using block_0_of_cluster d0 assms by simp
  have "\<exists>d1. (if blocks (dev s) 0 \<noteq> fs_signature then create_fat32 ops d0 else Some d0) = Some d1 \<and> valid d1
      \<and> blocks d1 0 = fs_signature
      \<and> (if blocks (dev s) 0 = fs_signature then \<forall>k<2048. ?D d1 k = ?D (dev s) k
         else ?D d1 1 = encode_fat fresh_fat \<and> ?D d1 2 = encode_table root_directory_table
           \<and> (\<forall>k<2048. 3 \<le> k \<longrightarrow> ?D d1 k = ?D (dev s) k))"
    using create_fat32_ok [OF d0(1)] d0 b0 by auto
  then obtain d1 where c: "(if blocks (dev s) 0 \<noteq> fs_signature then create_fat32 ops d0 else Some d0) = Some d1"
    and d1: "valid d1" "blocks d1 0 = fs_signature"
      "if blocks (dev s) 0 = fs_signature then \<forall>k<2048. ?D d1 k = ?D (dev s) k
         else ?D d1 1 = encode_fat fresh_fat \<and> ?D d1 2 = encode_table root_directory_table
           \<and> (\<forall>k<2048. 3 \<le> k \<longrightarrow> ?D d1 k = ?D (dev s) k)" by blast
  have nums: "unat FAT_CLUSTER_NUMBER < 2048" "unat ROOT_CLUSTER_NUMBER < 2048"
    "unat FAT_CLUSTER_NUMBER = 1" "unat ROOT_CLUSTER_NUMBER = 2"
    by (simp_all add: FAT_CLUSTER_NUMBER_def ROOT_CLUSTER_NUMBER_def)
  from read_clusters_one [OF d1(1) nums(1)] obtain d2 where
    r2: "read_clusters ops FAT_CLUSTER_NUMBER 1 d1 = Some (?D d1 1, d2)" and d2: "valid d2" "\<forall>k<2048. ?D d2 k = ?D d1 k"
    unfolding nums by blast
  from load_directory_table_ok [of "s\<lparr>fat_table := decode_fat (?D d1 1), dev := d2\<rparr>" ROOT_CLUSTER_NUMBER] d2 nums obtain d3 where
    r3: "load_directory_table ops ROOT_CLUSTER_NUMBER (s\<lparr>fat_table := decode_fat (?D d1 1), dev := d2\<rparr>)
      = Some (s\<lparr>dir_table_buf := decode_table (?D d1 2), fat_table := decode_fat (?D d1 1), dev := d3\<rparr>)"
    and d3: "valid d3" "\<forall>k<2048. ?D d3 k = ?D d1 k" by auto
  have "initialize_filesystem_fat32 ops s
      = Some (s\<lparr>dir_table_buf := decode_table (?D d1 2), fat_table := decode_fat (?D d1 1), dev := d3\<rparr>)"
    using e c r2 r3 by (simp add: initialize_filesystem_fat32_def load_fat_def)
  moreover have "blocks d3 0 = fs_signature" using block_0_of_cluster d3 d1(1,2) by simp
  ultimately show ?thesis using d1(3) d3
    by (auto simp: root_directory_table_ok split: if_splits)
qed

end

end
