(* ===== verification/Fat_Invariant.thy ===== *)
theory Fat_Invariant imports Fat_Chain begin

text \<open>
  The well-formedness invariant of the file allocation table and its preservation by the two table
  updates of the driver: linking a new chain (\<open>write\<close>) and clearing a chain (\<open>delete\<close>).
  A cluster is used when its entry is not empty; the invariant says that every used cluster starts a
  chain of used clusters that ends in the end-of-file marker, and that chains are only shared by
  being one another's suffix.
\<close>

definition used :: "fat_map \<Rightarrow> nat \<Rightarrow> bool" where
  "used fat x \<longleftrightarrow> 2 \<le> x \<and> x < CLUSTER_MAP_SIZE \<and> fat ! x \<noteq> FAT32_FAT_EMPTY_ENTRY"

definition reserved_ok :: "fat_map \<Rightarrow> bool" where
  "reserved_ok fat \<longleftrightarrow> length fat = CLUSTER_MAP_SIZE \<and> fat ! 0 = CLUSTER_0_VALUE \<and> fat ! 1 = CLUSTER_1_VALUE
     \<and> fat ! 2 = FAT32_FAT_END_OF_FILE"

definition links_ok :: "fat_map \<Rightarrow> bool" where
  "links_ok fat \<longleftrightarrow> (\<forall>x. used fat x \<longrightarrow> fat ! x \<noteq> FAT32_FAT_END_OF_FILE \<longrightarrow> 3 \<le> unat (fat ! x) \<and> used fat (unat (fat ! x)))"

definition links_inj :: "fat_map \<Rightarrow> bool" where
  "links_inj fat \<longleftrightarrow> (\<forall>x y. used fat x \<longrightarrow> used fat y \<longrightarrow> fat ! x \<noteq> FAT32_FAT_END_OF_FILE \<longrightarrow> fat ! x = fat ! y \<longrightarrow> x = y)"

definition chains_end :: "fat_map \<Rightarrow> bool" where
  "chains_end fat \<longleftrightarrow> (\<forall>x. used fat x \<longrightarrow> (\<exists>cs. fat_path fat (of_nat x) cs))"

definition fat_wf :: "fat_map \<Rightarrow> bool" where
  "fat_wf fat \<longleftrightarrow> reserved_ok fat \<and> links_ok fat \<and> links_inj fat \<and> chains_end fat"

text \<open>\<open>c\<close> is the first cluster of a chain: used, not the root directory, and no cluster links to it.\<close>

definition chain_head :: "fat_map \<Rightarrow> nat \<Rightarrow> bool" where
  "chain_head fat c \<longleftrightarrow> 3 \<le> c \<and> used fat c \<and> (\<forall>x. used fat x \<longrightarrow> fat ! x \<noteq> of_nat c)"

lemmas wf_defs = fat_wf_def reserved_ok_def links_ok_def links_inj_def chains_end_def

lemma fat_wfD:
  assumes "fat_wf fat"
  shows "length fat = CLUSTER_MAP_SIZE" and "fat ! 2 = FAT32_FAT_END_OF_FILE"
    and "used fat x \<Longrightarrow> fat ! x \<noteq> FAT32_FAT_END_OF_FILE \<Longrightarrow> 3 \<le> unat (fat ! x) \<and> used fat (unat (fat ! x))"
    and "used fat x \<Longrightarrow> used fat y \<Longrightarrow> fat ! x \<noteq> FAT32_FAT_END_OF_FILE \<Longrightarrow> fat ! x = fat ! y \<Longrightarrow> x = y"
    and "used fat x \<Longrightarrow> \<exists>cs. fat_path fat (of_nat x) cs"
  using assms unfolding wf_defs by blast+

lemma unat_of_cluster: "x < CLUSTER_MAP_SIZE \<Longrightarrow> unat (of_nat x :: u32) = x"
  by (rule unat_of_nat_u32) (simp add: CLUSTER_MAP_SIZE_def)

lemma used_not_free: "used fat x \<Longrightarrow> x \<notin> set (free_clusters fat)"
  by (simp add: used_def free_clusters_set)

lemma used_or_free: "2 \<le> x \<Longrightarrow> x < CLUSTER_MAP_SIZE \<Longrightarrow> used fat x \<longleftrightarrow> x \<notin> set (free_clusters fat)"
  by (simp add: used_def free_clusters_set)

text \<open>A chain that starts in a used cluster stays in used clusters.\<close>

lemma path_used: "fat_wf fat \<Longrightarrow> fat_path fat c cs \<Longrightarrow> used fat (unat c) \<Longrightarrow> x \<in> set cs \<Longrightarrow> used fat x"
proof (induction cs arbitrary: c)
  case (Cons y ys)
  show ?case
  proof (cases "ys = []")
    case False
    with Cons.prems have "y = unat c" "fat ! y \<noteq> FAT32_FAT_END_OF_FILE" "fat_path fat (fat ! y) ys" by auto
    with Cons fat_wfD(3) [OF Cons.prems(1), of y] show ?thesis by auto
  qed (use Cons in auto)
qed simp

text \<open>Every cluster of a chain but the first is what an earlier one links to.\<close>

lemma path_member:
  "fat_path fat c cs \<Longrightarrow> x \<in> set cs \<Longrightarrow>
   x = unat c \<or> (\<exists>y\<in>set cs. fat ! y \<noteq> FAT32_FAT_END_OF_FILE \<and> unat (fat ! y) = x)"
proof (induction cs arbitrary: c)
  case (Cons y ys)
  show ?case
  proof (cases "x = y")
    case False
    with Cons.prems have x: "x \<in> set ys" and ys: "fat ! y \<noteq> FAT32_FAT_END_OF_FILE" "fat_path fat (fat ! y) ys"
      by (auto split: if_splits)
    from Cons.IH [OF ys(2) x] ys(1) show ?thesis by auto
  qed (use Cons.prems in simp)
qed simp

text \<open>A chain that starts outside a chain whose head nothing links to never meets it.\<close>

lemma path_disjoint:
  assumes wf: "fat_wf fat" and cs: "fat_path fat c cs" and head: "chain_head fat (unat c)"
  shows "fat_path fat e ds \<Longrightarrow> used fat (unat e) \<Longrightarrow> unat e \<notin> set cs \<Longrightarrow> set ds \<inter> set cs = {}"
proof (induction ds arbitrary: e)
  case (Cons y ys)
  have cs_used: "used fat x" if "x \<in> set cs" for x
    using path_used [OF wf cs _ that] head by (simp add: chain_head_def)
  show ?case
  proof (cases "ys = []")
    case False
    with Cons.prems have y: "y = unat e" "fat ! y \<noteq> FAT32_FAT_END_OF_FILE" "fat_path fat (fat ! y) ys" by auto
    have u: "used fat (unat (fat ! y))" using fat_wfD(3) [OF wf, of y] y Cons.prems by simp
    have "unat (fat ! y) \<notin> set cs"
    proof
      assume "unat (fat ! y) \<in> set cs"
      from path_member [OF cs this] show False
      proof
        assume "unat (fat ! y) = unat c"
        then have "fat ! y = of_nat (unat c)" by (simp add: word_unat_eq_iff)
        with head y Cons.prems(2) show False by (auto simp: chain_head_def)
      next
        assume "\<exists>z\<in>set cs. fat ! z \<noteq> FAT32_FAT_END_OF_FILE \<and> unat (fat ! z) = unat (fat ! y)"
        then obtain z where "z \<in> set cs" "fat ! z \<noteq> FAT32_FAT_END_OF_FILE" "fat ! z = fat ! y"
          by (auto simp: word_unat_eq_iff)
        then have "z = y" using fat_wfD(4) [OF wf, of z y] cs_used y Cons.prems(2) by simp
        with \<open>z \<in> set cs\<close> y(1) Cons.prems(3) show False by simp
      qed
    qed
    with Cons.IH [OF y(3) u] Cons.prems y show ?thesis by auto
  qed (use Cons.prems in auto)
qed simp

section \<open>Formatting\<close>

lemma fresh_fat_nth: "x < CLUSTER_MAP_SIZE \<Longrightarrow> fresh_fat ! x =
   (if x = 0 then CLUSTER_0_VALUE else if x = 1 then CLUSTER_1_VALUE else if x = 2 then FAT32_FAT_END_OF_FILE
    else FAT32_FAT_EMPTY_ENTRY)"
  by (auto simp: fresh_fat_def CLUSTER_MAP_SIZE_def FAT32_FAT_EMPTY_ENTRY_def nth_Cons' nth_append)

lemma used_fresh: "used fresh_fat x \<longleftrightarrow> x = 2"
proof
  assume "used fresh_fat x"
  then show "x = 2" by (auto simp: used_def fresh_fat_nth split: if_splits)
qed (simp add: used_def fresh_fat_nth CLUSTER_MAP_SIZE_def)

lemma fat_wf_fresh: "fat_wf fresh_fat"
proof -
  have "fat_path fresh_fat 2 [2]" by (simp add: fresh_fat_nth CLUSTER_MAP_SIZE_def)
  moreover have "reserved_ok fresh_fat"
    by (simp add: reserved_ok_def fresh_fat_nth CLUSTER_MAP_SIZE_def) (simp add: fresh_fat_def)
  moreover have "chains_end fresh_fat" unfolding chains_end_def used_fresh
    using \<open>fat_path fresh_fat 2 [2]\<close> by (metis of_nat_numeral)
  ultimately show ?thesis
    by (auto simp: wf_defs used_fresh fresh_fat_nth CLUSTER_MAP_SIZE_def)
qed

section \<open>Linking a new chain\<close>

lemma written_chain_free: "x \<in> set (written_chain fat n) \<Longrightarrow> x \<in> set (free_clusters fat)"
  unfolding written_chain_def by (rule in_set_takeD)

lemma linked_entry:
  assumes wf: "fat_wf fat" and n: "0 < n" "n \<le> length (free_clusters fat)"
    and x: "x \<in> set (written_chain fat n)"
  obtains (last_link) "linked_fat fat n ! x = FAT32_FAT_END_OF_FILE"
  | (inner_link) k where "Suc k < (n + 1) div 2" and "x = free_clusters fat ! k"
      and "linked_fat fat n ! x = of_nat (free_clusters fat ! Suc k)"
proof -
  from x obtain k where k: "k < (n + 1) div 2" "x = free_clusters fat ! k"
    using written_chain_set [OF n(2)] by blast
  note step = linked_fat_nth [OF fat_wfD(1) [OF wf] n k(1)]
  show thesis
  proof (cases "Suc k < (n + 1) div 2")
    case True
    with step k show thesis by (intro inner_link) simp_all
  next
    case False
    with step k show thesis by (intro last_link) simp
  qed
qed

lemma free_cluster_ge_3: "fat_wf fat \<Longrightarrow> x \<in> set (free_clusters fat) \<Longrightarrow> 3 \<le> x"
proof -
  assume "fat_wf fat" "x \<in> set (free_clusters fat)"
  then have "2 \<le> x" "x \<noteq> 2" using fat_wfD(2) [of fat] by (auto simp: free_clusters_set)
  then show "3 \<le> x" by simp
qed

text \<open>A cluster is used afterwards when it was used before or is in the new chain.\<close>

lemma used_linked:
  assumes wf: "fat_wf fat" and n: "0 < n" "n \<le> length (free_clusters fat)"
  shows "used (linked_fat fat n) x \<longleftrightarrow> used fat x \<or> x \<in> set (written_chain fat n)"
proof (cases "x \<in> set (written_chain fat n)")
  case True
  then have x: "2 \<le> x" "x < CLUSTER_MAP_SIZE" using written_chain_free free_clusters_set by blast+
  from wf n True have "linked_fat fat n ! x \<noteq> FAT32_FAT_EMPTY_ENTRY"
  proof (cases rule: linked_entry)
    case (inner_link k)
    moreover have "(n + 1) div 2 \<le> length (free_clusters fat)" using n by linarith
    ultimately show ?thesis using free_clusters_nth [of "Suc k" fat] by (simp add: of_nat_cluster_neq)
  qed simp
  with True x show ?thesis by (simp add: used_def)
next
  case False
  then show ?thesis using linked_fat_other [OF False n] by (simp add: used_def)
qed

lemma linked_links_ok:
  assumes wf: "fat_wf fat" and n: "0 < n" "n \<le> length (free_clusters fat)"
  shows "links_ok (linked_fat fat n)"
  unfolding links_ok_def
proof (intro allI impI)
  fix x assume u: "used (linked_fat fat n) x" and ne: "linked_fat fat n ! x \<noteq> FAT32_FAT_END_OF_FILE"
  let ?y = "unat (linked_fat fat n ! x)"
  show "3 \<le> ?y \<and> used (linked_fat fat n) ?y"
  proof (cases "x \<in> set (written_chain fat n)")
    case True
    from wf n True show ?thesis
    proof (cases rule: linked_entry)
      case (inner_link k)
      then have k: "Suc k < length (free_clusters fat)" using n by linarith
      with inner_link have y: "?y = free_clusters fat ! Suc k"
        using free_clusters_nth [of "Suc k" fat] by (simp add: unat_of_cluster)
      have "?y \<in> set (written_chain fat n)" using y inner_link(1) written_chain_set [OF n(2)] by blast
      moreover have "3 \<le> ?y" using free_cluster_ge_3 [OF wf] y k by simp
      ultimately show ?thesis by (simp add: used_linked [OF wf n])
    qed (use ne in simp)
  next
    case False
    then have "used fat x" "linked_fat fat n ! x = fat ! x"
      using u used_linked [OF wf n] linked_fat_other [OF False n] by auto
    with fat_wfD(3) [OF wf, of x] ne show ?thesis by (simp add: used_linked [OF wf n])
  qed
qed

text \<open>Where a link of the new table points: into the new chain from the new chain, elsewhere from elsewhere.\<close>

lemma linked_target:
  assumes wf: "fat_wf fat" and n: "0 < n" "n \<le> length (free_clusters fat)"
    and x: "used (linked_fat fat n) x" and ne: "linked_fat fat n ! x \<noteq> FAT32_FAT_END_OF_FILE"
  shows "unat (linked_fat fat n ! x) \<in> set (written_chain fat n) \<longleftrightarrow> x \<in> set (written_chain fat n)"
proof (cases "x \<in> set (written_chain fat n)")
  case True
  from wf n True show ?thesis
  proof (cases rule: linked_entry)
    case (inner_link k)
    then have "Suc k < length (free_clusters fat)" using n by linarith
    with inner_link have y: "unat (linked_fat fat n ! x) = free_clusters fat ! Suc k"
      using free_clusters_nth [of "Suc k" fat] by (simp add: unat_of_cluster)
    have "free_clusters fat ! Suc k \<in> set (written_chain fat n)"
      using inner_link(1) written_chain_set [OF n(2)] by blast
    with y True show ?thesis by simp
  qed (use ne in simp)
next
  case False
  then have "used fat x" "linked_fat fat n ! x = fat ! x"
    using x used_linked [OF wf n] linked_fat_other [OF False n] by auto
  with fat_wfD(3) [OF wf, of x] ne have "used fat (unat (linked_fat fat n ! x))" by simp
  then have "unat (linked_fat fat n ! x) \<notin> set (written_chain fat n)"
    using used_not_free written_chain_free by blast
  with False show ?thesis by simp
qed

lemma linked_links_inj:
  assumes wf: "fat_wf fat" and n: "0 < n" "n \<le> length (free_clusters fat)"
  shows "links_inj (linked_fat fat n)"
  unfolding links_inj_def
proof (intro allI impI)
  let ?L = "linked_fat fat n" and ?F = "free_clusters fat"
  fix x y assume x: "used ?L x" and y: "used ?L y" and ne: "?L ! x \<noteq> FAT32_FAT_END_OF_FILE" and eq: "?L ! x = ?L ! y"
  have same: "x \<in> set (written_chain fat n) \<longleftrightarrow> y \<in> set (written_chain fat n)"
    using linked_target [OF wf n x ne] linked_target [OF wf n y] ne eq by simp
  show "x = y"
  proof (cases "x \<in> set (written_chain fat n)")
    case True
    with same have xy: "x \<in> set (written_chain fat n)" "y \<in> set (written_chain fat n)" by simp_all
    obtain k where k: "Suc k < (n + 1) div 2" "x = ?F ! k" "?L ! x = of_nat (?F ! Suc k)"
      using linked_entry [OF wf n xy(1)] ne by metis
    obtain j where j: "Suc j < (n + 1) div 2" "y = ?F ! j" "?L ! y = of_nat (?F ! Suc j)"
      using linked_entry [OF wf n xy(2)] ne eq by metis
    have l: "Suc k < length ?F" "Suc j < length ?F" using k(1) j(1) n by linarith+
    have "?F ! Suc k = ?F ! Suc j"
      using k(3) j(3) eq free_clusters_nth [OF l(1)] free_clusters_nth [OF l(2)]
      by (metis unat_of_cluster)
    with l free_clusters_inj [OF l] k(2) j(2) show ?thesis by simp
  next
    case False
    with same x y used_linked [OF wf n] have u: "used fat x" "used fat y" by auto
    have x': "?L ! x = fat ! x" and y': "?L ! y = fat ! y" using False same linked_fat_other [OF _ n] by auto
    show ?thesis
      using u ne [unfolded x'] eq [unfolded x' y'] by (rule fat_wfD(4) [OF wf])
  qed
qed

text \<open>Chains that existed before are untouched.\<close>

lemma linked_path_old:
  assumes wf: "fat_wf fat" and n: "0 < n" "n \<le> length (free_clusters fat)"
    and "used fat (unat c)" and "fat_path fat c cs"
  shows "fat_path (linked_fat fat n) c cs"
  using assms(5)
proof (rule fat_path_cong)
  fix x assume "x \<in> set cs"
  then have "used fat x" using path_used [OF wf assms(5,4)] by blast
  then show "linked_fat fat n ! x = fat ! x"
    using used_not_free written_chain_free linked_fat_other [OF _ n] by blast
qed

theorem fat_wf_linked:
  assumes wf: "fat_wf fat" and n: "0 < n" "n \<le> length (free_clusters fat)"
  shows "fat_wf (linked_fat fat n)"
proof -
  let ?L = "linked_fat fat n"
  have "x \<notin> set (written_chain fat n)" if "x < 3" for x
    using that free_cluster_ge_3 [OF wf] written_chain_free by (meson leD)
  then have "?L ! x = fat ! x" if "x < 3" for x using that linked_fat_other [OF _ n] by blast
  then have r: "reserved_ok ?L" using wf by (simp add: fat_wf_def reserved_ok_def)
  have "\<exists>cs. fat_path ?L (of_nat x) cs" if u: "used ?L x" for x
  proof (cases "x \<in> set (written_chain fat n)")
    case True
    with fat_path_suffix [OF linked_fat_path [OF fat_wfD(1) [OF wf] n]] show ?thesis by blast
  next
    case False
    with u used_linked [OF wf n] have ux: "used fat x" by simp
    then have "unat (of_nat x :: u32) = x" by (simp add: used_def unat_of_cluster)
    with ux fat_wfD(5) [OF wf ux] linked_path_old [OF wf n] show ?thesis by metis
  qed
  with r linked_links_ok [OF assms] linked_links_inj [OF assms] show ?thesis
    by (simp add: fat_wf_def chains_end_def)
qed

text \<open>The new chain has a head of its own.\<close>

lemma linked_chain_head:
  assumes wf: "fat_wf fat" and n: "0 < n" "n \<le> length (free_clusters fat)"
  shows "chain_head (linked_fat fat n) (free_clusters fat ! 0)"
proof -
  let ?L = "linked_fat fat n" and ?F = "free_clusters fat"
  have "0 < (n + 1) div 2" using n(1) by linarith
  then have f0: "?F ! 0 \<in> set (written_chain fat n)" using written_chain_set [OF n(2)] by blast
  have "?L ! x \<noteq> of_nat (?F ! 0)" if u: "used ?L x" for x
  proof
    assume eq: "?L ! x = of_nat (?F ! 0)"
    have l0: "0 < length ?F" using n by linarith
    have ne: "?L ! x \<noteq> FAT32_FAT_END_OF_FILE" using eq free_clusters_nth [OF l0] by (simp add: of_nat_cluster_neq)
    have un: "unat (?L ! x) = ?F ! 0" using eq free_clusters_nth [OF l0] by (simp add: unat_of_cluster)
    with linked_target [OF wf n u ne] f0 have "x \<in> set (written_chain fat n)" by simp
    then obtain k where k: "Suc k < (n + 1) div 2" "?L ! x = of_nat (?F ! Suc k)"
      using linked_entry [OF wf n] ne by metis
    then have l: "Suc k < length ?F" using n by linarith
    from k(2) un free_clusters_nth [OF l] have "?F ! Suc k = ?F ! 0" by (simp add: unat_of_cluster)
    with free_clusters_inj [OF l l0] show False by simp
  qed
  moreover have "3 \<le> ?F ! 0" using f0 free_cluster_ge_3 [OF wf] written_chain_free by blast
  ultimately show ?thesis using f0 by (simp add: chain_head_def used_linked [OF wf n])
qed

section \<open>Clearing a chain\<close>

lemma used_clear:
  "length fat = CLUSTER_MAP_SIZE \<Longrightarrow> used (clear_clusters fat cs) x \<longleftrightarrow> used fat x \<and> x \<notin> set cs"
  unfolding used_def by (cases "x < CLUSTER_MAP_SIZE") (simp_all add: nth_clear_clusters)

lemma chain_ge_3:
  assumes wf: "fat_wf fat" and cs: "fat_path fat c cs" and head: "chain_head fat (unat c)" and x: "x \<in> set cs"
  shows "3 \<le> x"
  using path_member [OF cs x]
proof
  assume "\<exists>y\<in>set cs. fat ! y \<noteq> FAT32_FAT_END_OF_FILE \<and> unat (fat ! y) = x"
  then obtain y where "y \<in> set cs" "fat ! y \<noteq> FAT32_FAT_END_OF_FILE" "unat (fat ! y) = x" by blast
  moreover have "used fat y" using path_used [OF wf cs _ calculation(1)] head by (simp add: chain_head_def)
  ultimately show ?thesis using fat_wfD(3) [OF wf, of y] by simp
qed (use head in \<open>simp add: chain_head_def\<close>)

text \<open>Entries outside the cleared chain, and the chains that start there, stay as they are.\<close>

lemma clear_path_other:
  assumes wf: "fat_wf fat" and cs: "fat_path fat c cs" and head: "chain_head fat (unat c)"
    and e: "used fat (unat e)" "unat e \<notin> set cs" and ds: "fat_path fat e ds"
  shows "fat_path (clear_clusters fat cs) e ds"
  using ds
proof (rule fat_path_cong)
  fix x assume x: "x \<in> set ds"
  then have "x < length fat" using fat_path_range [OF ds] fat_wfD(1) [OF wf] by simp
  moreover have "x \<notin> set cs" using path_disjoint [OF wf cs head ds e] x by blast
  ultimately show "clear_clusters fat cs ! x = fat ! x" by (simp add: nth_clear_clusters)
qed

theorem fat_wf_clear:
  assumes wf: "fat_wf fat" and cs: "fat_path fat c cs" and head: "chain_head fat (unat c)"
  shows "fat_wf (clear_clusters fat cs)"
proof -
  let ?C = "clear_clusters fat cs"
  note len = fat_wfD(1) [OF wf]
  have same: "?C ! x = fat ! x" if "x \<notin> set cs" "x < CLUSTER_MAP_SIZE" for x
    using that by (simp add: nth_clear_clusters len)
  have csu: "used fat x" if "x \<in> set cs" for x
    using path_used [OF wf cs _ that] head by (simp add: chain_head_def)
  have old: "used fat x \<and> x \<notin> set cs \<and> ?C ! x = fat ! x" if "used ?C x" for x
  proof -
    have u: "used fat x" "x \<notin> set cs" using that by (simp_all add: used_clear [OF len])
    with same [of x] show ?thesis by (simp add: used_def)
  qed
  have "?C ! x = fat ! x" if "x < 3" for x
  proof (rule same)
    show "x \<notin> set cs" using chain_ge_3 [OF wf cs head] that by (meson leD)
  qed (use that in \<open>simp add: CLUSTER_MAP_SIZE_def\<close>)
  then have "reserved_ok ?C" using wf by (simp add: fat_wf_def reserved_ok_def)
  moreover have "links_inj ?C" unfolding links_inj_def using old fat_wfD(4) [OF wf] by metis
  moreover have "links_ok ?C"
    unfolding links_ok_def
  proof (intro allI impI)
    fix x assume x: "used ?C x" and ne: "?C ! x \<noteq> FAT32_FAT_END_OF_FILE"
    note o = old [OF x]
    with ne fat_wfD(3) [OF wf] have t: "3 \<le> unat (fat ! x)" "used fat (unat (fat ! x))" by auto
    obtain ds where ds: "fat_path fat (of_nat x) ds" using fat_wfD(5) [OF wf] o by blast
    have ux: "unat (of_nat x :: u32) = x" using o by (simp add: used_def unat_of_cluster)
    with ds o ne have "unat (fat ! x) \<in> set ds"
      by (cases ds) (auto dest: fat_path_hd split: if_splits)
    with path_disjoint [OF wf cs head ds] ux o have "unat (fat ! x) \<notin> set cs" by auto
    with t o show "3 \<le> unat (?C ! x) \<and> used ?C (unat (?C ! x))" by (simp add: used_clear [OF len])
  qed
  moreover have "\<exists>ds. fat_path ?C (of_nat x) ds" if x: "used ?C x" for x
  proof -
    note o = old [OF x]
    have ux: "unat (of_nat x :: u32) = x" using o by (simp add: used_def unat_of_cluster)
    from fat_wfD(5) [OF wf] o obtain ds where "fat_path fat (of_nat x) ds" by blast
    with clear_path_other [OF wf cs head] ux o show ?thesis by metis
  qed
  ultimately show ?thesis by (simp add: fat_wf_def chains_end_def)
qed

text \<open>Clearing a chain that was just linked gives the table back.\<close>

theorem clear_linked:
  assumes len: "length fat = CLUSTER_MAP_SIZE" and n: "0 < n" "n \<le> length (free_clusters fat)"
  shows "clear_clusters (linked_fat fat n) (written_chain fat n) = fat"
proof (rule nth_equalityI)
  fix x assume "x < length (clear_clusters (linked_fat fat n) (written_chain fat n))"
  then have x: "x < length (linked_fat fat n)" by simp
  show "clear_clusters (linked_fat fat n) (written_chain fat n) ! x = fat ! x"
  proof (cases "x \<in> set (written_chain fat n)")
    case True
    then have "fat ! x = FAT32_FAT_EMPTY_ENTRY" using written_chain_free free_clusters_set by blast
    with True show ?thesis by (simp add: nth_clear_clusters [OF x])
  next
    case False
    with linked_fat_other [OF False n] show ?thesis by (simp add: nth_clear_clusters [OF x])
  qed
qed simp

end
