(* ===== verification/Fat_Directory.thy ===== *)
theory Fat_Directory imports Fat_Init Fat_Invariant begin

text \<open>
  A directory table as a finite map from identifiers (8 bytes of name, 3 of extension) to entries:
  what \<open>write\<close> and \<open>delete\<close> do to a table is an insertion and a removal. The map is what the search
  loops of the driver see, entries 2 to 63 that are in use, the first match first.
\<close>

definition dir_view :: "dir_table \<Rightarrow> u8 list \<Rightarrow> FAT32DirectoryEntry option" where
  "dir_view t ident = map_option (\<lambda>i. t ! i) (find_entry ident t)"

definition in_use :: "FAT32DirectoryEntry \<Rightarrow> bool" where
  "in_use e \<longleftrightarrow> user_attribute e = UATTR_NOT_EMPTY"

text \<open>No two entries in use share an identifier.\<close>

definition names_unique :: "dir_table \<Rightarrow> bool" where
  "names_unique t \<longleftrightarrow> (\<forall>i j. 2 \<le> i \<longrightarrow> i < DIR_ENTRIES \<longrightarrow> 2 \<le> j \<longrightarrow> j < DIR_ENTRIES \<longrightarrow>
     in_use (t ! i) \<longrightarrow> in_use (t ! j) \<longrightarrow> name (t ! i) @ ext (t ! i) = name (t ! j) @ ext (t ! j) \<longrightarrow> i = j)"

lemma entry_matches_iff:
  "length ident = 11 \<Longrightarrow> entry_ok e \<Longrightarrow> entry_matches ident e \<longleftrightarrow> in_use e \<and> name e @ ext e = ident"
  by (auto simp: entry_matches_def in_use_def entry_ok_def memcmp_bytes_eq_0)

lemma length_req_identifier: "request_ok r \<Longrightarrow> length (req_identifier r) = 11"
  by (simp add: request_ok_def req_identifier_def)

lemma table_entry_ok: "table_ok t \<Longrightarrow> i < DIR_ENTRIES \<Longrightarrow> entry_ok (t ! i)"
  by (simp add: table_ok_def)

lemma find_empty_slot_Some:
  "find_empty_slot t = Some slot \<Longrightarrow> 2 \<le> slot \<and> slot < DIR_ENTRIES \<and> \<not> in_use (t ! slot)"
  by (simp add: find_empty_slot_def scan_Some_iff in_use_def)

section \<open>Insertion\<close>

lemma find_entry_insert_same:
  assumes "find_entry ident t = None" and "2 \<le> i" "i < DIR_ENTRIES" "length t = DIR_ENTRIES" and "entry_matches ident e"
  shows "find_entry ident (t[i := e]) = Some i"
  using assms unfolding find_entry_def scan_iff by simp

lemma find_entry_update_other:
  assumes "\<not> entry_matches ident e" and "\<not> entry_matches ident (t ! i)" and "i < DIR_ENTRIES" "length t = DIR_ENTRIES"
  shows "find_entry ident (t[i := e]) = find_entry ident t"
  unfolding find_entry_def by (rule scan_cong) (use assms in \<open>auto simp: nth_list_update\<close>)

lemma find_entry_not_at: "find_entry ident t = Some k \<Longrightarrow> \<not> entry_matches ident (t ! i) \<Longrightarrow> k \<noteq> i"
  by (auto simp: find_entry_def scan_Some_iff)

lemma dir_view_insert:
  assumes t: "table_ok t" and i: "2 \<le> i" "i < DIR_ENTRIES" and free: "\<not> in_use (t ! i)"
    and e: "entry_ok e" "in_use e" and new: "dir_view t (name e @ ext e) = None" and len: "length ident = 11"
  shows "dir_view (t[i := e]) ident = (if ident = name e @ ext e then Some e else dir_view t ident)"
proof (cases "ident = name e @ ext e")
  case True
  then have "entry_matches ident e" using e len by (simp add: entry_matches_iff)
  with True new i t find_entry_insert_same [of ident t i e] show ?thesis
    by (simp add: dir_view_def table_ok_def)
next
  case False
  then have no: "\<not> entry_matches ident e" "\<not> entry_matches ident (t ! i)"
    using e len i t free by (auto simp: entry_matches_iff table_entry_ok)
  then have "find_entry ident (t[i := e]) = find_entry ident t"
    using i t by (intro find_entry_update_other) (simp_all add: table_ok_def)
  with False no(2) show ?thesis
    by (cases "find_entry ident t") (auto simp: dir_view_def dest: find_entry_not_at)
qed

lemma names_unique_insert:
  assumes t: "table_ok t" "names_unique t" and i: "2 \<le> i" "i < DIR_ENTRIES"
    and new: "in_use e \<Longrightarrow> dir_view t (name e @ ext e) = None" and e: "entry_ok e"
  shows "names_unique (t[i := e])"
proof -
  have fresh: "name (t ! j) @ ext (t ! j) \<noteq> name e @ ext e"
    if "2 \<le> j" "j < DIR_ENTRIES" "in_use (t ! j)" "in_use e" for j
  proof -
    have "length (name e @ ext e) = 11" using e by (simp add: entry_ok_def)
    with new that t(1) show ?thesis
      by (auto simp: dir_view_def find_entry_def scan_None_iff entry_matches_iff table_entry_ok)
  qed
  have len: "length t = DIR_ENTRIES" using t(1) by (simp add: table_ok_def)
  show ?thesis
    unfolding names_unique_def
  proof (intro allI impI)
    fix j k assume *: "2 \<le> j" "j < DIR_ENTRIES" "2 \<le> k" "k < DIR_ENTRIES"
      "in_use (t[i := e] ! j)" "in_use (t[i := e] ! k)"
      "name (t[i := e] ! j) @ ext (t[i := e] ! j) = name (t[i := e] ! k) @ ext (t[i := e] ! k)"
    consider "j = i" "k = i" | "j = i" "k \<noteq> i" | "j \<noteq> i" "k = i" | "j \<noteq> i" "k \<noteq> i" by blast
    then show "j = k"
    proof cases
      case 2 with * len fresh [of k] show ?thesis by simp
    next
      case 3 with * len fresh [of j] show ?thesis by simp
    next
      case 4 with * len t(2) show ?thesis unfolding names_unique_def by simp
    qed simp
  qed
qed

section \<open>Removal\<close>

lemma dir_view_delete:
  assumes t: "table_ok t" "names_unique t" and find: "find_entry ident t = Some i"
    and len: "length ident = 11" "length x = 11"
  shows "dir_view (deleted_table i t) x = (if x = ident then None else dir_view t x)"
proof -
  let ?e = "(t ! i)\<lparr>user_attribute := 0\<rparr>"
  from find have i: "2 \<le> i" "i < DIR_ENTRIES" "entry_matches ident (t ! i)" by (simp_all add: find_entry_def scan_Some_iff)
  have ident: "in_use (t ! i)" "name (t ! i) @ ext (t ! i) = ident"
    using i t len by (simp_all add: entry_matches_iff table_entry_ok)
  have off: "\<not> entry_matches y ?e" for y by (simp add: entry_matches_def UATTR_NOT_EMPTY_def)
  have lt: "length t = DIR_ENTRIES" using t by (simp add: table_ok_def)
  show ?thesis
  proof (cases "x = ident")
    case True
    have "\<not> entry_matches x (t[i := ?e] ! j)" if j: "2 \<le> j" "j < DIR_ENTRIES" for j
    proof (cases "j = i")
      case False
      have "\<not> (in_use (t ! j) \<and> name (t ! j) @ ext (t ! j) = ident)"
        using t(2) i j ident False unfolding names_unique_def by metis
      with False j True len t show ?thesis by (simp add: entry_matches_iff table_entry_ok)
    qed (use off i lt in simp)
    then have "find_entry x (t[i := ?e]) = None" by (simp add: find_entry_def scan_None_iff)
    with True show ?thesis by (simp add: dir_view_def deleted_table_def)
  next
    case False
    then have no: "\<not> entry_matches x (t ! i)" using ident len i t by (simp add: entry_matches_iff table_entry_ok)
    then have "find_entry x (t[i := ?e]) = find_entry x t"
      using off i lt by (intro find_entry_update_other) simp_all
    with False no show ?thesis
      by (cases "find_entry x t") (auto simp: dir_view_def deleted_table_def dest: find_entry_not_at)
  qed
qed

lemma names_unique_delete:
  assumes "names_unique t" and "length t = DIR_ENTRIES" and "i < DIR_ENTRIES"
  shows "names_unique (deleted_table i t)"
proof -
  have "in_use (deleted_table i t ! j) \<Longrightarrow> in_use (t ! j)"
    and "name (deleted_table i t ! j) = name (t ! j)" and "ext (deleted_table i t ! j) = ext (t ! j)" for j
    using assms by (cases "j = i"; simp add: deleted_table_def in_use_def UATTR_NOT_EMPTY_def)+
  with assms(1) show ?thesis unfolding names_unique_def by metis
qed

section \<open>The written entry\<close>

lemma written_entry_simps [simp]:
  "name (written_entry r fat n e) = req_name r" "ext (written_entry r fat n e) = req_ext r"
  "user_attribute (written_entry r fat n e) = UATTR_NOT_EMPTY"
  "entry_cluster (written_entry r fat n e) = of_nat (free_clusters fat ! 0)"
  "filesize (written_entry r fat n e) = of_nat (n * CLUSTER_SIZE)"
  "attribute (written_entry r fat n e) = (if buffer_size r = 0 then ATTR_SUBDIRECTORY else attribute e)"
  by (simp_all add: written_entry_def add_entry_def Let_def)

lemma written_entry_matches: "request_ok r \<Longrightarrow> entry_matches (req_identifier r) (written_entry r fat n e)"
  by (simp add: entry_matches_iff [OF length_req_identifier written_entry_ok] in_use_def) (simp add: req_identifier_def)

lemma write_code_0:
  assumes "write_code r fat t = 0"
  obtains slot where "find_entry (req_identifier r) t = None" "find_empty_slot t = Some slot"
    "clusters_written r \<le> length (free_clusters fat)" "0 < clusters_written r"
  using assms that by (auto simp: write_code_def clusters_written_def split: if_splits)

text \<open>A successful \<open>write\<close> inserts the request's identifier, a successful \<open>delete\<close> removes it.\<close>

lemma dir_view_written:
  assumes t: "table_ok t" and r: "request_ok r" and code: "write_code r fat t = 0" and len: "length ident = 11"
  shows "dir_view (written_table r fat t) ident =
    (if ident = req_identifier r then Some (written_entry r fat (clusters_written r) (t ! the (find_empty_slot t)))
     else dir_view t ident)"
proof -
  from code obtain slot where none: "find_entry (req_identifier r) t = None" and slot: "find_empty_slot t = Some slot"
    by (rule write_code_0)
  let ?e = "written_entry r fat (clusters_written r) (t ! slot)"
  have "in_use ?e" "name ?e @ ext ?e = req_identifier r" by (simp_all add: in_use_def req_identifier_def)
  with t r none find_empty_slot_Some [OF slot] dir_view_insert [of t slot ?e ident] len show ?thesis
    by (simp add: written_table_def slot written_entry_ok dir_view_def [of t "req_identifier r"])
qed

lemma names_unique_written:
  assumes t: "table_ok t" "names_unique t" and r: "request_ok r" and code: "write_code r fat t = 0"
  shows "names_unique (written_table r fat t)"
proof -
  from code obtain slot where none: "find_entry (req_identifier r) t = None" and slot: "find_empty_slot t = Some slot"
    by (rule write_code_0)
  with t r find_empty_slot_Some [OF slot] show ?thesis
    unfolding written_table_def Let_def
    by (intro names_unique_insert) (simp_all add: written_entry_ok dir_view_def req_identifier_def [symmetric])
qed

end
