(* ===== verification/Fat_Files.thy ===== *)
theory Fat_Files imports Fat_Directory begin

text \<open>
  Whole-storage facts: the invariant between the cached FAT, the FAT on disk and the root directory,
  which clusters a \<open>write\<close> or \<open>delete\<close> can change, what a file reads as after it was written, and the
  two operations one after the other. \<open>D\<close> stands for the clusters of the device.
\<close>

definition fs_ok :: "fat_map \<Rightarrow> (nat \<Rightarrow> u8 list) \<Rightarrow> bool" where
  "fs_ok fat D \<longleftrightarrow> fat_wf fat \<and> D 1 = encode_fat fat \<and> attribute (decode_table (D 2) ! 0) = ATTR_SUBDIRECTORY"

text \<open>The chunks of the buffer that survive in the chain of a written file.\<close>

definition stored_bytes :: "FAT32DriverRequest \<Rightarrow> memory \<Rightarrow> u8 list" where
  "stored_bytes r m = concat (map (\<lambda>k. buffer_chunk r m (min (2 * k + 1) (clusters_written r - 1)))
     [0..<(clusters_written r + 1) div 2])"

section \<open>The clusters after \<open>write\<close>\<close>

lemma clusters_written_pos [simp]: "0 < clusters_written r"
  by (simp add: clusters_written_def)

lemma parent_used: "fat_wf fat \<Longrightarrow> parent_ok fat D c \<Longrightarrow> used fat (unat c)"
  using parent_unat [of fat D c] by (simp add: used_def parent_ok_def)

lemma written_disk_other:
  assumes "clusters_written r \<le> length (free_clusters fat)"
    and "x \<notin> set (written_chain fat (clusters_written r))" and "x \<noteq> 1" and "x \<noteq> unat (parent_cluster_number r)"
  shows "written_disk r fat m D x = D x"
proof -
  let ?n = "clusters_written r"
  have "free_clusters fat ! k \<noteq> x" if "k \<le> (?n - 1) div 2" for k
  proof -
    have "k < (?n + 1) div 2" using that clusters_written_pos [of r] by linarith
    with assms(1,2) written_chain_set show ?thesis by blast
  qed
  with assms(3,4) show ?thesis by (simp add: written_disk_def loop_disk_other)
qed

lemma written_disk_chain:
  assumes wf: "fat_wf fat" and ok: "parent_ok fat D (parent_cluster_number r)"
    and n: "clusters_written r \<le> length (free_clusters fat)" and k: "k < (clusters_written r + 1) div 2"
  shows "written_disk r fat m D (free_clusters fat ! k) = buffer_chunk r m (min (2 * k + 1) (clusters_written r - 1))"
proof -
  have l: "k < length (free_clusters fat)" "k \<le> (clusters_written r - 1) div 2" using n k by linarith+
  then have f: "free_clusters fat ! k \<in> set (free_clusters fat)" by simp
  have "(clusters_written r - 1) div 2 < length (free_clusters fat)"
    using n clusters_written_pos [of r] by linarith
  then have "loop_disk D (free_clusters fat) (buffer_chunk r m) (clusters_written r - 1) (free_clusters fat ! k)
      = buffer_chunk r m (min (2 * k + 1) (clusters_written r - 1))"
    using l(2) by (rule loop_disk_nth [OF free_clusters_distinct])
  moreover have "free_clusters fat ! k \<noteq> unat (parent_cluster_number r)"
    using used_not_free [OF parent_used [OF wf ok]] f by auto
  moreover have "free_clusters fat ! k \<noteq> 1" using free_cluster_ge_3 [OF wf f] by simp
  ultimately show ?thesis by (simp add: written_disk_def)
qed

lemma written_disk_parent:
  "written_disk r fat m D (unat (parent_cluster_number r)) = encode_table (written_table r fat (parent_table D r))"
  by (simp add: written_disk_def)

lemma written_disk_1:
  "parent_ok fat D (parent_cluster_number r) \<Longrightarrow> written_disk r fat m D 1 = encode_fat (linked_fat fat (clusters_written r))"
  using parent_unat [of fat D "parent_cluster_number r"] by (auto simp: written_disk_def)

lemma written_disk_used:
  assumes wf: "fat_wf fat" and n: "clusters_written r \<le> length (free_clusters fat)"
    and x: "used fat x" "x \<noteq> unat (parent_cluster_number r)"
  shows "written_disk r fat m D x = D x"
proof (rule written_disk_other [OF n])
  show "x \<notin> set (written_chain fat (clusters_written r))"
    using used_not_free [OF x(1)] written_chain_free by blast
  show "x \<noteq> 1" using x(1) by (auto simp: used_def)
qed (rule x(2))

lemma written_disk_chain_bytes:
  assumes wf: "fat_wf fat" and ok: "parent_ok fat D (parent_cluster_number r)"
    and n: "clusters_written r \<le> length (free_clusters fat)"
  shows "chain_bytes (written_disk r fat m D) (written_chain fat (clusters_written r)) = stored_bytes r m"
proof -
  have chain: "written_chain fat (clusters_written r)
      = map ((!) (free_clusters fat)) [0..<(clusters_written r + 1) div 2]"
  proof -
    have "(clusters_written r + 1) div 2 \<le> length (free_clusters fat)" using n clusters_written_pos [of r] by linarith
    then show ?thesis by (simp add: written_chain_def list_eq_iff_nth_eq)
  qed
  have "map (written_disk r fat m D) (map ((!) (free_clusters fat)) [0..<(clusters_written r + 1) div 2])
      = map (\<lambda>k. buffer_chunk r m (min (2 * k + 1) (clusters_written r - 1))) [0..<(clusters_written r + 1) div 2]"
    by (simp add: written_disk_chain [OF wf ok n])
  then show ?thesis by (simp only: chain chain_bytes_def stored_bytes_def)
qed

lemma length_stored_bytes: "length (stored_bytes r m) = 2048 * ((clusters_written r + 1) div 2)"
  unfolding stored_bytes_def by (subst length_concat_const [where n = 2048]) (simp_all add: CLUSTER_SIZE_def)

lemma stored_bytes_single: "clusters_written r = 1 \<Longrightarrow> stored_bytes r m = mem_read m (buf r) CLUSTER_SIZE"
  by (simp add: stored_bytes_def buffer_chunk_def)

lemma stored_bytes_start:
  assumes "2 \<le> clusters_written r"
  shows "take CLUSTER_SIZE (stored_bytes r m) = mem_read m (buf r + of_nat CLUSTER_SIZE) CLUSTER_SIZE"
proof -
  obtain k where "(clusters_written r + 1) div 2 = Suc k" using assms by (cases "(clusters_written r + 1) div 2") auto
  then have "stored_bytes r m = buffer_chunk r m (min 1 (clusters_written r - 1)) @
      concat (map (\<lambda>k. buffer_chunk r m (min (2 * k + 1) (clusters_written r - 1))) [1..<Suc k])"
    by (simp add: stored_bytes_def upt_rec [of 0] del: upt_Suc)
  moreover have "min 1 (clusters_written r - 1) = 1" using assms by linarith
  ultimately show ?thesis by (simp only:) (simp add: buffer_chunk_def)
qed

text \<open>Entry 0 of a directory is never the slot of a new file.\<close>

lemma written_table_0:
  assumes "write_code r fat t = 0"
  shows "written_table r fat t ! 0 = t ! 0"
proof -
  from assms obtain slot where "find_empty_slot t = Some slot" by (rule write_code_0)
  with find_empty_slot_Some [of t slot] show ?thesis by (simp add: written_table_def Let_def)
qed

section \<open>The invariant\<close>

lemma fs_ok_written:
  assumes fs: "fs_ok fat D" and ok: "parent_ok fat D (parent_cluster_number r)" and r: "request_ok r"
    and code: "write_code r fat (parent_table D r) = 0" and t: "table_ok (parent_table D r)"
  shows "fs_ok (linked_fat fat (clusters_written r)) (written_disk r fat m D)"
proof -
  have wf: "fat_wf fat" using fs by (simp add: fs_ok_def)
  from code obtain slot where n: "clusters_written r \<le> length (free_clusters fat)" by (rule write_code_0)
  have "attribute (decode_table (written_disk r fat m D 2) ! 0) = ATTR_SUBDIRECTORY"
  proof (cases "unat (parent_cluster_number r) = 2")
    case True
    then have "decode_table (written_disk r fat m D 2) = written_table r fat (parent_table D r)"
      using written_disk_parent [of r fat m D] table_ok_written [OF r t] by simp
    then show ?thesis using written_table_0 [OF code] ok by (simp add: parent_ok_def parent_table_def)
  next
    case False
    have "used fat 2" using fat_wfD(2) [OF wf] by (simp add: used_def CLUSTER_MAP_SIZE_def)
    with False fs show ?thesis by (simp add: written_disk_used [OF wf n] fs_ok_def)
  qed
  with written_disk_1 [OF ok] fat_wf_linked [OF wf _ n] show ?thesis by (simp add: fs_ok_def)
qed

lemma fs_ok_cong: "fs_ok fat D \<Longrightarrow> \<forall>k<2048. D' k = D k \<Longrightarrow> fs_ok fat D'"
  by (simp add: fs_ok_def)

lemma fs_ok_deleted:
  assumes fs: "fs_ok fat D" and ok: "parent_ok fat D (parent_cluster_number r)"
    and i: "2 \<le> i" and t: "table_ok (parent_table D r)" "i < DIR_ENTRIES"
    and path: "fat_path fat c cs" and head: "chain_head fat (unat c)"
  shows "fs_ok (clear_clusters fat cs) (deleted_disk r (clear_clusters fat cs) (deleted_table i (parent_table D r)) D)"
proof -
  have p: "2 \<le> unat (parent_cluster_number r)" using parent_unat [OF ok] by simp
  have "decode_table (encode_table (deleted_table i (parent_table D r))) = deleted_table i (parent_table D r)"
    using table_ok_deleted [OF t] by simp
  moreover have "deleted_table i (parent_table D r) ! 0 = parent_table D r ! 0" using i by (simp add: deleted_table_def)
  ultimately show ?thesis
    using fs ok p fat_wf_clear [OF _ path head] by (auto simp: fs_ok_def deleted_disk_def parent_ok_def parent_table_def)
qed

section \<open>A written file, seen by the next operation\<close>

lemma written_free_count:
  "write_code r fat t = 0 \<Longrightarrow> clusters_written r \<le> length (free_clusters fat)"
  by (auto simp: write_code_def split: if_splits)

lemma find_entry_written:
  assumes t: "table_ok t" and r: "request_ok r" and code: "write_code r fat t = 0"
  shows "find_entry (req_identifier r) (written_table r fat t) = find_empty_slot t"
proof -
  from code obtain slot where none: "find_entry (req_identifier r) t = None" and slot: "find_empty_slot t = Some slot"
    by (rule write_code_0)
  with find_empty_slot_Some [OF slot] t written_entry_matches [OF r] show ?thesis
    by (simp add: written_table_def find_entry_insert_same table_ok_def)
qed

lemma written_table_slot:
  assumes "table_ok t" and "write_code r fat t = 0"
  shows "written_table r fat t ! the (find_empty_slot t)
    = written_entry r fat (clusters_written r) (t ! the (find_empty_slot t))"
proof -
  from assms(2) obtain slot where "find_empty_slot t = Some slot" by (rule write_code_0)
  with assms(1) find_empty_slot_Some [of t slot] show ?thesis by (simp add: written_table_def Let_def table_ok_def)
qed

lemma parent_ok_written:
  assumes wf: "fat_wf fat" and ok: "parent_ok fat D (parent_cluster_number r)" and r: "request_ok r"
    and code: "write_code r fat (parent_table D r) = 0" and t: "table_ok (parent_table D r)"
    and D': "D' (unat (parent_cluster_number r)) = encode_table (written_table r fat (parent_table D r))"
  shows "parent_ok (linked_fat fat (clusters_written r)) D' (parent_cluster_number r)"
proof -
  let ?p = "unat (parent_cluster_number r)"
  have "?p \<notin> set (written_chain fat (clusters_written r))"
    using used_not_free [OF parent_used [OF wf ok]] written_chain_free by blast
  then have "linked_fat fat (clusters_written r) ! ?p = fat ! ?p"
    by (rule linked_fat_other) (simp_all add: written_free_count [OF code])
  with ok written_table_0 [OF code] table_ok_written [OF r t] show ?thesis
    by (simp add: parent_ok_def D' parent_table_def)
qed

lemma chain_bytes_cong: "(\<And>x. x \<in> set cs \<Longrightarrow> D x = D' x) \<Longrightarrow> chain_bytes D cs = chain_bytes D' cs"
  unfolding chain_bytes_def by (metis map_cong)

section \<open>Operations on any device\<close>

text \<open>The return code of \<open>write\<close>, the parent's checks included.\<close>

definition write_result :: "FAT32DriverRequest \<Rightarrow> fat_map \<Rightarrow> (nat \<Rightarrow> u8 list) \<Rightarrow> int" where
  "write_result r fat D =
     (if parent_ok fat D (parent_cluster_number r) then write_code r fat (parent_table D r) else 2)"

text \<open>What a successful \<open>write\<close> leaves for a later \<open>read\<close> of the same name, on any device.\<close>

lemma written_readable:
  assumes fs: "fs_ok fat D" and r: "request_ok r" and res: "write_result r fat D = 0" and t: "table_ok (parent_table D r)"
    and fresh: "buffer_size r \<noteq> 0" "attribute (parent_table D r ! the (find_empty_slot (parent_table D r))) \<noteq> ATTR_SUBDIRECTORY"
    and D': "\<forall>k<2048. D' k = written_disk r fat m D k"
    and q: "parent_cluster_number q = parent_cluster_number r" "req_identifier q = req_identifier r"
      "of_nat (clusters_written r * CLUSTER_SIZE) \<le> buffer_size q"
  shows "parent_ok (linked_fat fat (clusters_written r)) D' (parent_cluster_number q)"
    and "find_entry (req_identifier q) (parent_table D' q) = Some (the (find_empty_slot (parent_table D r)))"
    and "read_code q (parent_table D' q) = 0"
    and "fat_path (linked_fat fat (clusters_written r))
      (entry_cluster (parent_table D' q ! the (find_empty_slot (parent_table D r)))) (written_chain fat (clusters_written r))"
    and "chain_bytes D' (written_chain fat (clusters_written r)) = stored_bytes r m"
proof -
  let ?t = "parent_table D r" and ?n = "clusters_written r" and ?W = "written_disk r fat m D"
  have wf: "fat_wf fat" using fs by (simp add: fs_ok_def)
  have ok: "parent_ok fat D (parent_cluster_number r)" and code: "write_code r fat ?t = 0"
    using res by (simp_all add: write_result_def split: if_splits)
  note p = parent_unat [OF ok] and n = written_free_count [OF code]
  have t1: "parent_table D' q = written_table r fat ?t"
    using p D' table_ok_written [OF r t] by (simp add: parent_table_def written_disk_parent q(1))
  show "parent_ok (linked_fat fat ?n) D' (parent_cluster_number q)"
    using p D' parent_ok_written [OF wf ok r code t] by (simp add: written_disk_parent q(1))
  from code obtain slot where slot: "find_empty_slot ?t = Some slot" by (rule write_code_0)
  have e: "written_table r fat ?t ! slot = written_entry r fat ?n (?t ! slot)"
    using written_table_slot [OF t code] slot by simp
  show find: "find_entry (req_identifier q) (parent_table D' q) = Some (the (find_empty_slot ?t))"
    using find_entry_written [OF t r code] slot by (simp add: q(2) t1)
  then show "read_code q (parent_table D' q) = 0"
    using e fresh slot q(3) by (simp add: read_code_def not_less t1)
  show path: "fat_path (linked_fat fat ?n) (entry_cluster (parent_table D' q ! the (find_empty_slot ?t))) (written_chain fat ?n)"
    using linked_fat_path [OF fat_wfD(1) [OF wf] _ n] by (simp add: e t1 slot)
  have "D' x = ?W x" if "x \<in> set (written_chain fat ?n)" for x
  proof -
    have "x < 2048" using fat_path_range [OF path that] by (simp add: CLUSTER_MAP_SIZE_def)
    with D' show ?thesis by blast
  qed
  then have "chain_bytes D' (written_chain fat ?n) = chain_bytes ?W (written_chain fat ?n)"
    by (rule chain_bytes_cong)
  then show "chain_bytes D' (written_chain fat ?n) = stored_bytes r m"
    using written_disk_chain_bytes [OF wf ok n] by simp
qed

context block_device
begin

lemma write_run:
  assumes v: "valid (dev s)" and p: "unat (parent_cluster_number r) < CLUSTER_MAP_SIZE" and r: "request_ok r"
    and fs: "fs_ok (fat_table s) (cluster_of (blocks (dev s)))"
  shows "\<exists>s'. write_fat32 ops r s = Some (write_result r (fat_table s) (cluster_of (blocks (dev s))), s')
    \<and> valid (dev s') \<and> mem s' = mem s \<and> fs_ok (fat_table s') (cluster_of (blocks (dev s')))
    \<and> (write_result r (fat_table s) (cluster_of (blocks (dev s))) \<noteq> 0 \<longrightarrow>
        fat_table s' = fat_table s \<and> (\<forall>k<2048. cluster_of (blocks (dev s')) k = cluster_of (blocks (dev s)) k))
    \<and> (write_result r (fat_table s) (cluster_of (blocks (dev s))) = 0 \<longrightarrow>
        fat_table s' = linked_fat (fat_table s) (clusters_written r)
        \<and> (\<forall>k<2048. cluster_of (blocks (dev s')) k = written_disk r (fat_table s) (mem s) (cluster_of (blocks (dev s))) k))"
proof -
  let ?D = "cluster_of (blocks (dev s))"
  have len: "length (fat_table s) = CLUSTER_MAP_SIZE" using fs fat_wfD(1) by (simp add: fs_ok_def)
  show ?thesis
  proof (cases "parent_ok (fat_table s) ?D (parent_cluster_number r)")
    case False
    with write_bad_parent [OF v p False] fs_ok_cong [OF fs] show ?thesis by (auto simp: write_result_def)
  next
    case ok: True
    show ?thesis
    proof (cases "write_code r (fat_table s) (parent_table ?D r) = 0")
      case False
      with write_fails [OF v ok False] fs_ok_cong [OF fs] ok show ?thesis by (auto simp: write_result_def)
    next
      case code: True
      have "table_ok (parent_table ?D r)" using v p by (intro parent_table_ok) (simp_all add: CLUSTER_MAP_SIZE_def)
      from fs_ok_written [OF fs ok r code this, of "mem s"] have
        fs': "fs_ok (linked_fat (fat_table s) (clusters_written r)) (written_disk r (fat_table s) (mem s) ?D)" .
      from write_succeeds [OF v ok len r code] fs_ok_cong [OF fs'] ok code show ?thesis
        by (auto simp: write_result_def)
    qed
  qed
qed

text \<open>A directory request makes the caller's buffer the table of the new directory.\<close>

lemma directory_written:
  assumes v: "valid (dev s)" and r: "request_ok r" and fs: "fs_ok (fat_table s) (cluster_of (blocks (dev s)))"
    and res: "write_result r (fat_table s) (cluster_of (blocks (dev s))) = 0" and dir: "buffer_size r = 0"
  shows "\<exists>s' e. write_fat32 ops r s = Some (0, s') \<and> valid (dev s') \<and> mem s' = mem s
    \<and> fs_ok (fat_table s') (cluster_of (blocks (dev s')))
    \<and> dir_view (parent_table (cluster_of (blocks (dev s'))) r) (req_identifier r) = Some e
    \<and> in_use e \<and> attribute e = ATTR_SUBDIRECTORY
    \<and> cluster_of (blocks (dev s')) (unat (entry_cluster e)) = mem_read (mem s) (buf r) CLUSTER_SIZE
    \<and> (parent_ok (fat_table s') (cluster_of (blocks (dev s'))) (entry_cluster e) \<longleftrightarrow> mem s (buf r + 11) = ATTR_SUBDIRECTORY)"
proof -
  let ?D = "cluster_of (blocks (dev s))" and ?F = "free_clusters (fat_table s)"
  let ?t = "parent_table ?D r" and ?L = "linked_fat (fat_table s) 1"
  have one: "clusters_written r = 1" by (simp add: clusters_written_def dir)
  have wf: "fat_wf (fat_table s)" using fs by (simp add: fs_ok_def)
  have ok: "parent_ok (fat_table s) ?D (parent_cluster_number r)" and code: "write_code r (fat_table s) ?t = 0"
    using res by (simp_all add: write_result_def split: if_splits)
  have p: "unat (parent_cluster_number r) < CLUSTER_MAP_SIZE" and p2: "unat (parent_cluster_number r) < 2048"
    using parent_unat [OF ok] by (simp_all add: CLUSTER_MAP_SIZE_def)
  have t: "table_ok ?t" using v p2 by (rule parent_table_ok)
  have n: "clusters_written r \<le> length ?F" using written_free_count [OF code] .
  from write_run [OF v p r fs] res one obtain s' where
    w: "write_fat32 ops r s = Some (0, s')" "valid (dev s')" "mem s' = mem s" "fs_ok (fat_table s') (cluster_of (blocks (dev s')))"
      "fat_table s' = ?L" and D': "\<forall>k<2048. cluster_of (blocks (dev s')) k = written_disk r (fat_table s) (mem s) ?D k"
    by auto
  let ?D' = "cluster_of (blocks (dev s'))" and ?e = "written_entry r (fat_table s) 1 (?t ! the (find_empty_slot ?t))"
  have F: "?F ! 0 \<in> set ?F" by (rule nth_mem) (use n one in linarith)
  have c: "3 \<le> ?F ! 0" "?F ! 0 < CLUSTER_MAP_SIZE"
    using free_cluster_ge_3 [OF wf F] F free_clusters_set by blast+
  have uc: "unat (entry_cluster ?e) = ?F ! 0" using unat_of_cluster [OF c(2)] by simp
  have "parent_table ?D' r = written_table r (fat_table s) ?t"
    using p2 D' table_ok_written [OF r t] by (simp add: parent_table_def written_disk_parent)
  then have view: "dir_view (parent_table ?D' r) (req_identifier r) = Some ?e"
    using dir_view_written [OF t r code length_req_identifier [OF r]] one by simp
  have content: "?D' (unat (entry_cluster ?e)) = mem_read (mem s) (buf r) CLUSTER_SIZE"
    using D' c(2) written_disk_chain [OF wf ok n, of 0] one unfolding uc by (simp add: CLUSTER_MAP_SIZE_def buffer_chunk_def)
  have "fat_path ?L (entry_cluster ?e) (written_chain (fat_table s) 1)"
    using linked_fat_path [OF fat_wfD(1) [OF wf], of 1] n one by simp
  moreover have "length (written_chain (fat_table s) 1) = 1" using length_written_chain [of 1 "fat_table s"] n one by simp
  ultimately have eof: "?L ! (?F ! 0) = FAT32_FAT_END_OF_FILE"
    using uc by (cases "written_chain (fat_table s) 1") auto
  have "decode_table bs ! 0 = decode_entry (take 32 bs)" for bs
  proof -
    have d: "DIR_ENTRIES = Suc 63" by (simp add: DIR_ENTRIES_def)
    show ?thesis unfolding decode_table_def d chunks.simps by simp
  qed
  then have "attribute (decode_table (mem_read (mem s) (buf r) CLUSTER_SIZE) ! 0) = mem s (buf r + 11)"
    by (simp add: decode_entry_def CLUSTER_SIZE_def)
  then have "parent_ok ?L ?D' (entry_cluster ?e) \<longleftrightarrow> mem s (buf r + 11) = ATTR_SUBDIRECTORY"
    using c eof content uc by (simp add: parent_ok_def word_le_nat_alt)
  with w view content show ?thesis by (auto simp: in_use_def dir)
qed

text \<open>Reading back what was just written, with a buffer that is large enough.\<close>

lemma read_after_write:
  assumes v: "valid (dev s)" and r: "request_ok r"
    and fs: "fs_ok (fat_table s) (cluster_of (blocks (dev s)))"
    and res: "write_result r (fat_table s) (cluster_of (blocks (dev s))) = 0"
    and fresh: "buffer_size r \<noteq> 0"
      "attribute (parent_table (cluster_of (blocks (dev s))) r
         ! the (find_empty_slot (parent_table (cluster_of (blocks (dev s))) r))) \<noteq> ATTR_SUBDIRECTORY"
    and size: "of_nat (clusters_written r * CLUSTER_SIZE) \<le> n"
  shows "\<exists>s1 s2. write_fat32 ops r s = Some (0, s1) \<and> read_fat32 ops (r\<lparr>buf := b, buffer_size := n\<rparr>) s1 = Some (0, s2)
    \<and> mem s2 = mem_write (mem s) b (stored_bytes r (mem s)) \<and> fat_table s2 = fat_table s1
    \<and> (\<forall>k<2048. cluster_of (blocks (dev s2)) k = cluster_of (blocks (dev s1)) k)"
proof -
  let ?D = "cluster_of (blocks (dev s))" and ?q = "r\<lparr>buf := b, buffer_size := n\<rparr>"
  have ok: "parent_ok (fat_table s) ?D (parent_cluster_number r)" and code: "write_code r (fat_table s) (parent_table ?D r) = 0"
    using res by (simp_all add: write_result_def split: if_splits)
  have t: "table_ok (parent_table ?D r)" using v parent_unat [OF ok] by (intro parent_table_ok) simp_all
  have len: "length (fat_table s) = CLUSTER_MAP_SIZE" using fs fat_wfD(1) by (simp add: fs_ok_def)
  from write_succeeds [OF v ok len r code] obtain s1 where
    w: "write_fat32 ops r s = Some (0, s1)" "valid (dev s1)" "mem s1 = mem s"
      "fat_table s1 = linked_fat (fat_table s) (clusters_written r)"
      "\<forall>k<2048. cluster_of (blocks (dev s1)) k = written_disk r (fat_table s) (mem s) ?D k" by auto
  have "parent_cluster_number ?q = parent_cluster_number r" "req_identifier ?q = req_identifier r"
    "of_nat (clusters_written r * CLUSTER_SIZE) \<le> buffer_size ?q" using size by (simp_all add: req_identifier_def)
  note q = written_readable [OF fs r res t fresh w(5) this]
  from read_succeeds [OF w(2) q(1) [folded w(4)] q(2,3) q(4) [folded w(4)]] w q(5) show ?thesis by auto
qed

text \<open>Deleting what was just written.\<close>

lemma delete_after_write:
  assumes v: "valid (dev s)" and r: "request_ok r"
    and fs: "fs_ok (fat_table s) (cluster_of (blocks (dev s)))"
    and res: "write_result r (fat_table s) (cluster_of (blocks (dev s))) = 0"
    and fresh: "buffer_size r \<noteq> 0"
      "attribute (parent_table (cluster_of (blocks (dev s))) r
         ! the (find_empty_slot (parent_table (cluster_of (blocks (dev s))) r))) \<noteq> ATTR_SUBDIRECTORY"
  shows "\<exists>s1 s2. write_fat32 ops r s = Some (0, s1) \<and> delete_fat32 ops r s1 = Some (0, s2)
    \<and> fat_table s2 = fat_table s \<and> fs_ok (fat_table s2) (cluster_of (blocks (dev s2)))
    \<and> (\<forall>ident. length ident = 11 \<longrightarrow> names_unique (parent_table (cluster_of (blocks (dev s))) r) \<longrightarrow>
         dir_view (parent_table (cluster_of (blocks (dev s2))) r) ident
           = dir_view (parent_table (cluster_of (blocks (dev s))) r) ident)"
proof -
  let ?D = "cluster_of (blocks (dev s))" and ?n = "clusters_written r"
  let ?t = "parent_table ?D r" and ?W = "written_disk r (fat_table s) (mem s) (cluster_of (blocks (dev s)))"
  let ?u = "written_table r (fat_table s) ?t"
  have wf: "fat_wf (fat_table s)" using fs by (simp add: fs_ok_def)
  have ok: "parent_ok (fat_table s) ?D (parent_cluster_number r)" and code: "write_code r (fat_table s) ?t = 0"
    using res by (simp_all add: write_result_def split: if_splits)
  note p = parent_unat [OF ok]
  have t: "table_ok ?t" using v p by (intro parent_table_ok) simp_all
  note n = written_free_count [OF code]
  from write_succeeds [OF v ok fat_wfD(1) [OF wf] r code] obtain s1 where
    w: "write_fat32 ops r s = Some (0, s1)" and v1: "valid (dev s1)"
    and f1: "fat_table s1 = linked_fat (fat_table s) ?n" and D1: "\<forall>k<2048. cluster_of (blocks (dev s1)) k = ?W k"
    by auto
  let ?D1 = "cluster_of (blocks (dev s1))"
  have t1: "parent_table ?D1 r = ?u"
    using p D1 table_ok_written [OF r t] by (simp add: parent_table_def written_disk_parent)
  have ok1: "parent_ok (fat_table s1) ?D1 (parent_cluster_number r)"
    using p D1 parent_ok_written [OF wf ok r code t] by (simp add: f1 written_disk_parent)
  have fs1: "fs_ok (fat_table s1) ?D1"
    using fs_ok_cong [OF fs_ok_written [OF fs ok r code t] D1] by (simp add: f1)
  from code obtain slot where slot: "find_empty_slot ?t = Some slot" by (rule write_code_0)
  have e: "?u ! slot = written_entry r (fat_table s) ?n (?t ! slot)" using written_table_slot [OF t code] slot by simp
  have find: "find_entry (req_identifier r) ?u = Some slot" using find_entry_written [OF t r code] slot by simp
  have dc: "delete_code r ?D1 ?u = 0" using find e fresh slot by (simp add: delete_code_def)
  have path: "fat_path (fat_table s1) (entry_cluster (?u ! slot)) (written_chain (fat_table s) ?n)"
    using linked_fat_path [OF fat_wfD(1) [OF wf] _ n] by (simp add: e f1)
  have "free_clusters (fat_table s) ! 0 < CLUSTER_MAP_SIZE"
    using free_clusters_nth [of 0 "fat_table s"] n clusters_written_pos [of r] by linarith
  then have head: "chain_head (fat_table s1) (unat (entry_cluster (?u ! slot)))"
    using linked_chain_head [OF wf _ n] by (simp add: e f1 unat_of_cluster)
  have f2: "clear_clusters (fat_table s1) (written_chain (fat_table s) ?n) = fat_table s"
    using clear_linked [OF fat_wfD(1) [OF wf] _ n] by (simp add: f1)
  have len1: "length (fat_table s1) = CLUSTER_MAP_SIZE" using fat_wfD(1) [OF wf] by (simp add: f1)
  from delete_succeeds [OF v1 ok1 len1, unfolded t1, OF find dc path] obtain s2 where
    d: "delete_fat32 ops r s1 = Some (0, s2)" and fs2: "fat_table s2 = fat_table s"
    and D2: "\<forall>k<2048. cluster_of (blocks (dev s2)) k = deleted_disk r (fat_table s) (deleted_table slot ?u) ?D1 k"
    by (auto simp: f2)
  have i: "2 \<le> slot" "slot < DIR_ENTRIES" using find_empty_slot_Some [OF slot] by simp_all
  have u: "table_ok ?u" by (rule table_ok_written [OF r t])
  have "fs_ok (fat_table s2) (cluster_of (blocks (dev s2)))"
    using fs_ok_cong [OF fs_ok_deleted [OF fs1 ok1 i(1), unfolded t1, OF u i(2) path head, unfolded f2] D2] by (simp add: fs2)
  moreover have t2: "parent_table (cluster_of (blocks (dev s2))) r = deleted_table slot ?u"
    using p D2 table_ok_deleted [OF u i(2)] by (simp add: parent_table_def deleted_disk_def)
  have "dir_view (parent_table (cluster_of (blocks (dev s2))) r) x = dir_view ?t x"
    if x: "length x = 11" and un: "names_unique ?t" for x
    using dir_view_delete [OF u names_unique_written [OF t un r code] find length_req_identifier [OF r] x]
      dir_view_written [OF t r code x] code
    by (auto simp: t2 dir_view_def write_code_def split: if_splits)
  ultimately show ?thesis using w d fs2 by blast
qed

end

end
