(* ===== verification/Fat_Tree.thy ===== *)
theory Fat_Tree imports Fat_Files begin

text \<open>
  The directory tree. \<open>tree_ok fat D S\<close> says that \<open>S\<close> is a set of directory clusters closed under
  subdirectories, that every entry in use of a directory of \<open>S\<close> owns a chain of the FAT of its own,
  and that no two entries share a chain. It is what makes \<open>read\<close> and \<open>delete\<close> return, and it is
  preserved by \<open>write\<close> and \<open>delete\<close> when the caller follows the protocol of \<open>good_write\<close>.
\<close>

definition table_at :: "(nat \<Rightarrow> u8 list) \<Rightarrow> nat \<Rightarrow> dir_table" where
  "table_at D p = decode_table (D p)"

text \<open>Entry \<open>i\<close> of directory \<open>p\<close> is in use.\<close>

definition live :: "(nat \<Rightarrow> u8 list) \<Rightarrow> nat \<Rightarrow> nat \<Rightarrow> bool" where
  "live D p i \<longleftrightarrow> 2 \<le> i \<and> i < DIR_ENTRIES \<and> in_use (table_at D p ! i)"

definition head_of :: "(nat \<Rightarrow> u8 list) \<Rightarrow> nat \<Rightarrow> nat \<Rightarrow> nat" where
  "head_of D p i = unat (entry_cluster (table_at D p ! i))"

definition is_dir :: "(nat \<Rightarrow> u8 list) \<Rightarrow> nat \<Rightarrow> nat \<Rightarrow> bool" where
  "is_dir D p i \<longleftrightarrow> attribute (table_at D p ! i) = ATTR_SUBDIRECTORY"

definition dir_ok :: "fat_map \<Rightarrow> (nat \<Rightarrow> u8 list) \<Rightarrow> nat \<Rightarrow> bool" where
  "dir_ok fat D p \<longleftrightarrow> (p = 2 \<or> chain_head fat p) \<and> p < CLUSTER_MAP_SIZE \<and> fat ! p = FAT32_FAT_END_OF_FILE
     \<and> length (D p) = CLUSTER_SIZE \<and> attribute (table_at D p ! 0) = ATTR_SUBDIRECTORY \<and> names_unique (table_at D p)"

definition tree_ok :: "fat_map \<Rightarrow> (nat \<Rightarrow> u8 list) \<Rightarrow> nat set \<Rightarrow> bool" where
  "tree_ok fat D S \<longleftrightarrow> fat_wf fat \<and> D 1 = encode_fat fat \<and> 2 \<in> S
     \<and> (\<forall>p\<in>S. dir_ok fat D p)
     \<and> (\<forall>p\<in>S. \<forall>i. live D p i \<longrightarrow> chain_head fat (head_of D p i) \<and> (is_dir D p i \<longleftrightarrow> head_of D p i \<in> S))
     \<and> (\<forall>p\<in>S. \<forall>q\<in>S. \<forall>i j. live D p i \<longrightarrow> live D q j \<longrightarrow> head_of D p i = head_of D q j \<longrightarrow> p = q \<and> i = j)"

lemma tree_okD:
  assumes "tree_ok fat D S"
  shows "fat_wf fat" and "D 1 = encode_fat fat" and "2 \<in> S" and "p \<in> S \<Longrightarrow> dir_ok fat D p"
    and "p \<in> S \<Longrightarrow> live D p i \<Longrightarrow> chain_head fat (head_of D p i)"
    and "p \<in> S \<Longrightarrow> live D p i \<Longrightarrow> is_dir D p i \<longleftrightarrow> head_of D p i \<in> S"
    and "p \<in> S \<Longrightarrow> q \<in> S \<Longrightarrow> live D p i \<Longrightarrow> live D q j \<Longrightarrow> head_of D p i = head_of D q j \<Longrightarrow> p = q \<and> i = j"
  using assms unfolding tree_ok_def by blast+

lemma tree_dir_used: "tree_ok fat D S \<Longrightarrow> p \<in> S \<Longrightarrow> used fat p"
  using tree_okD(1,4) [of fat D S] by (auto simp: dir_ok_def chain_head_def used_def dest: fat_wfD(2))

lemma tree_fs_ok: "tree_ok fat D S \<Longrightarrow> fs_ok fat D"
  using tree_okD(1,2,3) [of fat D S] tree_okD(4) [of fat D S 2] by (simp add: fs_ok_def dir_ok_def table_at_def)

lemma tree_parent_ok: "tree_ok fat D S \<Longrightarrow> unat c \<in> S \<Longrightarrow> parent_ok fat D c"
proof -
  assume t: "tree_ok fat D S" and c: "unat c \<in> S"
  have "2 \<le> unat c" using tree_dir_used [OF t c] by (simp add: used_def)
  then have "2 \<le> c" unfolding word_le_nat_alt by simp
  with tree_okD(4) [OF t c] show ?thesis unfolding parent_ok_def dir_ok_def table_at_def by blast
qed

lemma table_at_ok: "dir_ok fat D p \<Longrightarrow> table_ok (table_at D p)"
  unfolding table_at_def dir_ok_def by (intro table_ok_decode) simp

lemma same_table: "D' p = D p \<Longrightarrow> table_at D' p = table_at D p"
  by (simp add: table_at_def)

lemma same_entries:
  "D' p = D p \<Longrightarrow> live D' p i = live D p i \<and> head_of D' p i = head_of D p i \<and> is_dir D' p i = is_dir D p i"
  by (simp add: live_def head_of_def is_dir_def table_at_def)

lemma parent_table_at: "parent_table D r = table_at D (unat (parent_cluster_number r))"
  by (simp add: parent_table_def table_at_def)

section \<open>Formatting\<close>

lemma dir_empty_live: "dir_empty (table_at D p) \<longleftrightarrow> (\<forall>i. \<not> live D p i)"
  unfolding dir_empty_def scan_None_iff live_def in_use_def by blast

lemma names_unique_empty: "dir_empty t \<Longrightarrow> names_unique t"
  unfolding dir_empty_def scan_None_iff names_unique_def in_use_def by blast

lemma root_entry_unused: "2 \<le> i \<Longrightarrow> i < DIR_ENTRIES \<Longrightarrow> user_attribute (root_directory_table ! i) = 0"
proof -
  assume i: "2 \<le> i" "i < DIR_ENTRIES"
  then obtain j where "i = Suc (Suc j)" "j < 62" by (auto simp: DIR_ENTRIES_def dest: le_Suc_ex)
  then show ?thesis by (simp add: root_directory_table_def zero_entry_def)
qed

lemma dir_empty_root: "dir_empty root_directory_table"
  by (simp add: dir_empty_def scan_None_iff root_entry_unused UATTR_NOT_EMPTY_def)

lemma tree_ok_formatted:
  assumes "D 1 = encode_fat fresh_fat" and "D 2 = encode_table root_directory_table"
  shows "tree_ok fresh_fat D {2}"
proof -
  have t: "table_at D 2 = root_directory_table" using assms(2) by (simp add: table_at_def root_directory_table_ok)
  then have none: "\<not> live D 2 i" for i using dir_empty_root dir_empty_live by metis
  have "attribute (root_directory_table ! 0) = ATTR_SUBDIRECTORY"
    by (simp add: root_directory_table_def dir_entry_for_def)
  moreover have "length (encode_table root_directory_table) = CLUSTER_SIZE"
    by (rule length_encode_table [OF root_directory_table_ok])
  ultimately have "dir_ok fresh_fat D 2"
    using assms(2) names_unique_empty [OF dir_empty_root] by (simp add: dir_ok_def t fresh_fat_nth CLUSTER_MAP_SIZE_def)
  with none assms fat_wf_fresh show ?thesis by (simp add: tree_ok_def)
qed

section \<open>Chain heads across the table updates\<close>

lemma chain_head_linked:
  assumes wf: "fat_wf fat" and n: "0 < n" "n \<le> length (free_clusters fat)" and c: "chain_head fat c"
  shows "chain_head (linked_fat fat n) c"
proof -
  have cu: "used fat c" "3 \<le> c" using c by (simp_all add: chain_head_def)
  have "linked_fat fat n ! x \<noteq> of_nat c" if x: "used (linked_fat fat n) x" for x
  proof
    assume eq: "linked_fat fat n ! x = of_nat c"
    have ne: "linked_fat fat n ! x \<noteq> FAT32_FAT_END_OF_FILE" using eq cu by (simp add: used_def of_nat_cluster_neq)
    have "unat (linked_fat fat n ! x) = c" using eq cu by (simp add: used_def unat_of_cluster)
    moreover have "c \<notin> set (written_chain fat n)" using used_not_free [OF cu(1)] written_chain_free by blast
    ultimately have out: "x \<notin> set (written_chain fat n)" using linked_target [OF wf n x ne] by simp
    then have "used fat x" "fat ! x = of_nat c"
      using x used_linked [OF wf n] linked_fat_other [OF out n] eq by auto
    with c show False by (simp add: chain_head_def)
  qed
  with cu used_linked [OF wf n] show ?thesis by (simp add: chain_head_def)
qed

lemma chain_head_clear:
  assumes wf: "fat_wf fat" and c: "chain_head fat c" "c \<notin> set cs"
  shows "chain_head (clear_clusters fat cs) c"
proof -
  note len = fat_wfD(1) [OF wf]
  have "clear_clusters fat cs ! x \<noteq> of_nat c" if "used (clear_clusters fat cs) x" for x
  proof -
    from that have x: "used fat x" "x \<notin> set cs" by (simp_all add: used_clear [OF len])
    then have "clear_clusters fat cs ! x = fat ! x" by (simp add: nth_clear_clusters used_def len)
    with c x show ?thesis by (simp add: chain_head_def)
  qed
  with c show ?thesis by (simp add: chain_head_def used_clear [OF len])
qed

text \<open>Two chains with different heads do not meet.\<close>

lemma head_in_path: "fat_path fat c cs \<Longrightarrow> unat c \<in> set cs"
  by (auto dest: fat_path_hd)

lemma head_not_in_chain:
  assumes wf: "fat_wf fat" and cs: "fat_path fat c cs" and head: "chain_head fat (unat c)"
    and e: "chain_head fat e \<or> e = 2" "e \<noteq> unat c"
  shows "e \<notin> set cs"
proof
  assume m: "e \<in> set cs"
  with chain_ge_3 [OF wf cs head] e(1) have "chain_head fat e" by fastforce
  from path_member [OF cs m] e(2) obtain y where
    y: "y \<in> set cs" "fat ! y \<noteq> FAT32_FAT_END_OF_FILE" "unat (fat ! y) = e" by auto
  have "used fat y" using path_used [OF wf cs _ y(1)] head by (simp add: chain_head_def)
  moreover have "fat ! y = of_nat e" using y(3) by auto
  ultimately show False using \<open>chain_head fat e\<close> by (simp add: chain_head_def)
qed

section \<open>The protocol of a caller of \<open>write\<close>\<close>

text \<open>
  \<open>write\<close> with size 0 makes a directory of the caller's buffer, so the buffer must hold an empty
  directory table; otherwise the slot that is reused must not be a deleted directory's, because
  \<open>write\<close> keeps the slot's attribute.
\<close>

definition good_write :: "FAT32DriverRequest \<Rightarrow> (nat \<Rightarrow> u8 list) \<Rightarrow> memory \<Rightarrow> bool" where
  "good_write r D m \<longleftrightarrow>
     (if buffer_size r = 0
      then attribute (decode_table (buffer_chunk r m 0) ! 0) = ATTR_SUBDIRECTORY \<and> dir_empty (decode_table (buffer_chunk r m 0))
      else attribute (parent_table D r ! the (find_empty_slot (parent_table D r))) \<noteq> ATTR_SUBDIRECTORY)"

definition grown :: "FAT32DriverRequest \<Rightarrow> fat_map \<Rightarrow> nat set \<Rightarrow> nat set" where
  "grown r fat S = (if buffer_size r = 0 then insert (free_clusters fat ! 0) S else S)"

lemma dir_ok_linked:
  assumes wf: "fat_wf fat" and n: "0 < n" "n \<le> length (free_clusters fat)"
    and p: "dir_ok fat D p" and D': "length (D' p) = CLUSTER_SIZE" "table_at D' p ! 0 = table_at D p ! 0"
      "names_unique (table_at D' p)"
  shows "dir_ok (linked_fat fat n) D' p"
proof -
  have "used fat p" using p fat_wfD(2) [OF wf] by (auto simp: dir_ok_def chain_head_def used_def)
  then have "p \<notin> set (written_chain fat n)" using used_not_free written_chain_free by blast
  with p D' chain_head_linked [OF wf n] linked_fat_other [OF _ n] show ?thesis by (auto simp: dir_ok_def)
qed

lemma tree_ok_written:
  assumes tree: "tree_ok fat D S" and p: "unat (parent_cluster_number r) \<in> S" and r: "request_ok r"
    and code: "write_code r fat (parent_table D r) = 0" and good: "good_write r D m"
    and D': "\<forall>k<2048. D' k = written_disk r fat m D k"
  shows "tree_ok (linked_fat fat (clusters_written r)) D' (grown r fat S)"
proof -
  let ?p = "unat (parent_cluster_number r)" and ?n = "clusters_written r" and ?c = "free_clusters fat ! 0"
  let ?t = "table_at D (unat (parent_cluster_number r))" and ?L = "linked_fat fat (clusters_written r)"
  note code = code [unfolded parent_table_at]
  note wf = tree_okD(1) [OF tree] and ok = tree_parent_ok [OF tree p]
  have t: "table_ok ?t" using table_at_ok [OF tree_okD(4) [OF tree p]] .
  note n = clusters_written_pos [of r] written_free_count [OF code]
  from code obtain slot where slot: "find_empty_slot ?t = Some slot" by (rule write_code_0)
  note sl = find_empty_slot_Some [OF slot]
  have small: "x < 2048" if "x < CLUSTER_MAP_SIZE" for x using that by (simp add: CLUSTER_MAP_SIZE_def)
  have S: "q < CLUSTER_MAP_SIZE \<and> q \<notin> set (free_clusters fat)" if "q \<in> S" for q
    using tree_dir_used [OF tree that] used_not_free by (auto simp: used_def)
  have D'p: "D' ?p = encode_table (written_table r fat ?t)"
    using D' small S p by (simp add: written_disk_parent parent_table_at)
  then have tp: "table_at D' ?p = written_table r fat ?t"
    using table_ok_written [OF r t] by (simp add: table_at_def)
  have D'q: "D' q = D q" if "q \<in> S" "q \<noteq> ?p" for q
    using D' small S that written_disk_used [OF wf n(2) tree_dir_used [OF tree that(1)] that(2)] by simp
  have e: "written_table r fat ?t ! slot = written_entry r fat ?n (?t ! slot)" using written_table_slot [OF t code] slot by simp
  have other: "written_table r fat ?t ! i = ?t ! i" if "i \<noteq> slot" for i
    using that by (simp add: written_table_def slot)
  have "0 < length (free_clusters fat)" using n by linarith
  then have cl: "?c \<in> set (free_clusters fat)" by simp
  then have c: "?c < CLUSTER_MAP_SIZE" "?c \<notin> S" "?c \<noteq> ?p" using S p by (auto simp: free_clusters_set)
  have live': "live D' ?p i \<longleftrightarrow> live D ?p i \<or> i = slot" for i
  proof (cases "i = slot")
    case False then show ?thesis by (simp add: live_def tp other)
  qed (use sl in \<open>simp add: live_def tp e in_use_def\<close>)
  have notlive: "\<not> live D ?p slot" using sl by (simp add: live_def)
  have head': "head_of D' ?p i = (if i = slot then ?c else head_of D ?p i)" for i
    using c by (simp add: head_of_def tp e other unat_of_cluster)
  have dir': "is_dir D' ?p i \<longleftrightarrow> (if i = slot then buffer_size r = 0 else is_dir D ?p i)" for i
    using good slot by (simp add: is_dir_def tp e other good_write_def parent_table_at split: if_splits)
  have "0 < (?n + 1) div 2" using n by linarith
  then have "D' ?c = buffer_chunk r m (min 1 (?n - 1))"
    using D' small c written_disk_chain [OF wf ok n(2), of 0] by simp
  moreover have "?n = 1" if "buffer_size r = 0" using that by (simp add: clusters_written_def)
  ultimately have tc: "table_at D' ?c = decode_table (buffer_chunk r m 0) \<and> length (D' ?c) = CLUSTER_SIZE"
    if "buffer_size r = 0" using that by (simp add: table_at_def)
  have newdir: "\<not> live D' ?c i" if "buffer_size r = 0" for i
    using dir_empty_live [of D' ?c] tc that good by (simp add: good_write_def parent_table_at split: if_splits)
  have heads: "chain_head ?L x" if "chain_head fat x" for x using chain_head_linked [OF wf n that] .
  note newhead = linked_chain_head [OF wf n]
  have oldhead: "head_of D q i \<noteq> ?c \<and> chain_head fat (head_of D q i)" if "q \<in> S" "live D q i" for q i
    using tree_okD(5) [OF tree that] cl used_not_free by (auto simp: chain_head_def)
  \<comment> \<open>every entry in use afterwards is an old one or the new one\<close>
  have view: "(q = ?p \<and> i = slot \<and> head_of D' q i = ?c \<and> (is_dir D' q i \<longleftrightarrow> buffer_size r = 0))
      \<or> (q \<in> S \<and> live D q i \<and> head_of D' q i = head_of D q i \<and> is_dir D' q i = is_dir D q i)"
    if q: "q \<in> grown r fat S" and l: "live D' q i" for q i
  proof (cases "q = ?p")
    case True
    with l live' head' dir' notlive p show ?thesis by (cases "i = slot") auto
  next
    case False
    have "q \<in> S" using q l newdir by (auto simp: grown_def split: if_splits)
    with False l same_entries [of D' q D] D'q [of q] show ?thesis by blast
  qed
  have dirs: "dir_ok ?L D' q" if q: "q \<in> grown r fat S" for q
  proof -
    consider "q \<in> S" "q \<noteq> ?p" | "q = ?p" | "q = ?c" "buffer_size r = 0" using q by (auto simp: grown_def split: if_splits)
    then show ?thesis
    proof cases
      case 1
      with tree_okD(4) [OF tree 1(1)] D'q [OF 1] show ?thesis
        by (intro dir_ok_linked [OF wf n]) (auto simp: dir_ok_def table_at_def)
    next
      case 2
      show ?thesis unfolding 2
      proof (rule dir_ok_linked [OF wf n tree_okD(4) [OF tree p]])
        show "length (D' ?p) = CLUSTER_SIZE" using D'p length_encode_table [OF table_ok_written [OF r t]] by simp
        show "table_at D' ?p ! 0 = table_at D ?p ! 0" using tp written_table_0 [OF code] by (simp add:)
        show "names_unique (table_at D' ?p)"
          using tp names_unique_written [OF t _ r code] tree_okD(4) [OF tree p] by (simp add: dir_ok_def)
      qed
    next
      case 3
      have "?L ! ?c = FAT32_FAT_END_OF_FILE"
        using linked_fat_nth [OF fat_wfD(1) [OF wf] n, of 0] 3(2) by (simp add: clusters_written_def)
      moreover have "names_unique (table_at D' ?c)" "attribute (table_at D' ?c ! 0) = ATTR_SUBDIRECTORY"
        using tc good 3(2) names_unique_empty by (simp_all add: good_write_def)
      ultimately show ?thesis using 3 tc newhead c by (simp add: dir_ok_def)
    qed
  qed
  have D'1: "D' 1 = encode_fat ?L" using D' written_disk_1 [OF ok, of m] by simp
  have "chain_head ?L (head_of D' q i) \<and> (is_dir D' q i \<longleftrightarrow> head_of D' q i \<in> grown r fat S)"
    if "q \<in> grown r fat S" "live D' q i" for q i
    using view [OF that]
  proof
    assume "q = ?p \<and> i = slot \<and> head_of D' q i = ?c \<and> (is_dir D' q i \<longleftrightarrow> buffer_size r = 0)"
    then have "head_of D' q i = ?c" "is_dir D' q i \<longleftrightarrow> buffer_size r = 0" by blast+
    with newhead c(2) show ?thesis by (simp add: grown_def)
  next
    assume *: "q \<in> S \<and> live D q i \<and> head_of D' q i = head_of D q i \<and> is_dir D' q i = is_dir D q i"
    with oldhead [of q i] heads tree_okD(6) [OF tree, of q i] show ?thesis by (simp add: grown_def)
  qed
  moreover have "q = q' \<and> i = j" if "q \<in> grown r fat S" "q' \<in> grown r fat S" "live D' q i" "live D' q' j"
      "head_of D' q i = head_of D' q' j" for q q' i j
    using view [OF that(1,3)] view [OF that(2,4)] that(5) oldhead tree_okD(7) [OF tree] by metis
  moreover have "2 \<in> grown r fat S" using tree_okD(3) [OF tree] by (simp add: grown_def)
  ultimately show ?thesis
    using fat_wf_linked [OF wf n] D'1 dirs unfolding tree_ok_def by blast
qed

section \<open>Deleting\<close>

lemma tree_ok_deleted:
  assumes tree: "tree_ok fat D S" and p: "unat (parent_cluster_number r) \<in> S"
    and i: "live D (unat (parent_cluster_number r)) i"
    and empty: "is_dir D (unat (parent_cluster_number r)) i \<Longrightarrow>
      dir_empty (table_at D (head_of D (unat (parent_cluster_number r)) i))"
    and path: "fat_path fat (entry_cluster (parent_table D r ! i)) cs"
    and D': "\<forall>k<2048. D' k = deleted_disk r (clear_clusters fat cs) (deleted_table i (parent_table D r)) D k"
  shows "tree_ok (clear_clusters fat cs) D' (S - {head_of D (unat (parent_cluster_number r)) i})"
proof -
  let ?p = "unat (parent_cluster_number r)" and ?C = "clear_clusters fat cs"
  let ?t = "table_at D (unat (parent_cluster_number r))" and ?c = "head_of D (unat (parent_cluster_number r)) i"
  note wf = tree_okD(1) [OF tree]
  note len = fat_wfD(1) [OF wf]
  have t: "table_ok ?t" using table_at_ok [OF tree_okD(4) [OF tree p]] .
  have head: "chain_head fat ?c" by (rule tree_okD(5) [OF tree p i])
  have uc: "unat (entry_cluster (parent_table D r ! i)) = ?c" by (simp add: head_of_def parent_table_at)
  have ci: "i < DIR_ENTRIES" "2 \<le> i" using i by (simp_all add: live_def)
  have small: "x < CLUSTER_MAP_SIZE \<and> 2 \<le> x \<and> x < 2048" if "x \<in> S" for x
    using tree_dir_used [OF tree that] by (simp add: used_def CLUSTER_MAP_SIZE_def)
  have tu: "table_ok (deleted_table i ?t)" by (rule table_ok_deleted [OF t ci(1)])
  have D'p: "D' ?p = encode_table (deleted_table i ?t)"
    using D' small [OF p] by (simp add: deleted_disk_def parent_table_at)
  then have tp: "table_at D' ?p = deleted_table i ?t" using tu by (simp add: table_at_def)
  have D'q: "D' q = D q" if "q \<in> S" "q \<noteq> ?p" for q
    using D' small [OF that(1)] that(2) by (auto simp: deleted_disk_def)
  have D'1: "D' 1 = encode_fat ?C" using D' small [OF p] by (auto simp: deleted_disk_def)
  have lt: "length ?t = DIR_ENTRIES" using t by (simp add: table_ok_def)
  have view: "live D q j \<and> (q \<noteq> ?p \<or> j \<noteq> i) \<and> head_of D' q j = head_of D q j \<and> is_dir D' q j = is_dir D q j"
    if "q \<in> S" "live D' q j" for q j
  proof (cases "q = ?p")
    case True
    with that(2) lt ci show ?thesis
      by (cases "j = i") (simp_all add: live_def tp deleted_table_def in_use_def UATTR_NOT_EMPTY_def head_of_def is_dir_def)
  next
    case False
    with that same_entries [of D' q D] D'q [of q] show ?thesis by blast
  qed
  have other: "head_of D q j \<noteq> ?c \<and> chain_head ?C (head_of D q j)"
    if "q \<in> S" "live D q j" "q \<noteq> ?p \<or> j \<noteq> i" for q j
  proof -
    have ne: "head_of D q j \<noteq> ?c" using tree_okD(7) [OF tree that(1) p that(2) i] that(3) by blast
    have h: "chain_head fat (head_of D q j)" by (rule tree_okD(5) [OF tree that(1,2)])
    have "head_of D q j \<notin> set cs"
      by (rule head_not_in_chain [OF wf path]) (use h ne head uc in simp_all)
    with ne chain_head_clear [OF wf h] show ?thesis by blast
  qed
  have dirs: "dir_ok ?C D' q" if q: "q \<in> S" "q \<noteq> ?c" for q
  proof -
    note dq = tree_okD(4) [OF tree q(1)]
    have out: "q \<notin> set cs"
      by (rule head_not_in_chain [OF wf path]) (use dq q head uc in \<open>auto simp: dir_ok_def\<close>)
    have "?C ! q = fat ! q" using out small [OF q(1)] by (simp add: nth_clear_clusters len)
    moreover have "table_at D' q ! 0 = table_at D q ! 0 \<and> names_unique (table_at D' q) \<and> length (D' q) = CLUSTER_SIZE"
    proof (cases "q = ?p")
      case True
      have "table_at D' ?p ! 0 = ?t ! 0" using ci by (simp add: tp deleted_table_def)
      moreover have "names_unique (table_at D' ?p)"
        using names_unique_delete [OF _ lt ci(1)] dq True by (simp add: tp dir_ok_def)
      moreover have "length (D' ?p) = CLUSTER_SIZE" using length_encode_table [OF tu] by (simp add: D'p)
      ultimately show ?thesis using True by simp
    next
      case False
      with dq D'q [OF q(1)] show ?thesis by (simp add: dir_ok_def table_at_def)
    qed
    ultimately show ?thesis using dq chain_head_clear [OF wf _ out] by (auto simp: dir_ok_def)
  qed
  have "2 \<in> S - {?c}" using tree_okD(3) [OF tree] head by (auto simp: chain_head_def)
  moreover have "fat_wf ?C" using fat_wf_clear [OF wf path] head by (simp add: uc)
  moreover have "chain_head ?C (head_of D' q j) \<and> (is_dir D' q j \<longleftrightarrow> head_of D' q j \<in> S - {?c})"
    if "q \<in> S - {?c}" "live D' q j" for q j
    using view [of q j] other [of q j] tree_okD(6) [OF tree, of q j] that by auto
  moreover have "q = q' \<and> j = j'" if "q \<in> S" "q' \<in> S" "live D' q j" "live D' q' j'" "head_of D' q j = head_of D' q' j'" for q q' j j'
    using view [OF that(1,3)] view [OF that(2,4)] that(5) tree_okD(7) [OF tree that(1,2)] by metis
  ultimately show ?thesis using D'1 dirs unfolding tree_ok_def by blast
qed

end
