(* ===== verification/Fat_Operations.thy ===== *)
theory Fat_Operations imports Fat_Tree begin

text \<open>
  The operations on a well-formed tree, on any block device: each returns, keeps the tree well-formed
  and answers with the code and the effect computed from the parent's table.
\<close>

section \<open>Operations on a well-formed tree\<close>

definition deleted_head :: "FAT32DriverRequest \<Rightarrow> (nat \<Rightarrow> u8 list) \<Rightarrow> nat" where
  "deleted_head r D = unat (entry_cluster (parent_table D r ! the (find_entry (req_identifier r) (parent_table D r))))"

lemma tree_live:
  assumes tree: "tree_ok fat D S" and p: "unat (parent_cluster_number r) \<in> S" and r: "length ident = 11"
    and f: "find_entry ident (parent_table D r) = Some i"
  shows "live D (unat (parent_cluster_number r)) i" and "used fat (unat (entry_cluster (parent_table D r ! i)))"
    and "\<exists>cs. fat_path fat (entry_cluster (parent_table D r ! i)) cs"
    and "unat (entry_cluster (parent_table D r ! i)) < 2048"
proof -
  let ?e = "entry_cluster (parent_table D r ! i)"
  note f' = find_entry_range [OF f]
  have "entry_ok (parent_table D r ! i)"
    using table_entry_ok [OF table_at_ok [OF tree_okD(4) [OF tree p]]] f' by (simp add: parent_table_at)
  then have "in_use (parent_table D r ! i)" using f' entry_matches_iff [OF r] by blast
  with f' show l: "live D (unat (parent_cluster_number r)) i" by (simp add: live_def parent_table_at)
  have "unat ?e = head_of D (unat (parent_cluster_number r)) i" by (simp add: head_of_def parent_table_at)
  with tree_okD(5) [OF tree p l] show u: "used fat (unat ?e)" by (simp add: chain_head_def)
  from fat_wfD(5) [OF tree_okD(1) [OF tree] u] show "\<exists>cs. fat_path fat ?e cs" by simp
  from u show "unat ?e < 2048" by (simp add: used_def CLUSTER_MAP_SIZE_def)
qed

lemma tree_ok_cong:
  assumes "tree_ok fat D S" and "\<forall>k<2048. D' k = D k"
  shows "tree_ok fat D' S"
proof -
  have "D' q = D q" if "q \<in> S" for q
  proof -
    have "q < 2048" using tree_dir_used [OF assms(1) that] by (simp add: used_def CLUSTER_MAP_SIZE_def)
    with assms(2) show ?thesis by blast
  qed
  then have same: "D' q = D q \<and> table_at D' q = table_at D q \<and> live D' q i = live D q i
      \<and> head_of D' q i = head_of D q i \<and> is_dir D' q i = is_dir D q i" if "q \<in> S" for q i
    using that same_entries [of D' q D] same_table [of D' q D] by blast
  show ?thesis
    using assms same unfolding tree_ok_def dir_ok_def by simp
qed

context block_device
begin

lemma tree_write:
  assumes v: "valid (dev s)" and tree: "tree_ok (fat_table s) (cluster_of (blocks (dev s))) S"
    and p: "unat (parent_cluster_number r) \<in> S" and r: "request_ok r"
    and good: "good_write r (cluster_of (blocks (dev s))) (mem s)"
  shows "\<exists>s'. write_fat32 ops r s = Some (write_code r (fat_table s) (parent_table (cluster_of (blocks (dev s))) r), s')
    \<and> valid (dev s') \<and> mem s' = mem s
    \<and> tree_ok (fat_table s') (cluster_of (blocks (dev s')))
        (if write_code r (fat_table s) (parent_table (cluster_of (blocks (dev s))) r) = 0 then grown r (fat_table s) S else S)"
proof -
  let ?D = "cluster_of (blocks (dev s))"
  note ok = tree_parent_ok [OF tree p]
  note len = fat_wfD(1) [OF tree_okD(1) [OF tree]]
  show ?thesis
  proof (cases "write_code r (fat_table s) (parent_table ?D r) = 0")
    case True
    from write_succeeds [OF v ok len r True] tree_ok_written [OF tree p r True good] True show ?thesis by auto
  next
    case False
    from write_fails [OF v ok False] tree_ok_cong [OF tree] False show ?thesis by auto
  qed
qed

lemma tree_read:
  assumes v: "valid (dev s)" and tree: "tree_ok (fat_table s) (cluster_of (blocks (dev s))) S"
    and p: "unat (parent_cluster_number r) \<in> S" and r: "request_ok r"
  shows "\<exists>s'. read_fat32 ops r s = Some (read_code r (parent_table (cluster_of (blocks (dev s))) r), s')
    \<and> valid (dev s') \<and> fat_table s' = fat_table s
    \<and> (\<forall>k<2048. cluster_of (blocks (dev s')) k = cluster_of (blocks (dev s)) k)"
proof -
  let ?D = "cluster_of (blocks (dev s))"
  note ok = tree_parent_ok [OF tree p]
  show ?thesis
  proof (cases "read_code r (parent_table ?D r) = 0")
    case True
    then obtain i where i: "find_entry (req_identifier r) (parent_table ?D r) = Some i"
      by (auto simp: read_code_def split: option.splits)
    from tree_live(3) [OF tree p length_req_identifier [OF r] i] obtain cs where
      cs: "fat_path (fat_table s) (entry_cluster (parent_table ?D r ! i)) cs" ..
    from read_succeeds [OF v ok i True cs] True show ?thesis by auto
  next
    case False
    from read_fails [OF v ok False] show ?thesis by auto
  qed
qed

lemma tree_delete:
  assumes v: "valid (dev s)" and tree: "tree_ok (fat_table s) (cluster_of (blocks (dev s))) S"
    and p: "unat (parent_cluster_number r) \<in> S" and r: "request_ok r"
  shows "\<exists>s'. delete_fat32 ops r s = Some (delete_code r (cluster_of (blocks (dev s))) (parent_table (cluster_of (blocks (dev s))) r), s')
    \<and> valid (dev s') \<and> mem s' = mem s
    \<and> tree_ok (fat_table s') (cluster_of (blocks (dev s')))
        (if delete_code r (cluster_of (blocks (dev s))) (parent_table (cluster_of (blocks (dev s))) r) = 0
         then S - {deleted_head r (cluster_of (blocks (dev s)))} else S)"
proof -
  let ?D = "cluster_of (blocks (dev s))"
  let ?t = "parent_table (cluster_of (blocks (dev s))) r"
  note ok = tree_parent_ok [OF tree p]
  note len = fat_wfD(1) [OF tree_okD(1) [OF tree]]
  show ?thesis
  proof (cases "find_entry (req_identifier r) ?t")
    case None
    from delete_not_found [OF v ok None] tree_ok_cong [OF tree] None show ?thesis by (auto simp: delete_code_def)
  next
    case (Some i)
    note l = tree_live [OF tree p length_req_identifier [OF r] Some]
    have h: "head_of ?D (unat (parent_cluster_number r)) i = deleted_head r ?D"
      by (simp add: deleted_head_def Some head_of_def parent_table_at [symmetric])
    have d: "is_dir ?D (unat (parent_cluster_number r)) i \<longleftrightarrow> attribute (?t ! i) = ATTR_SUBDIRECTORY"
      by (simp add: is_dir_def parent_table_at)
    show ?thesis
    proof (cases "attribute (?t ! i) = ATTR_SUBDIRECTORY \<and> \<not> dir_empty (decode_table (?D (unat (entry_cluster (?t ! i)))))")
      case True
      then have "delete_code r ?D ?t = 2" by (simp add: delete_code_def Some)
      with delete_occupied [OF v ok Some _ l(4)] True tree_ok_cong [OF tree] show ?thesis by auto
    next
      case False
      then have code: "delete_code r ?D ?t = 0" by (auto simp: delete_code_def Some)
      from l(3) obtain cs where cs: "fat_path (fat_table s) (entry_cluster (?t ! i)) cs" ..
      have empty: "dir_empty (table_at ?D (head_of ?D (unat (parent_cluster_number r)) i))"
        if "is_dir ?D (unat (parent_cluster_number r)) i"
        using False that d by (simp add: table_at_def h) (simp add: deleted_head_def Some)
      from delete_succeeds [OF v ok len Some code cs] tree_ok_deleted [OF tree p l(1) empty cs] code show ?thesis
        by (auto simp: h)
    qed
  qed
qed

text \<open>The code of \<open>read_directory\<close> for a valid parent: the buffer is to be of one cluster.\<close>

lemma tree_read_directory:
  assumes v: "valid (dev s)" and tree: "tree_ok (fat_table s) (cluster_of (blocks (dev s))) S"
    and p: "unat (parent_cluster_number r) \<in> S" and r: "request_ok r"
  shows "\<exists>s'. read_directory ops r s = Some (if buffer_size r = of_nat CLUSTER_SIZE
        then read_directory_code r (parent_table (cluster_of (blocks (dev s))) r) else -1, s') \<and> valid (dev s') \<and> fat_table s' = fat_table s
    \<and> (\<forall>k<2048. cluster_of (blocks (dev s')) k = cluster_of (blocks (dev s)) k)"
proof (cases "buffer_size r = of_nat CLUSTER_SIZE")
  case False
  have "\<not> parent_cluster_number r < 2" using tree_parent_ok [OF tree p] by (simp add: parent_ok_def not_less)
  with False v show ?thesis by (simp add: read_directory_def)
next
  case size: True
  let ?D = "cluster_of (blocks (dev s))"
  note out = read_directory_run [OF v tree_parent_ok [OF tree p] size]
  show ?thesis
  proof (cases "read_directory_code r (parent_table ?D r) = 0")
    case True
    then obtain i where i: "find_entry (req_name r @ [0, 0, 0]) (parent_table ?D r) = Some i"
      by (auto simp: read_directory_code_def split: option.splits)
    have "length (req_name r @ [0, 0, 0]) = 11" using r by (simp add: request_ok_def)
    from out(2) [of i] i True tree_live(4) [OF tree p this i] show ?thesis by (auto simp: size)
  next
    case False
    with out(1) show ?thesis by (auto simp: size)
  qed
qed

end

end
