(* ===== verification/Inserter.thy ===== *)
theory Inserter imports Fat_Operations begin

text \<open>
  The external inserter, \<open>src/ch2/external-inserter/external-inserter.c\<close>: the host tool that links
  \<open>fat32.c\<close> with \<open>read_blocks\<close> and \<open>write_blocks\<close> on a 4 MiB image in memory. The image is a
  function from byte offsets; a \<open>memcpy\<close> that leaves the allocated image is a fault (\<open>None\<close>).
\<close>

type_synonym image = "nat \<Rightarrow> u8"

definition IMAGE_BYTES :: nat where
  [kernel_defs]: "IMAGE_BYTES = 4 * 1024 * 1024"

text \<open>\<open>BLOCK_SIZE*(logical_block_address+i)\<close> is 32-bit unsigned arithmetic.\<close>

definition image_offset :: "u32 \<Rightarrow> nat \<Rightarrow> nat" where
  "image_offset lba i = unat (512 * (lba + of_nat i))"

fun read_blocks_from :: "image \<Rightarrow> u32 \<Rightarrow> nat \<Rightarrow> nat \<Rightarrow> u8 list option" where
  "read_blocks_from img lba i 0 = Some []"
| "read_blocks_from img lba i (Suc k) =
     (let off = image_offset lba i in
      if off + 512 \<le> IMAGE_BYTES
      then map_option (\<lambda>rest. slice img off 512 @ rest) (read_blocks_from img lba (Suc i) k)
      else None)"

definition read_blocks :: "u32 \<Rightarrow> u8 \<Rightarrow> image \<Rightarrow> (u8 list \<times> image) option" where
  "read_blocks lba block_count img =
     map_option (\<lambda>bs. (bs, img)) (read_blocks_from img lba 0 (unat block_count))"

text \<open>One \<open>memcpy\<close> of 512 bytes from the caller's buffer into the image.\<close>

definition image_store :: "image \<Rightarrow> nat \<Rightarrow> u8 list \<Rightarrow> image" where
  "image_store img off bs = (\<lambda>j. if off \<le> j \<and> j < off + 512 then bs ! (j - off) else img j)"

fun write_blocks_from :: "u8 list \<Rightarrow> u32 \<Rightarrow> nat \<Rightarrow> nat \<Rightarrow> image \<Rightarrow> image option" where
  "write_blocks_from bs lba i 0 img = Some img"
| "write_blocks_from bs lba i (Suc k) img =
     (let off = image_offset lba i in
      if off + 512 \<le> IMAGE_BYTES \<and> 512 * i + 512 \<le> length bs
      then write_blocks_from bs lba (Suc i) k (image_store img off (drop (512 * i) bs))
      else None)"

definition write_blocks :: "u8 list \<Rightarrow> u32 \<Rightarrow> u8 \<Rightarrow> image \<Rightarrow> image option" where
  "write_blocks bs lba block_count img = write_blocks_from bs lba 0 (unat block_count) img"

definition image_ops :: "image block_ops" where
  "image_ops = \<lparr>read_blocks_op = read_blocks, write_blocks_op = write_blocks\<rparr>"

definition image_block :: "image \<Rightarrow> nat \<Rightarrow> u8 list" where
  "image_block img i = slice img (512 * i) 512"

subsection \<open>The image is a block device\<close>

lemma image_offset_eq: "unat lba + i < DISK_BLOCKS \<Longrightarrow> image_offset lba i = 512 * (unat lba + i)"
  by (simp add: image_offset_def DISK_BLOCKS_def unat_word_ariths unat_of_nat_u32)

lemma read_blocks_from_eq:
  "unat lba + i + k \<le> DISK_BLOCKS \<Longrightarrow>
   read_blocks_from img lba i k = Some (concat (map (image_block img) [unat lba + i..<unat lba + i + k]))"
proof (induction k arbitrary: i)
  case (Suc k)
  then have IH: "read_blocks_from img lba (Suc i) k
      = Some (concat (map (image_block img) [unat lba + Suc i..<unat lba + Suc i + k]))"
    by (intro Suc.IH) simp
  have off: "image_offset lba i = 512 * (unat lba + i)"
    using Suc.prems by (intro image_offset_eq) simp
  have "512 * (unat lba + i) + 512 \<le> IMAGE_BYTES"
    using Suc.prems by (simp add: DISK_BLOCKS_def IMAGE_BYTES_def)
  with IH off show ?case
    by (simp add: image_block_def [of _ "unat lba + i"] upt_conv_Cons [of "unat lba + i"] del: upt_Suc)
qed simp

lemma image_block_store_same: "512 \<le> length bs \<Longrightarrow> image_block (image_store img (512 * b) bs) b = take 512 bs"
proof (rule nth_equalityI)
  fix j assume "512 \<le> length bs" and "j < length (image_block (image_store img (512 * b) bs) b)"
  then have "j < 512" by (simp add: image_block_def)
  then show "image_block (image_store img (512 * b) bs) b ! j = take 512 bs ! j"
    by (simp add: image_block_def image_store_def)
qed (simp add: image_block_def)

lemma image_block_store_other: "i \<noteq> b \<Longrightarrow> image_block (image_store img (512 * b) bs) i = image_block img i"
  unfolding image_block_def
proof (rule slice_cong)
  fix j :: nat assume "i \<noteq> b" and "j < 512"
  then have "512 * b \<le> 512 * i + j \<Longrightarrow> 512 * i + j < 512 * b + 512 \<Longrightarrow> False" by linarith
  then have "(512 * b \<le> 512 * i + j \<and> 512 * i + j < 512 * b + 512) = False" by blast
  then show "image_store img (512 * b) bs (512 * i + j) = img (512 * i + j)"
    by (simp only: image_store_def if_False)
qed

lemma write_blocks_from_eq:
  "unat lba + i + k \<le> DISK_BLOCKS \<Longrightarrow> 512 * (i + k) \<le> length bs \<Longrightarrow>
   \<exists>img'. write_blocks_from bs lba i k img = Some img' \<and>
     (\<forall>j. image_block img' j =
        (if unat lba + i \<le> j \<and> j < unat lba + i + k then take 512 (drop (512 * (j - unat lba)) bs) else image_block img j))"
proof (induction k arbitrary: i img)
  case (Suc k)
  let ?img = "image_store img (512 * (unat lba + i)) (drop (512 * i) bs)"
  have off: "image_offset lba i = 512 * (unat lba + i)"
    using Suc.prems by (intro image_offset_eq) simp
  have fits: "512 * (unat lba + i) + 512 \<le> IMAGE_BYTES" "512 * i + 512 \<le> length bs"
    using Suc.prems by (simp_all add: DISK_BLOCKS_def IMAGE_BYTES_def)
  from Suc.prems obtain img' where run: "write_blocks_from bs lba (Suc i) k ?img = Some img'"
    and img': "\<And>j. image_block img' j = (if unat lba + Suc i \<le> j \<and> j < unat lba + Suc i + k
       then take 512 (drop (512 * (j - unat lba)) bs) else image_block ?img j)"
    using Suc.IH [of "Suc i" ?img] by auto
  have "image_block ?img j = (if j = unat lba + i then take 512 (drop (512 * i) bs) else image_block img j)" for j
    using fits(2) by (cases "j = unat lba + i") (simp_all add: image_block_store_same image_block_store_other del: distrib_left_numeral)
  then have "image_block img' j = (if unat lba + i \<le> j \<and> j < unat lba + i + Suc k
      then take 512 (drop (512 * (j - unat lba)) bs) else image_block img j)" for j
    by (auto simp: img')
  with run off fits show ?case by (simp add: Let_def)
qed auto

lemma length_read_blocks_from: "read_blocks_from img lba i k = Some bs \<Longrightarrow> length bs = 512 * k"
  by (induction img lba i k arbitrary: bs rule: read_blocks_from.induct) (auto simp: Let_def split: if_splits)

interpretation img_sized: sized_device image_ops
  by standard (auto simp: image_ops_def read_blocks_def dest!: length_read_blocks_from)

interpretation img: block_device image_ops image_block "\<lambda>_. True"
proof
  fix d i show "length (image_block d i) = 512" by (simp add: image_block_def)
next
  fix d :: image and lba :: u32 and n :: u8 assume "n \<noteq> 0" and "unat lba + unat n \<le> DISK_BLOCKS"
  then show "\<exists>d'. read_blocks_op image_ops lba n d = Some (concat (map (image_block d) [unat lba..<unat lba + unat n]), d')
      \<and> True \<and> (\<forall>i<DISK_BLOCKS. image_block d' i = image_block d i)"
    using read_blocks_from_eq [of lba 0 "unat n" d] by (simp add: image_ops_def read_blocks_def)
next
  fix d :: image and lba :: u32 and n :: u8 and bs :: "u8 list"
  assume "n \<noteq> 0" and "unat lba + unat n \<le> DISK_BLOCKS" and "length bs = 512 * unat n"
  then show "\<exists>d'. write_blocks_op image_ops bs lba n d = Some d' \<and> True \<and> (\<forall>i<DISK_BLOCKS. image_block d' i =
      (if unat lba \<le> i \<and> i < unat lba + unat n then take 512 (drop (512 * (i - unat lba)) bs) else image_block d i))"
    using write_blocks_from_eq [of lba 0 "unat n" bs d] by (auto simp: image_ops_def write_blocks_def)
qed

end
