(* ===== verification/Fat_System.thy ===== *)
theory Fat_System imports Inserter begin

text \<open>
  The driver linked with the image of the external inserter, as a transition system over sequences
  of requests.
\<close>

abbreviation disk :: "image fs_state \<Rightarrow> nat \<Rightarrow> u8 list" where
  "disk s \<equiv> cluster_of (image_block (dev s))"

text \<open>
  \<open>fs_reach protocol s S\<close>: the driver can be in state \<open>s\<close>, with the directories \<open>S\<close>, after formatting and any
  sequence of requests to directories of \<open>S\<close> in which every \<open>write\<close> follows the \<open>protocol\<close>; between requests the
  caller's memory may change. The driver enforces no protocol: callers are trusted with \<open>good_write\<close>.
\<close>

inductive fs_reach :: "(FAT32DriverRequest \<Rightarrow> (nat \<Rightarrow> u8 list) \<Rightarrow> memory \<Rightarrow> bool) \<Rightarrow> image fs_state \<Rightarrow> nat set \<Rightarrow> bool"
  for protocol where
  format: "image_block (dev s0) 0 \<noteq> fs_signature \<Longrightarrow> initialize_filesystem_fat32 image_ops s0 = Some s \<Longrightarrow> fs_reach protocol s {2}"
| caller: "fs_reach protocol s S \<Longrightarrow> fs_reach protocol (s\<lparr>mem := m\<rparr>) S"
| writing: "fs_reach protocol s S \<Longrightarrow> unat (parent_cluster_number r) \<in> S \<Longrightarrow> request_ok r \<Longrightarrow> protocol r (disk s) (mem s) \<Longrightarrow>
    write_fat32 image_ops r s = Some (c, s') \<Longrightarrow> fs_reach protocol s' (if c = 0 then grown r (fat_table s) S else S)"
| deleting: "fs_reach protocol s S \<Longrightarrow> unat (parent_cluster_number r) \<in> S \<Longrightarrow> request_ok r \<Longrightarrow>
    delete_fat32 image_ops r s = Some (c, s') \<Longrightarrow> fs_reach protocol s' (if c = 0 then S - {deleted_head r (disk s)} else S)"
| reading: "fs_reach protocol s S \<Longrightarrow> unat (parent_cluster_number r) \<in> S \<Longrightarrow> request_ok r \<Longrightarrow>
    read_fat32 image_ops r s = Some (c, s') \<Longrightarrow> fs_reach protocol s' S"
| listing: "fs_reach protocol s S \<Longrightarrow> unat (parent_cluster_number r) \<in> S \<Longrightarrow> request_ok r \<Longrightarrow>
    read_directory image_ops r s = Some (c, s') \<Longrightarrow> fs_reach protocol s' S"

lemma reach_tree: "fs_reach good_write s S \<Longrightarrow> tree_ok (fat_table s) (disk s) S"
proof (induction rule: fs_reach.induct)
  case (format s0 s)
  with img.initialize_ok [of s0] show ?case by (auto intro!: tree_ok_formatted)
next
  case (writing s S r c s')
  with img.tree_write [OF TrueI writing.IH writing.hyps(2,3,4)] show ?case by auto
next
  case (deleting s S r c s')
  with img.tree_delete [OF TrueI deleting.IH deleting.hyps(2,3)] show ?case by auto
next
  case (reading s S r c s')
  with img.tree_read [OF TrueI reading.IH reading.hyps(2,3)] show ?case by (auto intro: tree_ok_cong)
next
  case (listing s S r c s')
  with img.tree_read_directory [OF TrueI listing.IH listing.hyps(2,3)] show ?case by (auto intro: tree_ok_cong)
qed simp

end
