(* ===== verification/Fat_Example.thy ===== *)
theory Fat_Example imports Fat_System begin

text \<open>
  A concrete run of the driver on the inserter's image, used to show that the hypotheses of the
  properties can hold: a blank image, formatted; then a 100-byte file written to the root directory.
\<close>

definition blank :: "memory \<Rightarrow> image fs_state" where
  "blank m = \<lparr>fat_table = [], dir_table_buf = [], cluster_buf = [], mem = m, dev = (\<lambda>_. 0)\<rparr>"

definition formatted :: "memory \<Rightarrow> image fs_state" where
  "formatted m = the (initialize_filesystem_fat32 image_ops (blank m))"

definition hello :: FAT32DriverRequest where
  "hello = \<lparr>buf = 0x1000, req_name = ascii ''hello'' @ [0, 0, 0], req_ext = ascii ''txt'',
     parent_cluster_number = 2, buffer_size = 100\<rparr>"

definition with_hello :: "memory \<Rightarrow> image fs_state" where
  "with_hello m = snd (the (write_fat32 image_ops hello (formatted m)))"

text \<open>A caller's memory in which every 2048-byte chunk has its own byte.\<close>

definition sample :: memory where
  "sample = (\<lambda>a. ucast (drop_bit 11 a))"

section \<open>The formatted image\<close>

lemma blank_not_signed: "image_block (dev (blank m)) 0 \<noteq> fs_signature"
proof
  assume "image_block (dev (blank m)) 0 = fs_signature"
  then have "image_block (dev (blank m)) 0 ! 0 = fs_signature ! 0" by simp
  then show False by (simp add: image_block_def blank_def fs_signature_def ascii_def)
qed

lemma formatted_facts:
  "initialize_filesystem_fat32 image_ops (blank m) = Some (formatted m)"
  "mem (formatted m) = m" "fat_table (formatted m) = fresh_fat"
  "dir_table_buf (formatted m) = root_directory_table"
  "disk (formatted m) 1 = encode_fat fresh_fat" "disk (formatted m) 2 = encode_table root_directory_table"
  "image_block (dev (formatted m)) 0 = fs_signature"
proof -
  from img.initialize_ok [OF TrueI, of "blank m"] obtain s where
    s: "initialize_filesystem_fat32 image_ops (blank m) = Some s" "mem s = mem (blank m)" "fat_table s = fresh_fat"
      "dir_table_buf s = root_directory_table" "disk s 1 = encode_fat fresh_fat"
      "disk s 2 = encode_table root_directory_table" "image_block (dev s) 0 = fs_signature"
    using blank_not_signed [of m] by auto
  then have "formatted m = s" by (simp add: formatted_def)
  with s show "initialize_filesystem_fat32 image_ops (blank m) = Some (formatted m)"
    "mem (formatted m) = m" "fat_table (formatted m) = fresh_fat" "dir_table_buf (formatted m) = root_directory_table"
    "disk (formatted m) 1 = encode_fat fresh_fat" "disk (formatted m) 2 = encode_table root_directory_table"
    "image_block (dev (formatted m)) 0 = fs_signature"
    by (simp_all add: blank_def)
qed

lemma formatted_reach: "fs_reach protocol (formatted m) {2}"
  using blank_not_signed formatted_facts(1) by (rule format)

lemma formatted_fs_ok: "fs_ok fresh_fat (disk (formatted m))"
  using tree_fs_ok [OF reach_tree [OF formatted_reach [of good_write m]]] by (simp add: formatted_facts)

lemma formatted_table: "unat (parent_cluster_number r) = 2 \<Longrightarrow> parent_table (disk (formatted m)) r = root_directory_table"
  by (simp add: parent_table_def formatted_facts root_directory_table_ok)

lemma formatted_parent: "parent_ok fresh_fat (disk (formatted m)) 2"
  using tree_parent_ok [OF reach_tree [OF formatted_reach [of good_write m]], of 2] by (simp add: formatted_facts)

lemma root_no_match: "2 \<le> i \<Longrightarrow> i < DIR_ENTRIES \<Longrightarrow> \<not> entry_matches ident (root_directory_table ! i)"
  by (simp add: entry_matches_def root_entry_unused UATTR_NOT_EMPTY_def)

lemma root_find: "find_entry ident root_directory_table = None" "find_empty_slot root_directory_table = Some 2"
  by (simp_all add: find_entry_def find_empty_slot_def scan_iff root_no_match root_entry_unused UATTR_NOT_EMPTY_def DIR_ENTRIES_def)

lemma root_slot: "root_directory_table ! 2 = zero_entry"
  by (simp add: root_directory_table_def)

lemma fresh_free: "free_clusters fresh_fat = [3..<512]"
proof -
  have "free_clusters fresh_fat = filter (\<lambda>i. fresh_fat ! i = FAT32_FAT_EMPTY_ENTRY) (2 # [3..<512])"
    by (simp add: free_clusters_def CLUSTER_MAP_SIZE_def upt_rec [of 2])
  also have "\<dots> = filter (\<lambda>i. fresh_fat ! i = FAT32_FAT_EMPTY_ENTRY) [3..<512]"
    by (simp add: fresh_fat_nth CLUSTER_MAP_SIZE_def)
  also have "\<dots> = [3..<512]"
    by (rule filter_True) (simp add: fresh_fat_nth CLUSTER_MAP_SIZE_def)
  finally show ?thesis .
qed

lemma root_write_code: "clusters_written r \<le> 509 \<Longrightarrow> write_code r fresh_fat root_directory_table = 0"
  by (simp add: write_code_def root_find fresh_free)

lemma formatted_write_result:
  "parent_cluster_number r = 2 \<Longrightarrow> clusters_written r \<le> 509 \<Longrightarrow> write_result r fresh_fat (disk (formatted m)) = 0"
  by (simp add: write_result_def formatted_parent formatted_table root_write_code)

section \<open>A file in the root directory\<close>

lemma hello_ok: "request_ok hello" "parent_cluster_number hello = 2" "clusters_written hello = 1"
  "buffer_size hello = 100"
  by (simp_all add: hello_def request_ok_def clusters_written_def CLUSTER_SIZE_def)

lemma hello_identifier: "length (req_identifier hello) = 11"
  by (rule length_req_identifier [OF hello_ok(1)])

lemma hello_good: "good_write hello (disk (formatted m)) m'"
  by (simp add: good_write_def hello_ok formatted_table root_find root_slot zero_entry_def ATTR_SUBDIRECTORY_def)

text \<open>The root table, the FAT and the clusters with the file.\<close>

abbreviation hello_table :: dir_table where
  "hello_table \<equiv> written_table hello fresh_fat root_directory_table"

abbreviation hello_fat :: fat_map where
  "hello_fat \<equiv> linked_fat fresh_fat (Suc 0)"

lemma with_hello_facts:
  "write_fat32 image_ops hello (formatted m) = Some (0, with_hello m)"
  "mem (with_hello m) = m" "fat_table (with_hello m) = hello_fat"
  "k < 2048 \<Longrightarrow> disk (with_hello m) k = written_disk hello fresh_fat m (disk (formatted m)) k"
proof -
  have "parent_ok (fat_table (formatted m)) (disk (formatted m)) (parent_cluster_number hello)"
    by (simp add: formatted_facts formatted_parent hello_ok)
  moreover have "write_code hello (fat_table (formatted m)) (parent_table (disk (formatted m)) hello) = 0"
    by (simp add: formatted_facts formatted_table hello_ok root_write_code)
  moreover have "length (fat_table (formatted m)) = CLUSTER_MAP_SIZE" by (simp add: formatted_facts length_fresh_fat)
  ultimately obtain s where s: "write_fat32 image_ops hello (formatted m) = Some (0, s)" "mem s = m" "fat_table s = hello_fat"
    "\<forall>k<2048. disk s k = written_disk hello fresh_fat m (disk (formatted m)) k"
    using img.write_succeeds [OF TrueI _ _ hello_ok(1), of "formatted m"] by (auto simp: formatted_facts hello_ok)
  then have "with_hello m = s" by (simp add: with_hello_def)
  with s show "write_fat32 image_ops hello (formatted m) = Some (0, with_hello m)"
    "mem (with_hello m) = m" "fat_table (with_hello m) = hello_fat"
    "k < 2048 \<Longrightarrow> disk (with_hello m) k = written_disk hello fresh_fat m (disk (formatted m)) k"
    by simp_all
qed

lemma with_hello_reach: "fs_reach good_write (with_hello m) {2}"
  using writing [where protocol = good_write and r = hello, OF formatted_reach _ hello_ok(1) hello_good with_hello_facts(1)]
  by (simp add: hello_ok grown_def)

lemma with_hello_table:
  "parent_cluster_number r = 2 \<Longrightarrow> parent_table (disk (with_hello m)) r = hello_table"
  using table_ok_written [OF hello_ok(1) root_directory_table_ok]
  by (simp add: parent_table_def with_hello_facts written_disk_def hello_ok formatted_facts root_directory_table_ok)

lemma with_hello_parent: "parent_ok hello_fat (disk (with_hello m)) 2"
  using tree_parent_ok [OF reach_tree [OF with_hello_reach [of m]], of 2] by (simp add: with_hello_facts)

lemma hello_found: "find_entry (req_identifier hello) hello_table = Some 2"
  using find_entry_written [OF root_directory_table_ok hello_ok(1), of fresh_fat]
  by (simp add: root_write_code hello_ok root_find)

lemma hello_entry: "hello_table ! 2 = written_entry hello fresh_fat 1 zero_entry"
  using written_table_slot [OF root_directory_table_ok, of hello fresh_fat]
  by (simp add: root_write_code hello_ok root_find root_slot)

lemma hello_chain: "fat_path hello_fat 3 [3]"
  using linked_fat_path [of fresh_fat 1] by (simp add: written_chain_def fresh_free length_fresh_fat)

lemma hello_used: "used hello_fat 3"
  using linked_chain_head [OF fat_wf_fresh, of 1] by (simp add: chain_head_def fresh_free)

text \<open>A directory request whose buffer is no directory table, unless the caller made it one.\<close>

definition docs :: FAT32DriverRequest where
  "docs = \<lparr>buf = 0x1000, req_name = ascii ''docs'' @ [0, 0, 0, 0], req_ext = [0, 0, 0], parent_cluster_number = 2, buffer_size = 0\<rparr>"

lemma docs_ok: "request_ok docs" "parent_cluster_number docs = 2" "clusters_written docs = 1" "buffer_size docs = 0" "buf docs = 0x1000"
  by (simp_all add: docs_def request_ok_def clusters_written_def)

lemma docs_written:
  obtains s where "write_fat32 image_ops docs (formatted m) = Some (0, s)" and "mem s = m"
    and "parent_ok (fat_table s) (disk s) 2" and "find_entry (req_identifier docs) (parent_table (disk s) docs) = Some 2"
    and "attribute (parent_table (disk s) docs ! 2) = ATTR_SUBDIRECTORY" and "entry_cluster (parent_table (disk s) docs ! 2) = 3"
    and "disk s 3 = mem_read m 0x1000 CLUSTER_SIZE" and "fat_table s ! 9 = FAT32_FAT_EMPTY_ENTRY"
proof -
  let ?D = "disk (formatted m)" and ?t = "written_table docs fresh_fat root_directory_table"
  have ok: "parent_ok fresh_fat ?D (parent_cluster_number docs)" using formatted_parent by (simp add: docs_ok)
  have t: "parent_table ?D docs = root_directory_table" by (simp add: formatted_table docs_ok)
  have code: "write_code docs fresh_fat root_directory_table = 0" by (simp add: root_write_code docs_ok)
  have len: "length (fat_table (formatted m)) = CLUSTER_MAP_SIZE" by (simp add: formatted_facts length_fresh_fat)
  from img.write_succeeds [OF TrueI _ len docs_ok(1), of ] ok code obtain s where
    s: "write_fat32 image_ops docs (formatted m) = Some (0, s)" "mem s = m" "fat_table s = linked_fat fresh_fat 1"
    and D: "\<forall>k<2048. disk s k = written_disk docs fresh_fat m ?D k"
    by (auto simp: formatted_facts t docs_ok)
  have p: "disk s 2 = encode_table ?t" using D written_disk_parent [of docs fresh_fat m ?D] by (simp add: t docs_ok)
  then have tab: "parent_table (disk s) docs = ?t"
    using table_ok_written [OF docs_ok(1) root_directory_table_ok] by (simp add: parent_table_def docs_ok)
  have e: "?t ! 2 = written_entry docs fresh_fat 1 zero_entry"
    using written_table_slot [OF root_directory_table_ok code] by (simp add: docs_ok root_find root_slot)
  show thesis
  proof (rule that [OF s(1,2)])
    show "parent_ok (fat_table s) (disk s) 2"
      using parent_ok_written [OF fat_wf_fresh ok docs_ok(1)] p by (simp add: t code docs_ok s(3) root_directory_table_ok)
    show "find_entry (req_identifier docs) (parent_table (disk s) docs) = Some 2"
      using find_entry_written [OF root_directory_table_ok docs_ok(1) code] by (simp add: tab root_find)
    show "attribute (parent_table (disk s) docs ! 2) = ATTR_SUBDIRECTORY" "entry_cluster (parent_table (disk s) docs ! 2) = 3"
      by (simp_all add: tab e docs_ok fresh_free)
    have "disk s 3 = written_disk docs fresh_fat m ?D (free_clusters fresh_fat ! 0)" using D by (simp add: fresh_free)
    also have "\<dots> = buffer_chunk docs m 0"
      using written_disk_chain [OF fat_wf_fresh ok, of 0] by (simp add: docs_ok fresh_free)
    finally show "disk s 3 = mem_read m 0x1000 CLUSTER_SIZE" by (simp add: buffer_chunk_def docs_ok)
    have "9 \<notin> set (written_chain fresh_fat 1)" by (simp add: written_chain_def fresh_free)
    then show "fat_table s ! 9 = FAT32_FAT_EMPTY_ENTRY"
      using linked_fat_other [of 9 fresh_fat 1] by (simp add: s(3) fresh_free fresh_fat_nth CLUSTER_MAP_SIZE_def)
  qed
qed

text \<open>A second file beside it.\<close>

definition other_file :: FAT32DriverRequest where
  "other_file = hello\<lparr>req_ext := [1, 2, 3]\<rparr>"

lemma other_file_ok: "request_ok other_file" "parent_cluster_number other_file = 2" "clusters_written other_file = 1"
  by (simp_all add: other_file_def hello_def request_ok_def clusters_written_def CLUSTER_SIZE_def)

lemma hello_table_other: "i \<noteq> 2 \<Longrightarrow> hello_table ! i = root_directory_table ! i"
  by (simp add: written_table_def root_find)

lemma hello_free: "free_clusters hello_fat = [4..<512]"
proof -
  have chain: "written_chain fresh_fat (Suc 0) = [3]" by (simp add: written_chain_def fresh_free)
  have same: "hello_fat ! i = fresh_fat ! i" if "i \<noteq> 3" for i
    using linked_fat_other [of i fresh_fat 1] that by (simp add: chain) (simp add: fresh_free)
  have two: "hello_fat ! 2 \<noteq> FAT32_FAT_EMPTY_ENTRY" by (simp add: same fresh_fat_nth CLUSTER_MAP_SIZE_def)
  have "free_clusters hello_fat = filter (\<lambda>i. hello_fat ! i = FAT32_FAT_EMPTY_ENTRY) (2 # 3 # [4..<512])"
    by (simp add: free_clusters_def CLUSTER_MAP_SIZE_def upt_rec [of 2] upt_rec [of 3])
  also have "\<dots> = filter (\<lambda>i. hello_fat ! i = FAT32_FAT_EMPTY_ENTRY) [4..<512]"
    using two hello_used by (simp only: filter.simps used_def if_False)
  also have "\<dots> = [4..<512]"
    by (intro filter_True) (simp add: same fresh_fat_nth CLUSTER_MAP_SIZE_def)
  finally show ?thesis .
qed

lemma hello_slot: "find_empty_slot hello_table = Some 3"
proof -
  have "user_attribute (hello_table ! j) = UATTR_NOT_EMPTY" if "2 \<le> j" "j < 3" for j
  proof -
    have "j = 2" using that by simp
    then show ?thesis by (simp add: hello_entry)
  qed
  then show ?thesis
    by (auto simp: find_empty_slot_def scan_Some_iff hello_table_other root_entry_unused UATTR_NOT_EMPTY_def DIR_ENTRIES_def)
qed

lemma second_file_code:
  assumes "request_ok r" and "req_identifier r \<noteq> req_identifier hello" and "clusters_written r \<le> 508"
  shows "write_code r hello_fat hello_table = 0"
proof -
  have "\<not> entry_matches (req_identifier r) (hello_table ! 2)"
    using assms(2) unfolding hello_entry entry_matches_iff [OF length_req_identifier [OF assms(1)] written_entry_ok [OF hello_ok(1)]]
    by (auto simp: req_identifier_def)
  then have "\<not> entry_matches (req_identifier r) (hello_table ! i)" if "2 \<le> i" "i < DIR_ENTRIES" for i
    using that root_no_match hello_table_other by (cases "i = 2") auto
  then have "find_entry (req_identifier r) hello_table = None" by (simp add: find_entry_def scan_None_iff)
  then show ?thesis using assms(3) by (simp add: write_code_def hello_slot hello_free)
qed

lemma other_file_code: "write_code other_file hello_fat hello_table = 0"
  by (rule second_file_code)
    (simp_all add: other_file_ok, simp add: other_file_def hello_def req_identifier_def ascii_def)

end
