(* ===== verification/Fat_Properties.thy ===== *)
theory Fat_Properties imports Fat_Example begin

text \<open>
  The properties of the FAT32 driver, stated on the driver linked with the inserter's image
  (\<open>image_ops\<close>). \<open>disk s k\<close> is cluster \<open>k\<close> of the image in state \<open>s\<close>. Each is an instance of what is
  proved once for every block device.
\<close>

section \<open>Sequences of requests\<close>

text \<open>
  C1. After formatting and any sequence of requests in directories of the tree in which every \<open>write\<close> follows
  the caller protocol \<open>good_write\<close> (a directory request brings an empty directory table, a file does not reuse
  the slot of a deleted directory), with deletes, reads and listings as they come, the file system is
  well-formed: the FAT on disk is the cached one, every used cluster starts a chain that ends, no two chains
  merge, every entry in use owns a chain of its own and is a directory exactly when the tree says so, and
  names are unique in each directory. The driver does not enforce the protocol; \<open>protocol_needed\<close> below shows
  that the property fails without it.
\<close>

theorem reachable_well_formed:
  assumes "fs_reach good_write s S"
  shows "tree_ok (fat_table s) (disk s) S"
  using assms by (rule reach_tree)

theorem reachable_well_formed_witness: "tree_ok hello_fat (disk (with_hello sample)) {2}"
  using reachable_well_formed [OF with_hello_reach [of sample]] by (simp add: with_hello_facts)

text \<open>
  Without the protocol the tree breaks: the request of \<open>docs\<close> with a buffer of zeros is accepted and makes a
  directory that is none.
\<close>

theorem protocol_needed: "\<exists>s S. fs_reach (\<lambda>_ _ _. True) s S \<and> \<not> tree_ok (fat_table s) (disk s) S"
proof -
  let ?m = "\<lambda>_ :: u32. 0 :: u8"
  from docs_written [of ?m] obtain s where w: "write_fat32 image_ops docs (formatted ?m) = Some (0, s)"
    and c: "disk s 3 = mem_read ?m 0x1000 CLUSTER_SIZE" by blast
  have "fs_reach (\<lambda>_ _ _. True) s (grown docs fresh_fat {2})"
    using writing [where protocol = "\<lambda>_ _ _. True" and r = docs, OF formatted_reach _ docs_ok(1) TrueI w] by (simp add: docs_ok formatted_facts)
  moreover have "\<not> tree_ok (fat_table s) (disk s) (grown docs fresh_fat {2})"
  proof
    assume "tree_ok (fat_table s) (disk s) (grown docs fresh_fat {2})"
    from tree_parent_ok [OF this, of 3] have "attribute (decode_table (disk s 3) ! 0) = ATTR_SUBDIRECTORY"
      by (simp add: grown_def docs_ok fresh_free parent_ok_def)
    moreover have "decode_table bs ! 0 = decode_entry (take 32 bs)" for bs
    proof -
      have d: "DIR_ENTRIES = Suc 63" by (simp add: DIR_ENTRIES_def)
      show ?thesis unfolding decode_table_def d chunks.simps by simp
    qed
    ultimately show False by (simp add: c decode_entry_def CLUSTER_SIZE_def ATTR_SUBDIRECTORY_def)
  qed
  ultimately show ?thesis by blast
qed

text \<open>
  C26. In a state reached by requests whose writes follow the caller protocol \<open>good_write\<close>, \<open>read\<close> of any name
  in a directory of the tree returns (its loop over the chain ends): it answers 3 for a missing name, 1 for a directory, 2 for a buffer smaller than the
  file, 0 otherwise, and changes neither the FAT nor any cluster.
\<close>

theorem reachable_read_returns:
  assumes "fs_reach good_write s S" and "unat (parent_cluster_number r) \<in> S" and "request_ok r"
  shows "\<exists>s'. read_fat32 image_ops r s = Some (read_code r (parent_table (disk s) r), s')
    \<and> fat_table s' = fat_table s \<and> (\<forall>k<2048. disk s' k = disk s k)"
  using img.tree_read [OF TrueI reach_tree [OF assms(1)] assms(2,3)] by blast

theorem reachable_read_returns_witness:
  "\<exists>s'. read_fat32 image_ops hello (formatted (\<lambda>_. 0)) = Some (3, s')
    \<and> fat_table s' = fresh_fat \<and> (\<forall>k<2048. disk s' k = disk (formatted (\<lambda>_. 0)) k)"
  using reachable_read_returns [OF formatted_reach [of good_write "\<lambda>_. 0"], of hello] hello_ok
  by (simp add: formatted_facts formatted_table read_code_def root_find)

text \<open>
  In such a state, \<open>delete\<close> returns: 1 for a missing name, 2 for a directory that is not
  empty, 0 otherwise; the tree stays well-formed, and a deleted directory leaves it.
\<close>

theorem reachable_delete:
  assumes "fs_reach good_write s S" and "unat (parent_cluster_number r) \<in> S" and "request_ok r"
  shows "\<exists>s'. delete_fat32 image_ops r s = Some (delete_code r (disk s) (parent_table (disk s) r), s') \<and> mem s' = mem s
    \<and> tree_ok (fat_table s') (disk s')
        (if delete_code r (disk s) (parent_table (disk s) r) = 0 then S - {deleted_head r (disk s)} else S)"
  using img.tree_delete [OF TrueI reach_tree [OF assms(1)] assms(2,3)] by blast

theorem reachable_delete_witness:
  "\<exists>s'. delete_fat32 image_ops hello (with_hello (\<lambda>_. 0)) = Some (0, s')
    \<and> tree_ok (fat_table s') (disk s') ({2} - {3})"
proof -
  have code: "delete_code hello (disk (with_hello (\<lambda>_. 0))) (parent_table (disk (with_hello (\<lambda>_. 0))) hello) = 0"
    by (simp add: delete_code_def with_hello_table hello_ok hello_found hello_entry zero_entry_def ATTR_SUBDIRECTORY_def)
  have "deleted_head hello (disk (with_hello (\<lambda>_. 0))) = 3"
    by (simp add: deleted_head_def with_hello_table hello_ok hello_found hello_entry fresh_free)
  with code reachable_delete [OF with_hello_reach [of "\<lambda>_. 0"] _ hello_ok(1)] show ?thesis by (simp add: hello_ok) blast
qed

section \<open>Writing\<close>

text \<open>
  C8. The outcome of \<open>write\<close> on a well-formed storage, for any parent cluster inside the FAT: it
  returns 2 when the parent is not a directory, 1 when the name exists, -1 when the directory or the
  disk is full (counting one cluster more than the size divided by 2048), 0 otherwise. When the answer
  is not 0 neither the FAT nor any cluster changes; when it is 0 the FAT and every cluster are exactly
  the linked table and the written clusters. The storage stays well-formed.
\<close>

theorem write_outcome:
  assumes "fs_ok (fat_table s) (disk s)" and "request_ok r" and "unat (parent_cluster_number r) < CLUSTER_MAP_SIZE"
  shows "\<exists>s'. write_fat32 image_ops r s = Some (write_result r (fat_table s) (disk s), s')
    \<and> mem s' = mem s \<and> fs_ok (fat_table s') (disk s')
    \<and> (if write_result r (fat_table s) (disk s) = 0
       then fat_table s' = linked_fat (fat_table s) (clusters_written r)
         \<and> (\<forall>k<2048. disk s' k = written_disk r (fat_table s) (mem s) (disk s) k)
       else fat_table s' = fat_table s \<and> (\<forall>k<2048. disk s' k = disk s k))"
  using img.write_run [OF TrueI assms(3,2,1)] by auto

theorem write_outcome_witness:
  "\<exists>s'. write_fat32 image_ops hello (formatted (\<lambda>_. 0)) = Some (0, s') \<and> fs_ok (fat_table s') (disk s')
    \<and> fat_table s' = linked_fat fresh_fat 1"
  using write_outcome [of "formatted (\<lambda>_. 0)" hello] formatted_fs_ok [of "\<lambda>_. 0"] hello_ok
  by (auto simp: formatted_facts formatted_write_result CLUSTER_MAP_SIZE_def)

text \<open>
  C3. A file shorter than a cluster can be read back: after a successful \<open>write\<close> of such a file into a
  slot that was not a directory's, \<open>read\<close> of the same name with a buffer of at least one cluster
  answers 0 and stores at its buffer the 2048 bytes that stood at the written buffer.
\<close>

theorem write_then_read:
  assumes "fs_ok (fat_table s) (disk s)" and "request_ok r" and "write_result r (fat_table s) (disk s) = 0"
    and "0 < buffer_size r" and "buffer_size r < of_nat CLUSTER_SIZE"
    and "attribute (parent_table (disk s) r ! the (find_empty_slot (parent_table (disk s) r))) \<noteq> ATTR_SUBDIRECTORY"
    and "of_nat CLUSTER_SIZE \<le> n"
  shows "\<exists>s1 s2. write_fat32 image_ops r s = Some (0, s1)
    \<and> read_fat32 image_ops (r\<lparr>buf := b, buffer_size := n\<rparr>) s1 = Some (0, s2)
    \<and> mem s2 = mem_write (mem s) b (mem_read (mem s) (buf r) CLUSTER_SIZE)"
proof -
  have "unat (buffer_size r) < 2048" using assms(5) by (simp add: word_less_nat_alt CLUSTER_SIZE_def)
  then have one: "clusters_written r = 1" by (simp add: clusters_written_def CLUSTER_SIZE_def)
  have "buffer_size r \<noteq> 0" using assms(4) by auto
  from img.read_after_write [OF TrueI assms(2,1,3) this assms(6), of n b] assms(7) show ?thesis
    by (auto simp: one stored_bytes_single)
qed

theorem write_then_read_witness:
  "\<exists>s1 s2. write_fat32 image_ops hello (formatted sample) = Some (0, s1)
    \<and> read_fat32 image_ops (hello\<lparr>buf := 0x9000, buffer_size := 4096\<rparr>) s1 = Some (0, s2)
    \<and> mem s2 = mem_write sample 0x9000 (mem_read sample (buf hello) CLUSTER_SIZE)"
  using write_then_read [of "formatted sample" hello 4096 "0x9000"] formatted_fs_ok [of sample] hello_ok
  by (simp add: formatted_facts formatted_write_result formatted_table root_find root_slot zero_entry_def ATTR_SUBDIRECTORY_def
      CLUSTER_SIZE_def)

text \<open>
  C4. A file of at least one cluster loses data: \<open>write\<close> of \<open>n \<ge> 2\<close> chunks answers 0 and records the
  size \<open>n * 2048\<close>, but reading the file back stores only the \<open>\<lceil>n/2\<rceil>\<close> chunks with the numbers
  \<open>1, 3, 5, ...\<close> and \<open>n - 1\<close>, because the search for the next free cluster finds the one just written
  still marked empty. In particular chunk 0 is lost: what is read starts with chunk 1.
\<close>

theorem large_write_keeps_half:
  assumes "fs_ok (fat_table s) (disk s)" and "request_ok r" and "write_result r (fat_table s) (disk s) = 0"
    and "of_nat CLUSTER_SIZE \<le> buffer_size r"
    and "attribute (parent_table (disk s) r ! the (find_empty_slot (parent_table (disk s) r))) \<noteq> ATTR_SUBDIRECTORY"
    and "of_nat (clusters_written r * CLUSTER_SIZE) \<le> n"
  shows "\<exists>s1 s2 bs. write_fat32 image_ops r s = Some (0, s1)
    \<and> read_fat32 image_ops (r\<lparr>buf := b, buffer_size := n\<rparr>) s1 = Some (0, s2)
    \<and> mem s2 = mem_write (mem s) b bs
    \<and> bs = concat (map (\<lambda>k. mem_read (mem s) (buf r + of_nat (min (2 * k + 1) (clusters_written r - 1) * CLUSTER_SIZE)) CLUSTER_SIZE)
             [0..<(clusters_written r + 1) div 2])
    \<and> take CLUSTER_SIZE bs = mem_read (mem s) (buf r + of_nat CLUSTER_SIZE) CLUSTER_SIZE"
proof -
  have "2048 \<le> unat (buffer_size r)" using assms(4) by (simp add: word_le_nat_alt CLUSTER_SIZE_def)
  then have two: "2 \<le> clusters_written r" and nz: "buffer_size r \<noteq> 0" by (auto simp: clusters_written_def CLUSTER_SIZE_def)
  from img.read_after_write [OF TrueI assms(2,1,3) nz assms(5,6), of b] obtain s1 s2 where
    w: "write_fat32 image_ops r s = Some (0, s1)" "read_fat32 image_ops (r\<lparr>buf := b, buffer_size := n\<rparr>) s1 = Some (0, s2)"
      "mem s2 = mem_write (mem s) b (stored_bytes r (mem s))" by blast
  have "stored_bytes r (mem s) = concat (map (\<lambda>k. mem_read (mem s)
      (buf r + of_nat (min (2 * k + 1) (clusters_written r - 1) * CLUSTER_SIZE)) CLUSTER_SIZE) [0..<(clusters_written r + 1) div 2])"
    by (simp only: stored_bytes_def buffer_chunk_def)
  with w stored_bytes_start [OF two, of "mem s"] show ?thesis by blast
qed

text \<open>A request of 5000 bytes: three chunks are written to two clusters.\<close>

theorem large_write_keeps_half_witness:
  "\<exists>s1 s2. write_fat32 image_ops (hello\<lparr>buffer_size := 5000\<rparr>) (formatted sample) = Some (0, s1)
    \<and> read_fat32 image_ops (hello\<lparr>buf := 0x9000, buffer_size := 6144\<rparr>) s1 = Some (0, s2)
    \<and> mem s2 = mem_write sample 0x9000 (mem_read sample 0x1800 CLUSTER_SIZE @ mem_read sample 0x2000 CLUSTER_SIZE)"
proof -
  let ?r = "hello\<lparr>buffer_size := 5000\<rparr>"
  have r: "request_ok ?r" "parent_cluster_number ?r = 2" "clusters_written ?r = 3" "buf ?r = 0x1000"
    by (simp_all add: hello_def request_ok_def clusters_written_def CLUSTER_SIZE_def)
  have two: "[0..<(3 + 1) div 2] = [0, Suc 0]" by (simp add: upt_rec)
  from large_write_keeps_half [of "formatted sample" ?r 6144 "0x9000"] r formatted_fs_ok [of sample] two show ?thesis
    by (simp add: formatted_facts formatted_write_result formatted_table root_find root_slot zero_entry_def
        ATTR_SUBDIRECTORY_def CLUSTER_SIZE_def)
qed

text \<open>
  C12. A successful \<open>write\<close> leaves every other file alone: a chain that started in a used cluster and
  does not run through the parent directory has the same clusters and the same bytes afterwards.
\<close>

theorem write_keeps_files:
  assumes "fs_ok (fat_table s) (disk s)" and "request_ok r" and "unat (parent_cluster_number r) < CLUSTER_MAP_SIZE"
    and "write_fat32 image_ops r s = Some (c, s')"
    and "used (fat_table s) (unat e)" and "fat_path (fat_table s) e cs" and "unat (parent_cluster_number r) \<notin> set cs"
  shows "fat_path (fat_table s') e cs \<and> chain_bytes (disk s') cs = chain_bytes (disk s) cs"
proof -
  have wf: "fat_wf (fat_table s)" using assms(1) by (simp add: fs_ok_def)
  have small: "x < 2048" if "x \<in> set cs" for x
    using fat_path_range [OF assms(6) that] by (simp add: CLUSTER_MAP_SIZE_def)
  from img.write_run [OF TrueI assms(3,2,1)] assms(4) have
    out: "c \<noteq> 0 \<Longrightarrow> fat_table s' = fat_table s \<and> (\<forall>k<2048. disk s' k = disk s k)"
      "c = 0 \<Longrightarrow> fat_table s' = linked_fat (fat_table s) (clusters_written r)
        \<and> (\<forall>k<2048. disk s' k = written_disk r (fat_table s) (mem s) (disk s) k)"
    and c: "c = write_result r (fat_table s) (disk s)" by auto
  show ?thesis
  proof (cases "c = 0")
    case True
    with c have code: "write_code r (fat_table s) (parent_table (disk s) r) = 0" by (auto simp: write_result_def split: if_splits)
    note n = written_free_count [OF code]
    have "disk s' x = disk s x" if x: "x \<in> set cs" for x
    proof -
      have "x \<noteq> unat (parent_cluster_number r)" using x assms(7) by auto
      with written_disk_used [OF wf n path_used [OF wf assms(6,5) x]] out(2) [OF True] small [OF x] show ?thesis by simp
    qed
    then have "chain_bytes (disk s') cs = chain_bytes (disk s) cs" by (rule chain_bytes_cong)
    with linked_path_old [OF wf _ n assms(5,6)] out(2) [OF True] show ?thesis by simp
  next
    case False
    then have "chain_bytes (disk s') cs = chain_bytes (disk s) cs"
      using out(1) small by (intro chain_bytes_cong) blast
    with False out(1) assms(6) show ?thesis by simp
  qed
qed

text \<open>Writing another file next to the first.\<close>

theorem write_keeps_files_witness:
  "\<exists>s'. write_fat32 image_ops other_file (with_hello sample) = Some (0, s')
    \<and> fat_path (fat_table s') 3 [3] \<and> chain_bytes (disk s') [3] = chain_bytes (disk (with_hello sample)) [3]"
proof -
  note fs = tree_fs_ok [OF reach_tree [OF with_hello_reach [of sample]]]
  note p = other_file_ok(2)
  have "write_result other_file (fat_table (with_hello sample)) (disk (with_hello sample)) = 0"
    by (simp add: write_result_def with_hello_facts with_hello_parent with_hello_table p other_file_code)
  with write_outcome [OF fs other_file_ok(1)] p obtain s' where
    w: "write_fat32 image_ops other_file (with_hello sample) = Some (0, s')" by (auto simp: CLUSTER_MAP_SIZE_def)
  have "used (fat_table (with_hello sample)) (unat (3 :: u32))"
    using hello_used by (simp add: with_hello_facts)
  from write_keeps_files [OF fs other_file_ok(1) _ w this, of "[3]"] w hello_chain p show ?thesis
    by (simp add: with_hello_facts CLUSTER_MAP_SIZE_def)
qed

text \<open>
  C10. A successful \<open>write\<close> is an insertion into the parent directory: seen as a map from identifiers
  to entries, the table gains exactly the request's identifier, with an entry in use that names the
  first cluster of a chain of \<open>\<lceil>n/2\<rceil>\<close> clusters that were free, and the recorded size \<open>n * 2048\<close>.
\<close>

theorem write_inserts:
  assumes "fs_ok (fat_table s) (disk s)" and "request_ok r" and "write_result r (fat_table s) (disk s) = 0"
  shows "\<exists>s' e cs. write_fat32 image_ops r s = Some (0, s') \<and> dir_view (parent_table (disk s) r) (req_identifier r) = None
    \<and> (\<forall>ident. length ident = 11 \<longrightarrow> dir_view (parent_table (disk s') r) ident
         = (if ident = req_identifier r then Some e else dir_view (parent_table (disk s) r) ident))
    \<and> in_use e \<and> name e @ ext e = req_identifier r \<and> filesize e = of_nat (clusters_written r * CLUSTER_SIZE)
    \<and> fat_path (fat_table s') (entry_cluster e) cs \<and> length cs = (clusters_written r + 1) div 2
    \<and> set cs \<subseteq> set (free_clusters (fat_table s))"
proof -
  let ?t = "parent_table (disk s) r" and ?n = "clusters_written r"
  let ?e = "written_entry r (fat_table s) ?n (?t ! the (find_empty_slot ?t))"
  have wf: "fat_wf (fat_table s)" using assms(1) by (simp add: fs_ok_def)
  have ok: "parent_ok (fat_table s) (disk s) (parent_cluster_number r)" and code: "write_code r (fat_table s) ?t = 0"
    using assms(3) by (simp_all add: write_result_def split: if_splits)
  have p: "unat (parent_cluster_number r) < 2048" using parent_unat [OF ok] by simp
  have t: "table_ok ?t" using p by (intro img.parent_table_ok) simp_all
  note n = written_free_count [OF code]
  from img.write_succeeds [OF TrueI ok fat_wfD(1) [OF wf] assms(2) code] obtain s' where
    w: "write_fat32 image_ops r s = Some (0, s')" and f: "fat_table s' = linked_fat (fat_table s) ?n"
    and D: "\<forall>k<2048. disk s' k = written_disk r (fat_table s) (mem s) (disk s) k" by auto
  have t': "parent_table (disk s') r = written_table r (fat_table s) ?t"
    using p D table_ok_written [OF assms(2) t] by (simp add: parent_table_def written_disk_parent)
  have "dir_view ?t (req_identifier r) = None" using code by (simp add: write_code_def dir_view_def split: if_splits)
  moreover have "fat_path (fat_table s') (entry_cluster ?e) (written_chain (fat_table s) ?n)"
    using linked_fat_path [OF fat_wfD(1) [OF wf] _ n] by (simp add: f)
  moreover have "set (written_chain (fat_table s) ?n) \<subseteq> set (free_clusters (fat_table s))"
    using written_chain_free by blast
  moreover have "in_use ?e" "name ?e @ ext ?e = req_identifier r" "filesize ?e = of_nat (?n * CLUSTER_SIZE)"
    by (simp_all add: in_use_def req_identifier_def)
  moreover have "\<forall>ident. length ident = 11 \<longrightarrow> dir_view (parent_table (disk s') r) ident
      = (if ident = req_identifier r then Some ?e else dir_view ?t ident)"
    using dir_view_written [OF t assms(2) code] by (simp add: t')
  ultimately show ?thesis
    using w length_written_chain [OF n] by blast
qed

theorem write_inserts_witness:
  "\<exists>s' e. write_fat32 image_ops hello (formatted (\<lambda>_. 0)) = Some (0, s')
    \<and> dir_view (parent_table (disk s') hello) (req_identifier hello) = Some e \<and> filesize e = 2048"
  using write_inserts [of "formatted (\<lambda>_. 0)" hello] formatted_fs_ok [of "\<lambda>_. 0"] hello_ok hello_identifier
  by (simp add: formatted_facts formatted_write_result CLUSTER_SIZE_def) metis

section \<open>Deleting\<close>

text \<open>
  C5. A successful \<open>delete\<close> is a removal: the clusters of the entry's chain become free and no other
  FAT entry changes, the parent directory as a map loses exactly the request's identifier, and no
  cluster but the FAT's and the parent's is written.
\<close>

theorem delete_removes:
  assumes "fs_ok (fat_table s) (disk s)" and "request_ok r"
    and "parent_ok (fat_table s) (disk s) (parent_cluster_number r)" and "names_unique (parent_table (disk s) r)"
    and "find_entry (req_identifier r) (parent_table (disk s) r) = Some i"
    and "delete_code r (disk s) (parent_table (disk s) r) = 0"
    and "fat_path (fat_table s) (entry_cluster (parent_table (disk s) r ! i)) cs"
  shows "\<exists>s'. delete_fat32 image_ops r s = Some (0, s')
    \<and> (\<forall>x<CLUSTER_MAP_SIZE. fat_table s' ! x = (if x \<in> set cs then FAT32_FAT_EMPTY_ENTRY else fat_table s ! x))
    \<and> (\<forall>ident. length ident = 11 \<longrightarrow> dir_view (parent_table (disk s') r) ident
         = (if ident = req_identifier r then None else dir_view (parent_table (disk s) r) ident))
    \<and> (\<forall>k<2048. k \<noteq> 1 \<longrightarrow> k \<noteq> unat (parent_cluster_number r) \<longrightarrow> disk s' k = disk s k)"
proof -
  let ?t = "parent_table (disk s) r"
  have len: "length (fat_table s) = CLUSTER_MAP_SIZE" using assms(1) fat_wfD(1) by (simp add: fs_ok_def)
  have p: "unat (parent_cluster_number r) < 2048" using parent_unat [OF assms(3)] by simp
  have t: "table_ok ?t" using p by (intro img.parent_table_ok) simp_all
  have i: "i < DIR_ENTRIES" using find_entry_range [OF assms(5)] by simp
  from img.delete_succeeds [OF TrueI assms(3) len assms(5,6,7)] obtain s' where
    d: "delete_fat32 image_ops r s = Some (0, s')" and f: "fat_table s' = clear_clusters (fat_table s) cs"
    and D: "\<forall>k<2048. disk s' k = deleted_disk r (clear_clusters (fat_table s) cs) (deleted_table i ?t) (disk s) k" by auto
  have t': "parent_table (disk s') r = deleted_table i ?t"
    using p D table_ok_deleted [OF t i] by (simp add: parent_table_def deleted_disk_def)
  have "\<forall>k<2048. k \<noteq> 1 \<longrightarrow> k \<noteq> unat (parent_cluster_number r) \<longrightarrow> disk s' k = disk s k"
    using D by (simp add: deleted_disk_def)
  moreover have "\<forall>x<CLUSTER_MAP_SIZE. fat_table s' ! x = (if x \<in> set cs then FAT32_FAT_EMPTY_ENTRY else fat_table s ! x)"
    by (simp add: f nth_clear_clusters len)
  moreover have "\<forall>ident. length ident = 11 \<longrightarrow> dir_view (parent_table (disk s') r) ident
      = (if ident = req_identifier r then None else dir_view ?t ident)"
    using dir_view_delete [OF t assms(4,5) length_req_identifier [OF assms(2)]] by (simp add: t')
  ultimately show ?thesis using d by blast
qed

theorem delete_removes_witness:
  "\<exists>s'. delete_fat32 image_ops hello (with_hello sample) = Some (0, s') \<and> fat_table s' ! 3 = FAT32_FAT_EMPTY_ENTRY
    \<and> dir_view (parent_table (disk s') hello) (req_identifier hello) = None"
proof -
  note tree = reach_tree [OF with_hello_reach [of sample]]
  have u: "names_unique (parent_table (disk (with_hello sample)) hello)"
    using tree_okD(4) [OF tree, of 2] by (simp add: dir_ok_def parent_table_at hello_ok)
  have code: "delete_code hello (disk (with_hello sample)) (parent_table (disk (with_hello sample)) hello) = 0"
    by (simp add: delete_code_def with_hello_table hello_ok hello_found hello_entry zero_entry_def ATTR_SUBDIRECTORY_def)
  have "fat_path (fat_table (with_hello sample)) (entry_cluster (parent_table (disk (with_hello sample)) hello ! 2)) [3]"
    using hello_chain by (simp add: with_hello_facts with_hello_table hello_ok hello_entry fresh_free)
  moreover have "parent_ok (fat_table (with_hello sample)) (disk (with_hello sample)) (parent_cluster_number hello)"
    and "find_entry (req_identifier hello) (parent_table (disk (with_hello sample)) hello) = Some 2"
    by (simp_all add: hello_ok with_hello_facts with_hello_parent with_hello_table hello_found)
  ultimately obtain s' where "delete_fat32 image_ops hello (with_hello sample) = Some (0, s')"
    and f: "\<forall>x<CLUSTER_MAP_SIZE. fat_table s' ! x = (if x \<in> set [3] then FAT32_FAT_EMPTY_ENTRY else fat_table (with_hello sample) ! x)"
    and "\<forall>ident. length ident = 11 \<longrightarrow> dir_view (parent_table (disk s') hello) ident
      = (if ident = req_identifier hello then None else dir_view (parent_table (disk (with_hello sample)) hello) ident)"
    using delete_removes [OF tree_fs_ok [OF tree] hello_ok(1) _ u _ code] by blast
  moreover have "fat_table s' ! 3 = FAT32_FAT_EMPTY_ENTRY" using f by (simp add: CLUSTER_MAP_SIZE_def)
  ultimately show ?thesis using hello_identifier by auto
qed

text \<open>
  C25. Deleting a file right after writing it restores the FAT and the parent directory: every identifier is
  found, or not, as before the \<open>write\<close>. The names of the directory are unique, and the slot the file gets was
  not a deleted directory's.
\<close>

theorem delete_undoes_write:
  assumes "fs_ok (fat_table s) (disk s)" and "request_ok r" and "write_result r (fat_table s) (disk s) = 0"
    and "buffer_size r \<noteq> 0" and "names_unique (parent_table (disk s) r)"
    and "attribute (parent_table (disk s) r ! the (find_empty_slot (parent_table (disk s) r))) \<noteq> ATTR_SUBDIRECTORY"
  shows "\<exists>s1 s2. write_fat32 image_ops r s = Some (0, s1) \<and> delete_fat32 image_ops r s1 = Some (0, s2)
    \<and> fat_table s2 = fat_table s \<and> fs_ok (fat_table s2) (disk s2)
    \<and> (\<forall>ident. length ident = 11 \<longrightarrow> dir_view (parent_table (disk s2) r) ident = dir_view (parent_table (disk s) r) ident)"
  using img.delete_after_write [OF TrueI assms(2,1,3,4,6)] assms(5) by blast

theorem delete_undoes_write_witness:
  "\<exists>s1 s2. write_fat32 image_ops hello (formatted sample) = Some (0, s1) \<and> delete_fat32 image_ops hello s1 = Some (0, s2)
    \<and> fat_table s2 = fresh_fat"
  using delete_undoes_write [of "formatted sample" hello] formatted_fs_ok [of sample] hello_ok names_unique_empty [OF dir_empty_root]
  by (auto simp: formatted_facts formatted_write_result formatted_table root_find root_slot zero_entry_def ATTR_SUBDIRECTORY_def)

section \<open>Reading\<close>

text \<open>
  C27. When \<open>read\<close> finds a file that fits the caller's buffer, it returns exactly when following the
  FAT from the entry's cluster reaches the end-of-file mark; otherwise the loop leaves the table or
  never ends.
\<close>

theorem read_returns_iff:
  assumes "parent_ok (fat_table s) (disk s) (parent_cluster_number r)"
    and "find_entry (req_identifier r) (parent_table (disk s) r) = Some i"
    and "read_code r (parent_table (disk s) r) = 0"
  shows "(\<exists>c s'. read_fat32 image_ops r s = Some (c, s'))
    \<longleftrightarrow> (\<exists>cs. fat_path (fat_table s) (entry_cluster (parent_table (disk s) r ! i)) cs)"
  using img.read_hangs [OF TrueI assms] img.read_succeeds [OF TrueI assms] by fastforce

theorem read_returns_iff_witness:
  "\<exists>c s'. read_fat32 image_ops (hello\<lparr>buffer_size := 4096\<rparr>) (with_hello sample) = Some (c, s')"
proof -
  let ?r = "hello\<lparr>buffer_size := 4096\<rparr>"
  have t: "parent_table (disk (with_hello sample)) ?r = hello_table" by (rule with_hello_table) (simp add: hello_ok)
  have i: "find_entry (req_identifier ?r) (parent_table (disk (with_hello sample)) ?r) = Some 2"
    using hello_found by (simp add: t req_identifier_def)
  then have code: "read_code ?r (parent_table (disk (with_hello sample)) ?r) = 0"
    by (simp add: read_code_def t hello_entry hello_ok zero_entry_def ATTR_SUBDIRECTORY_def CLUSTER_SIZE_def)
  have "fat_path (fat_table (with_hello sample)) (entry_cluster (parent_table (disk (with_hello sample)) ?r ! 2)) [3]"
    using hello_chain by (simp add: with_hello_facts t hello_entry fresh_free)
  then have "\<exists>cs. fat_path (fat_table (with_hello sample)) (entry_cluster (parent_table (disk (with_hello sample)) ?r ! 2)) cs" ..
  with read_returns_iff [OF _ i code] show ?thesis by (simp add: with_hello_facts with_hello_parent hello_ok)
qed

section \<open>Rejected parents\<close>

text \<open>
  A parent cluster inside the FAT that is reserved, is not a single end-of-file cluster or does
  not hold a directory table is rejected by \<open>write\<close> (2), \<open>read\<close> (-1) and \<open>delete\<close> (-1), with the FAT,
  the memory and every cluster as they were.
\<close>

theorem bad_parent_rejected:
  assumes "unat (parent_cluster_number r) < CLUSTER_MAP_SIZE"
    and "\<not> parent_ok (fat_table s) (disk s) (parent_cluster_number r)"
  shows "\<exists>w d q. write_fat32 image_ops r s = Some (2, w) \<and> delete_fat32 image_ops r s = Some (-1, d)
    \<and> read_fat32 image_ops r s = Some (-1, q)
    \<and> (\<forall>s'\<in>{w, d, q}. fat_table s' = fat_table s \<and> mem s' = mem s \<and> (\<forall>k<2048. disk s' k = disk s k))"
  using img.write_bad_parent [OF TrueI assms] img.read_bad_parent [OF TrueI assms] img.delete_bad_parent [OF TrueI assms]
  by auto

theorem bad_parent_rejected_witness:
  "\<exists>w. write_fat32 image_ops (hello\<lparr>parent_cluster_number := 3\<rparr>) (formatted (\<lambda>_. 0)) = Some (2, w)"
  using bad_parent_rejected [of "hello\<lparr>parent_cluster_number := 3\<rparr>" "formatted (\<lambda>_. 0)"]
  by (auto simp: parent_ok_def formatted_facts fresh_fat_nth CLUSTER_MAP_SIZE_def)

text \<open>
  C28. A parent cluster outside the FAT is not rejected: \<open>write\<close>, \<open>read\<close> and \<open>delete\<close> index the
  512-entry \<open>cluster_map\<close> with it before any bound is checked.
\<close>

theorem parent_outside_table_faults:
  assumes "CLUSTER_MAP_SIZE \<le> unat (parent_cluster_number r)"
  shows "write_fat32 image_ops r s = None \<and> read_fat32 image_ops r s = None \<and> delete_fat32 image_ops r s = None"
proof -
  have "\<not> parent_cluster_number r < 2" using assms by (simp add: word_less_nat_alt CLUSTER_MAP_SIZE_def)
  moreover have "open_parent image_ops (parent_cluster_number r) s = None" using assms by (simp add: open_parent_def fat_at_def)
  ultimately show ?thesis by (simp add: write_fat32_def read_fat32_def delete_fat32_def)
qed

theorem parent_outside_table_faults_witness:
  "write_fat32 image_ops (hello\<lparr>parent_cluster_number := 600\<rparr>) (formatted sample) = None"
  using parent_outside_table_faults [of "hello\<lparr>parent_cluster_number := 600\<rparr>" "formatted sample"]
  by (simp add: CLUSTER_MAP_SIZE_def)

section \<open>A reused slot\<close>

text \<open>
  C29. \<open>write\<close> keeps the attribute of the slot it reuses: a file written into the slot of a deleted
  directory answers 0, and reading it answers 1, "not a file", whatever buffer the caller offers.
\<close>

theorem reused_directory_slot:
  assumes "fs_ok (fat_table s) (disk s)" and "request_ok r" and "write_result r (fat_table s) (disk s) = 0"
    and "attribute (parent_table (disk s) r ! the (find_empty_slot (parent_table (disk s) r))) = ATTR_SUBDIRECTORY"
  shows "\<exists>s1 s2. write_fat32 image_ops r s = Some (0, s1)
    \<and> read_fat32 image_ops (r\<lparr>buf := b, buffer_size := n\<rparr>) s1 = Some (1, s2)"
proof -
  let ?t = "parent_table (disk s) r" and ?q = "r\<lparr>buf := b, buffer_size := n\<rparr>"
  have wf: "fat_wf (fat_table s)" using assms(1) by (simp add: fs_ok_def)
  have ok: "parent_ok (fat_table s) (disk s) (parent_cluster_number r)" and code: "write_code r (fat_table s) ?t = 0"
    using assms(3) by (simp_all add: write_result_def split: if_splits)
  have p: "unat (parent_cluster_number r) < 2048" using parent_unat [OF ok] by simp
  have t: "table_ok ?t" using p by (intro img.parent_table_ok) simp_all
  from img.write_succeeds [OF TrueI ok fat_wfD(1) [OF wf] assms(2) code] obtain s1 where
    w: "write_fat32 image_ops r s = Some (0, s1)" and f: "fat_table s1 = linked_fat (fat_table s) (clusters_written r)"
    and D: "\<forall>k<2048. disk s1 k = written_disk r (fat_table s) (mem s) (disk s) k" by auto
  have t1: "parent_table (disk s1) ?q = written_table r (fat_table s) ?t"
    using p D table_ok_written [OF assms(2) t] by (simp add: parent_table_def written_disk_parent)
  have ok1: "parent_ok (fat_table s1) (disk s1) (parent_cluster_number ?q)"
    using p D parent_ok_written [OF wf ok assms(2) code t] by (simp add: f written_disk_parent)
  from code obtain slot where slot: "find_empty_slot ?t = Some slot" by (rule write_code_0)
  have "find_entry (req_identifier ?q) (written_table r (fat_table s) ?t) = Some slot"
    using find_entry_written [OF t assms(2) code] slot by (simp add: req_identifier_def)
  then have rc: "read_code ?q (parent_table (disk s1) ?q) = 1"
    using written_table_slot [OF t code] slot assms(4) by (simp add: t1 read_code_def)
  from img.read_fails [OF TrueI ok1] rc w show ?thesis by auto
qed

text \<open>A root directory whose first free slot was a directory's.\<close>

theorem reused_directory_slot_witness:
  "\<exists>s s1 s2. write_fat32 image_ops hello s = Some (0, s1)
    \<and> read_fat32 image_ops (hello\<lparr>buf := 0x9000, buffer_size := 4096\<rparr>) s1 = Some (1, s2)"
proof -
  let ?t = "root_directory_table[2 := zero_entry\<lparr>attribute := ATTR_SUBDIRECTORY\<rparr>]"
  have t: "table_ok ?t"
    by (rule table_ok_update [OF root_directory_table_ok]) (simp add: entry_ok_def zero_entry_def)
  from img.write_clusters_one [OF TrueI, of 2 "encode_table ?t" "dev (formatted (\<lambda>_. 0))"] length_encode_table [OF t]
  obtain d where d: "\<forall>k<2048. cluster_of (image_block d) k = (if k = 2 then encode_table ?t else disk (formatted (\<lambda>_. 0)) k)"
    by auto
  let ?s = "(formatted (\<lambda>_. 0))\<lparr>dev := d\<rparr>"
  have table: "parent_table (disk ?s) hello = ?t" using d t by (simp add: parent_table_def hello_ok)
  have ok: "parent_ok fresh_fat (disk ?s) 2"
    using formatted_parent [of "\<lambda>_. 0"] d t by (simp add: parent_ok_def formatted_facts root_directory_table_ok)
  have fs: "fs_ok (fat_table ?s) (disk ?s)"
    using formatted_fs_ok [of "\<lambda>_. 0"] d t ok by (simp add: fs_ok_def formatted_facts parent_ok_def)
  have len: "length root_directory_table = DIR_ENTRIES" using root_directory_table_ok by (simp add: table_ok_def)
  have no: "\<not> entry_matches (req_identifier hello) (zero_entry\<lparr>attribute := ATTR_SUBDIRECTORY\<rparr>)"
    by (simp add: entry_matches_def zero_entry_def UATTR_NOT_EMPTY_def)
  have "find_entry (req_identifier hello) ?t = None"
    using find_entry_update_other [OF no, of root_directory_table 2] root_no_match root_find len by (simp add: DIR_ENTRIES_def)
  moreover have slot: "find_empty_slot ?t = Some 2"
    by (simp add: find_empty_slot_def scan_Some_iff len zero_entry_def UATTR_NOT_EMPTY_def DIR_ENTRIES_def)
  ultimately have "write_code hello fresh_fat ?t = 0" by (simp add: write_code_def hello_ok fresh_free)
  then have "write_result hello (fat_table ?s) (disk ?s) = 0"
    using ok table by (simp add: write_result_def formatted_facts hello_ok)
  moreover have "attribute (parent_table (disk ?s) hello ! the (find_empty_slot (parent_table (disk ?s) hello))) = ATTR_SUBDIRECTORY"
    unfolding table slot option.sel using len by (simp add: DIR_ENTRIES_def)
  ultimately show ?thesis using reused_directory_slot [OF fs hello_ok(1)] by blast
qed

section \<open>Formatting and listing\<close>

text \<open>
  C30. \<open>initialize_filesystem_fat32\<close> on any image: when block 0 carries the signature it only loads the
  FAT and the root directory; otherwise it formats, leaving the clusters from 3 on as they were. Either
  way the signature is in place, so a second initialisation changes nothing on disk.
\<close>

theorem initialize_outcome:
  "\<exists>s'. initialize_filesystem_fat32 image_ops s = Some s' \<and> mem s' = mem s \<and> image_block (dev s') 0 = fs_signature
    \<and> fat_table s' = decode_fat (disk s' 1) \<and> dir_table_buf s' = decode_table (disk s' 2)
    \<and> (if image_block (dev s) 0 = fs_signature then \<forall>k<2048. disk s' k = disk s k
       else tree_ok (fat_table s') (disk s') {2} \<and> free_clusters (fat_table s') = [3..<512]
         \<and> (\<forall>k<2048. 3 \<le> k \<longrightarrow> disk s' k = disk s k))
    \<and> (\<exists>s''. initialize_filesystem_fat32 image_ops s' = Some s'' \<and> fat_table s'' = fat_table s'
         \<and> dir_table_buf s'' = dir_table_buf s' \<and> (\<forall>k<2048. disk s'' k = disk s' k))"
proof -
  from img.initialize_ok [OF TrueI, of s] obtain s' where
    i: "initialize_filesystem_fat32 image_ops s = Some s'" "mem s' = mem s" "image_block (dev s') 0 = fs_signature"
      "fat_table s' = decode_fat (disk s' 1)" "dir_table_buf s' = decode_table (disk s' 2)"
    and f: "if image_block (dev s) 0 = fs_signature then \<forall>k<2048. disk s' k = disk s k
       else fat_table s' = fresh_fat \<and> dir_table_buf s' = root_directory_table \<and> disk s' 1 = encode_fat fresh_fat
         \<and> disk s' 2 = encode_table root_directory_table \<and> (\<forall>k<2048. 3 \<le> k \<longrightarrow> disk s' k = disk s k)" by auto
  from img.initialize_ok [OF TrueI, of s'] i obtain s'' where
    "initialize_filesystem_fat32 image_ops s' = Some s''" "fat_table s'' = decode_fat (disk s'' 1)"
    "dir_table_buf s'' = decode_table (disk s'' 2)" "\<forall>k<2048. disk s'' k = disk s' k" by auto
  moreover from this i have "fat_table s'' = fat_table s'" "dir_table_buf s'' = dir_table_buf s'" by simp_all
  moreover have "if image_block (dev s) 0 = fs_signature then \<forall>k<2048. disk s' k = disk s k
       else tree_ok (fat_table s') (disk s') {2} \<and> free_clusters (fat_table s') = [3..<512]
         \<and> (\<forall>k<2048. 3 \<le> k \<longrightarrow> disk s' k = disk s k)"
    using f tree_ok_formatted [of "disk s'"] by (simp add: fresh_free split: if_splits)
  ultimately show ?thesis using i by blast
qed

theorem initialize_outcome_witness:
  "\<exists>s'. initialize_filesystem_fat32 image_ops (blank sample) = Some s' \<and> free_clusters (fat_table s') = [3..<512]
    \<and> disk s' 3 = disk (blank sample) 3"
proof -
  from initialize_outcome [of "blank sample"] blank_not_signed [of sample] obtain s' where
    "initialize_filesystem_fat32 image_ops (blank sample) = Some s'" "free_clusters (fat_table s') = [3..<512]"
    "\<forall>k<2048. 3 \<le> k \<longrightarrow> disk s' k = disk (blank sample) k" by auto
  moreover from this(3) have "disk s' 3 = disk (blank sample) 3" by simp
  ultimately show ?thesis by blast
qed

text \<open>
  C31. \<open>read_directory\<close> on every branch: -1 for a reserved parent and for a buffer that is not of one cluster;
  a parent outside the FAT is then used as an index (no result); -1 for a parent that is not a single
  end-of-file cluster or does not hold a directory table; 2 when no entry has the name with an all-zero
  extension, 1 when it is a file, otherwise 0 with the directory's cluster copied whole to the caller's
  buffer. The storage does not change, and the caller's memory only by that copy. The entry found names a
  cluster of the disk.
\<close>

theorem read_directory_outcome:
  fixes r s
  defines "opened \<equiv> 2 \<le> parent_cluster_number r \<and> buffer_size r = of_nat CLUSTER_SIZE"
  assumes "\<And>i. parent_ok (fat_table s) (disk s) (parent_cluster_number r) \<Longrightarrow>
      find_entry (req_name r @ [0, 0, 0]) (parent_table (disk s) r) = Some i \<Longrightarrow>
      unat (entry_cluster (parent_table (disk s) r ! i)) < 2048"
  shows "if opened \<and> CLUSTER_MAP_SIZE \<le> unat (parent_cluster_number r) then read_directory image_ops r s = None
    else \<exists>s'. read_directory image_ops r s
        = Some (if opened \<and> parent_ok (fat_table s) (disk s) (parent_cluster_number r)
                then read_directory_code r (parent_table (disk s) r) else -1, s')
      \<and> fat_table s' = fat_table s \<and> (\<forall>k<2048. disk s' k = disk s k)
      \<and> mem s' = (case find_entry (req_name r @ [0, 0, 0]) (parent_table (disk s) r) of
          Some i \<Rightarrow> if opened \<and> parent_ok (fat_table s) (disk s) (parent_cluster_number r)
              \<and> attribute (parent_table (disk s) r ! i) = ATTR_SUBDIRECTORY
            then mem_write (mem s) (buf r) (disk s (unat (entry_cluster (parent_table (disk s) r ! i)))) else mem s
        | None \<Rightarrow> mem s)"
proof (cases opened)
  case False
  then have "read_directory image_ops r s = Some (-1, s)" by (auto simp: opened_def read_directory_def not_le)
  with False show ?thesis by (auto split: option.splits)
next
  case True
  then have two: "2 \<le> parent_cluster_number r" "\<not> parent_cluster_number r < 2" and size: "buffer_size r = of_nat CLUSTER_SIZE"
    by (simp_all add: opened_def not_less)
  consider (out) "CLUSTER_MAP_SIZE \<le> unat (parent_cluster_number r)"
    | (bad) "unat (parent_cluster_number r) < CLUSTER_MAP_SIZE" "\<not> parent_ok (fat_table s) (disk s) (parent_cluster_number r)"
    | (ok) "parent_ok (fat_table s) (disk s) (parent_cluster_number r)" by linarith
  then show ?thesis
  proof cases
    case out
    with True two size show ?thesis by (simp add: read_directory_def open_parent_def fat_at_def)
  next
    case bad
    from img.open_parent_invalid [OF TrueI two(1) bad] obtain s' where
      "open_parent image_ops (parent_cluster_number r) s = Some (False, s')" "fat_table s' = fat_table s" "mem s' = mem s"
      "\<forall>k<2048. disk s' k = disk s k" by auto
    with bad two size show ?thesis by (auto simp: read_directory_def split: option.splits)
  next
    case ok
    then have inside: "\<not> CLUSTER_MAP_SIZE \<le> unat (parent_cluster_number r)" by (auto simp: parent_ok_def)
    note out = img.read_directory_run [OF TrueI ok size]
    show ?thesis
    proof (cases "read_directory_code r (parent_table (disk s) r) = 0")
      case code: True
      then obtain i where i: "find_entry (req_name r @ [0, 0, 0]) (parent_table (disk s) r) = Some i"
        "attribute (parent_table (disk s) r ! i) = ATTR_SUBDIRECTORY"
        by (auto simp: read_directory_code_def split: option.splits if_splits)
      with out(2) [of i] code assms(2) [OF ok] True ok inside show ?thesis by auto
    next
      case code: False
      then have "find_entry (req_name r @ [0, 0, 0]) (parent_table (disk s) r) = Some i \<Longrightarrow>
          attribute (parent_table (disk s) r ! i) \<noteq> ATTR_SUBDIRECTORY" for i
        by (auto simp: read_directory_code_def)
      with out(1) code True ok inside show ?thesis by (auto split: option.splits)
    qed
  qed
qed

text \<open>Reading a directory that was written to the root, and a parent that is none.\<close>

theorem read_directory_outcome_witness:
  "\<exists>s s1 s2. write_fat32 image_ops docs (formatted sample) = Some (0, s)
    \<and> read_directory image_ops (docs\<lparr>buf := 0x9000, buffer_size := 2048\<rparr>) s = Some (0, s1)
    \<and> mem s1 = mem_write sample 0x9000 (mem_read sample 0x1000 CLUSTER_SIZE)
    \<and> read_directory image_ops (docs\<lparr>parent_cluster_number := 9, buffer_size := 2048\<rparr>) s = Some (-1, s2)"
proof -
  from docs_written [of sample] obtain s where w: "write_fat32 image_ops docs (formatted sample) = Some (0, s)" "mem s = sample"
    and s: "parent_ok (fat_table s) (disk s) 2" "find_entry (req_identifier docs) (parent_table (disk s) docs) = Some 2"
      "attribute (parent_table (disk s) docs ! 2) = ATTR_SUBDIRECTORY" "entry_cluster (parent_table (disk s) docs ! 2) = 3"
      "disk s 3 = mem_read sample 0x1000 CLUSTER_SIZE"
    and free: "fat_table s ! 9 = FAT32_FAT_EMPTY_ENTRY"
    by blast
  let ?r = "docs\<lparr>buf := 0x9000, buffer_size := 2048\<rparr>" and ?q = "docs\<lparr>parent_cluster_number := 9, buffer_size := 2048\<rparr>"
  have t: "parent_table (disk s) ?r = parent_table (disk s) docs" by (simp add: parent_table_def)
  have f: "find_entry (req_name ?r @ [0, 0, 0]) (parent_table (disk s) ?r) = Some 2"
    using s(2) by (simp add: t req_identifier_def) (simp add: docs_def)
  have ok: "parent_ok (fat_table s) (disk s) (parent_cluster_number ?r)" using s(1) by (simp add: docs_ok)
  have code: "read_directory_code ?r (parent_table (disk s) ?r) = 0" using f s(3) by (simp add: read_directory_code_def t)
  have "\<exists>s1. read_directory image_ops ?r s = Some (0, s1) \<and> mem s1 = mem_write sample 0x9000 (mem_read sample 0x1000 CLUSTER_SIZE)"
    using read_directory_outcome [of s ?r] f ok code s(3-5) w(2)
    by (auto simp: t docs_ok CLUSTER_SIZE_def CLUSTER_MAP_SIZE_def)
  moreover have bad: "\<not> parent_ok (fat_table s) (disk s) (parent_cluster_number ?q)" using free by (simp add: parent_ok_def)
  then have "\<exists>s2. read_directory image_ops ?q s = Some (-1, s2)"
    using read_directory_outcome [of s ?q] by (auto simp: CLUSTER_MAP_SIZE_def)
  ultimately show ?thesis using w(1) by blast
qed

end
