(* ===== verification/Paging.thy ===== *)
theory Paging imports Prelude begin

text \<open>
  Paging, \<open>src/ch2/paging\<close>: the page directory of 4 MiB pages, the manager of the 32 physical page
  frames, and allocation and release of user page frames. A page directory is the list of its 1024
  entries; the manager's static state is a record; \<open>invlpg\<close> is modelled by the list of virtual
  addresses whose translation was invalidated, latest first.

  The flag variable of \<open>paging_allocate_user_page_frame\<close> is only partly initialised in C: the
  remaining bits are the argument \<open>junk\<close> of the model.
\<close>

section \<open>Data\<close>

record PageDirectoryEntryFlag =
  present_bit :: bool
  read_write :: bool
  user_supervisor :: bool
  write_through :: bool
  cache_disabled :: bool
  accessed :: bool
  dirty :: bool
  page_size :: bool

record PageDirectoryEntry =
  flag :: PageDirectoryEntryFlag
  global_page :: "1 word"
  ignored :: "3 word"
  pat :: "1 word"
  higher_address :: "4 word"
  reserved_1 :: "4 word"
  reserved_2 :: "1 word"
  lower_address :: "10 word"

type_synonym page_directory = "PageDirectoryEntry list"

definition PAGE_ENTRY_COUNT :: nat where [kernel_defs]: "PAGE_ENTRY_COUNT = 1024"
definition PAGE_FRAME_SIZE :: u32 where [kernel_defs]: "PAGE_FRAME_SIZE = push_bit 22 1"
definition PAGE_FRAME_MAX_COUNT :: nat where [kernel_defs]: "PAGE_FRAME_MAX_COUNT = (128 * 2 ^ 20) div 2 ^ 22"

lemma PAGE_FRAME_MAX_COUNT_eq: "PAGE_FRAME_MAX_COUNT = 32"
  by (simp add: PAGE_FRAME_MAX_COUNT_def)

record PageManagerState =
  page_frame_map :: "bool list"
  free_page_frame_count :: u32
  invalidated :: "u32 list"

definition zero_flag :: PageDirectoryEntryFlag where
  "zero_flag = \<lparr>present_bit = False, read_write = False, user_supervisor = False, write_through = False,
     cache_disabled = False, accessed = False, dirty = False, page_size = False\<rparr>"

definition zero_pde :: PageDirectoryEntry where
  "zero_pde = \<lparr>flag = zero_flag, global_page = 0, ignored = 0, pat = 0, higher_address = 0, reserved_1 = 0,
     reserved_2 = 0, lower_address = 0\<rparr>"

definition kernel_pde :: PageDirectoryEntry where
  "kernel_pde = zero_pde\<lparr>flag := zero_flag\<lparr>present_bit := True, read_write := True, page_size := True\<rparr>,
     lower_address := 0\<rparr>"

definition paging_kernel_page_directory :: page_directory where
  "paging_kernel_page_directory = (replicate PAGE_ENTRY_COUNT zero_pde)[0 := kernel_pde, 0x300 := kernel_pde]"

definition page_manager_state :: PageManagerState where
  "page_manager_state = \<lparr>page_frame_map = True # replicate (PAGE_FRAME_MAX_COUNT - 1) False,
     free_page_frame_count = of_nat (PAGE_FRAME_MAX_COUNT - 1), invalidated = []\<rparr>"

section \<open>Operations\<close>

text \<open>\<open>((uint32_t) virtual_addr >> 22) & 0x3FF\<close>, and the same of a physical address.\<close>

definition page_index :: "u32 \<Rightarrow> nat" where
  "page_index virtual_addr = unat (drop_bit 22 virtual_addr AND 0x3FF)"

definition flush_single_tlb :: "u32 \<Rightarrow> PageManagerState \<Rightarrow> PageManagerState" where
  "flush_single_tlb virtual_addr st = st\<lparr>invalidated := virtual_addr # invalidated st\<rparr>"

definition update_page_directory_entry ::
  "page_directory \<Rightarrow> u32 \<Rightarrow> u32 \<Rightarrow> PageDirectoryEntryFlag \<Rightarrow> PageManagerState \<Rightarrow> page_directory \<times> PageManagerState" where
  "update_page_directory_entry dir physical_addr virtual_addr f st =
     (let i = page_index virtual_addr;
          dir = dir[i := (dir ! i)\<lparr>flag := f, lower_address := ucast (drop_bit 22 physical_addr AND 0x3FF)\<rparr>]
      in (dir, flush_single_tlb virtual_addr st))"

definition paging_allocate_check :: "u32 \<Rightarrow> PageManagerState \<Rightarrow> bool" where
  "paging_allocate_check amount st \<longleftrightarrow> amount \<le> free_page_frame_count st"

definition user_flag :: "PageDirectoryEntryFlag \<Rightarrow> PageDirectoryEntryFlag" where
  "user_flag junk = junk\<lparr>present_bit := True, read_write := True, user_supervisor := True, page_size := True\<rparr>"

definition paging_allocate_user_page_frame ::
  "PageDirectoryEntryFlag \<Rightarrow> page_directory \<Rightarrow> u32 \<Rightarrow> PageManagerState \<Rightarrow> bool \<times> page_directory \<times> PageManagerState" where
  "paging_allocate_user_page_frame junk dir virtual_addr st =
     (case scan (\<lambda>i. \<not> page_frame_map st ! i) 0 PAGE_FRAME_MAX_COUNT of
        None \<Rightarrow> (False, dir, st)
      | Some physical_idx \<Rightarrow>
          let st = st\<lparr>page_frame_map := (page_frame_map st)[physical_idx := True],
                      free_page_frame_count := free_page_frame_count st - 1\<rparr>;
              (dir, st) = update_page_directory_entry dir (of_nat physical_idx * PAGE_FRAME_SIZE) virtual_addr
                            (user_flag junk) st
          in (True, dir, st))"

text \<open>\<open>None\<close>: the frame number of the entry is outside \<open>page_frame_map\<close>, which C does not check.\<close>

definition paging_free_user_page_frame ::
  "page_directory \<Rightarrow> u32 \<Rightarrow> PageManagerState \<Rightarrow> (bool \<times> page_directory \<times> PageManagerState) option" where
  "paging_free_user_page_frame dir virtual_addr st =
     (let page_idx = page_index virtual_addr in
      if \<not> present_bit (flag (dir ! page_idx)) then Some (False, dir, st)
      else let physical_idx = unat (lower_address (dir ! page_idx)) in
        if physical_idx < PAGE_FRAME_MAX_COUNT then
          let st = st\<lparr>page_frame_map := (page_frame_map st)[physical_idx := False],
                      free_page_frame_count := free_page_frame_count st + 1\<rparr>;
              (dir, st) = update_page_directory_entry dir 0 virtual_addr zero_flag st
          in Some (True, dir, st)
        else None)"

section \<open>Addresses\<close>

lemma page_index_less: "page_index v < PAGE_ENTRY_COUNT"
proof -
  have "drop_bit 22 v AND 0x3FF \<le> (0x3FF :: u32)" by (rule word_and_le1)
  then show ?thesis by (simp add: page_index_def word_le_nat_alt PAGE_ENTRY_COUNT_def)
qed

lemma frame_of_address:
  assumes "i < PAGE_FRAME_MAX_COUNT"
  shows "unat (ucast (drop_bit 22 (of_nat i * PAGE_FRAME_SIZE) AND 0x3FF) :: 10 word) = i"
proof -
  have "\<forall>i\<in>set [0..<32]. unat (ucast (drop_bit 22 (of_nat i * (push_bit 22 1 :: u32)) AND 0x3FF) :: 10 word) = i"
    by (simp add: upt_rec)
  with assms show ?thesis by (simp add: PAGE_FRAME_SIZE_def PAGE_FRAME_MAX_COUNT_eq)
qed

section \<open>The abstract view\<close>

text \<open>
  The frames that are free, and for each page that is present whether user code may use it and the
  frame it is mapped to.
\<close>

definition free_frames :: "PageManagerState \<Rightarrow> nat set" where
  "free_frames st = {f. f < PAGE_FRAME_MAX_COUNT \<and> \<not> page_frame_map st ! f}"

definition mapped_page :: "page_directory \<Rightarrow> nat \<Rightarrow> (bool \<times> nat) option" where
  "mapped_page dir i = (if i < PAGE_ENTRY_COUNT \<and> present_bit (flag (dir ! i))
     then Some (user_supervisor (flag (dir ! i)), unat (lower_address (dir ! i))) else None)"

definition paging_inv :: "page_directory \<Rightarrow> PageManagerState \<Rightarrow> bool" where
  "paging_inv dir st \<longleftrightarrow> length dir = PAGE_ENTRY_COUNT \<and> length (page_frame_map st) = PAGE_FRAME_MAX_COUNT
     \<and> unat (free_page_frame_count st) = card (free_frames st)
     \<and> (\<forall>i u f. mapped_page dir i = Some (u, f) \<longrightarrow> f < PAGE_FRAME_MAX_COUNT \<and> f \<notin> free_frames st)
     \<and> (\<forall>i j u f. mapped_page dir i = Some (True, f) \<longrightarrow> mapped_page dir j = Some (u, f) \<longrightarrow> i = j)"

lemma mem_free_frames: "f \<in> free_frames st \<longleftrightarrow> f < PAGE_FRAME_MAX_COUNT \<and> \<not> page_frame_map st ! f"
  by (simp add: free_frames_def)

lemma finite_free_frames [simp]: "finite (free_frames st)"
  by (simp add: free_frames_def)

lemma card_free_frames: "card (free_frames st) \<le> PAGE_FRAME_MAX_COUNT"
  using card_mono [of "{..<PAGE_FRAME_MAX_COUNT}" "free_frames st"] by (auto simp: free_frames_def)

lemma scan_free_frames:
  "scan (\<lambda>i. \<not> page_frame_map st ! i) 0 PAGE_FRAME_MAX_COUNT
    = (if free_frames st = {} then None else Some (Min (free_frames st)))"
proof (cases "free_frames st = {}")
  case False
  then have "Min (free_frames st) \<in> free_frames st" by (rule Min_in [OF finite_free_frames])
  moreover have "page_frame_map st ! j" if "j < Min (free_frames st)" for j
  proof (rule ccontr)
    assume "\<not> page_frame_map st ! j"
    with that \<open>Min (free_frames st) \<in> free_frames st\<close> have "j \<in> free_frames st" by (simp add: mem_free_frames)
    with that show False using Min_le [OF finite_free_frames] by (meson leD)
  qed
  ultimately show ?thesis using False by (simp add: scan_Some_iff mem_free_frames)
qed (auto simp: scan_None_iff free_frames_def)

lemma free_frames_take:
  "f \<in> free_frames st \<Longrightarrow> length (page_frame_map st) = PAGE_FRAME_MAX_COUNT \<Longrightarrow>
   free_frames (st\<lparr>page_frame_map := (page_frame_map st)[f := True], free_page_frame_count := c, invalidated := v\<rparr>) = free_frames st - {f}"
  by (auto simp: free_frames_def nth_list_update)

lemma free_frames_give:
  "f < PAGE_FRAME_MAX_COUNT \<Longrightarrow> length (page_frame_map st) = PAGE_FRAME_MAX_COUNT \<Longrightarrow>
   free_frames (st\<lparr>page_frame_map := (page_frame_map st)[f := False], free_page_frame_count := c, invalidated := v\<rparr>) = insert f (free_frames st)"
  by (auto simp: free_frames_def nth_list_update)

lemma mapped_page_update:
  "length dir = PAGE_ENTRY_COUNT \<Longrightarrow> i < PAGE_ENTRY_COUNT \<Longrightarrow>
   mapped_page (dir[i := e]) = (mapped_page dir)(i := if present_bit (flag e)
     then Some (user_supervisor (flag e), unat (lower_address e)) else None)"
  by (auto simp: mapped_page_def fun_eq_iff nth_list_update)

section \<open>The operations against the abstract view\<close>

lemma allocate_effect:
  assumes inv: "paging_inv dir st" and ne: "free_frames st \<noteq> {}"
  shows "\<exists>dir' st'. paging_allocate_user_page_frame junk dir v st = (True, dir', st')
    \<and> mapped_page dir' = (mapped_page dir)(page_index v \<mapsto> (True, Min (free_frames st)))
    \<and> free_frames st' = free_frames st - {Min (free_frames st)} \<and> invalidated st' = v # invalidated st
    \<and> length dir' = PAGE_ENTRY_COUNT \<and> length (page_frame_map st') = PAGE_FRAME_MAX_COUNT
    \<and> free_page_frame_count st' = free_page_frame_count st - 1"
proof -
  let ?f = "Min (free_frames st)"
  have f: "?f \<in> free_frames st" using ne by simp
  then have "?f < PAGE_FRAME_MAX_COUNT" by (simp add: mem_free_frames)
  from frame_of_address [OF this] f inv page_index_less [of v] show ?thesis
    by (simp add: paging_allocate_user_page_frame_def scan_free_frames ne update_page_directory_entry_def Let_def
        flush_single_tlb_def mapped_page_update user_flag_def paging_inv_def free_frames_take)
qed

lemma allocate_none:
  "free_frames st = {} \<Longrightarrow> paging_allocate_user_page_frame junk dir v st = (False, dir, st)"
  by (simp add: paging_allocate_user_page_frame_def scan_free_frames)

lemma paging_inv_allocate:
  assumes inv: "paging_inv dir st" and vacant: "mapped_page dir (page_index v) = None"
    and run: "paging_allocate_user_page_frame junk dir v st = (ok, dir', st')"
  shows "paging_inv dir' st'"
proof (cases "free_frames st = {}")
  case True
  with run inv show ?thesis by (simp add: allocate_none)
next
  case ne: False
  let ?f = "Min (free_frames st)"
  have f: "?f \<in> free_frames st" using ne by simp
  then have fm: "?f < PAGE_FRAME_MAX_COUNT" by (simp add: mem_free_frames)
  from allocate_effect [OF inv ne, of junk v] run have
    m: "mapped_page dir' = (mapped_page dir)(page_index v \<mapsto> (True, ?f))"
    and fr: "free_frames st' = free_frames st - {?f}"
    and rest: "length dir' = PAGE_ENTRY_COUNT" "length (page_frame_map st') = PAGE_FRAME_MAX_COUNT"
      "free_page_frame_count st' = free_page_frame_count st - 1" by auto
  have c: "0 < card (free_frames st)" using ne by (simp add: card_gt_0_iff)
  then have "unat (free_page_frame_count st') = card (free_frames st')"
    using inv f by (simp add: rest fr paging_inv_def unat_sub_if' word_le_nat_alt)
  moreover have "f < PAGE_FRAME_MAX_COUNT \<and> f \<notin> free_frames st'" if "mapped_page dir' i = Some (u, f)" for i u f
    using that inv fm by (auto simp: m fr paging_inv_def split: if_splits)
  moreover have "i = j" if "mapped_page dir' i = Some (True, f)" "mapped_page dir' j = Some (u, f)" for i j u f
    using that inv f by (auto simp: m paging_inv_def split: if_splits)
  ultimately show ?thesis using rest unfolding paging_inv_def by blast
qed

lemma free_effect:
  assumes inv: "paging_inv dir st" and m: "mapped_page dir (page_index v) = Some (u, f)"
  shows "\<exists>dir' st'. paging_free_user_page_frame dir v st = Some (True, dir', st')
    \<and> mapped_page dir' = (mapped_page dir)(page_index v := None)
    \<and> free_frames st' = insert f (free_frames st) \<and> invalidated st' = v # invalidated st
    \<and> length dir' = PAGE_ENTRY_COUNT \<and> length (page_frame_map st') = PAGE_FRAME_MAX_COUNT
    \<and> free_page_frame_count st' = free_page_frame_count st + 1"
proof -
  have "present_bit (flag (dir ! page_index v))" "unat (lower_address (dir ! page_index v)) = f"
    using m by (auto simp: mapped_page_def split: if_splits)
  moreover have "f < PAGE_FRAME_MAX_COUNT" using inv m unfolding paging_inv_def by blast
  ultimately show ?thesis using inv page_index_less [of v]
    by (simp add: paging_free_user_page_frame_def Let_def update_page_directory_entry_def flush_single_tlb_def
        mapped_page_update zero_flag_def paging_inv_def free_frames_give)
qed

lemma free_none:
  "mapped_page dir (page_index v) = None \<Longrightarrow> paging_free_user_page_frame dir v st = Some (False, dir, st)"
  using page_index_less [of v] by (simp add: paging_free_user_page_frame_def mapped_page_def Let_def split: if_splits)

lemma paging_inv_free:
  assumes inv: "paging_inv dir st" and user: "mapped_page dir (page_index v) = Some (True, f)"
    and run: "paging_free_user_page_frame dir v st = Some (ok, dir', st')"
  shows "paging_inv dir' st'"
proof -
  from free_effect [OF inv user] run have
    m: "mapped_page dir' = (mapped_page dir)(page_index v := None)"
    and fr: "free_frames st' = insert f (free_frames st)"
    and rest: "length dir' = PAGE_ENTRY_COUNT" "length (page_frame_map st') = PAGE_FRAME_MAX_COUNT"
      "free_page_frame_count st' = free_page_frame_count st + 1" by auto
  have f: "f \<notin> free_frames st" using inv user unfolding paging_inv_def by blast
  have "unat (free_page_frame_count st) = card (free_frames st)" using inv by (simp add: paging_inv_def)
  then have "unat (free_page_frame_count st') = card (free_frames st')"
    using card_free_frames [of st] f by (simp add: rest fr unat_word_ariths PAGE_FRAME_MAX_COUNT_eq)
  moreover have "g < PAGE_FRAME_MAX_COUNT \<and> g \<notin> free_frames st'" if g: "mapped_page dir' i = Some (u, g)" for i u g
  proof -
    from g have i: "i \<noteq> page_index v" "mapped_page dir i = Some (u, g)" by (auto simp: m split: if_splits)
    with inv user have "g \<noteq> f" unfolding paging_inv_def by metis
    with i inv show ?thesis by (auto simp: fr paging_inv_def)
  qed
  moreover have "i = j" if "mapped_page dir' i = Some (True, g)" "mapped_page dir' j = Some (u, g)" for i j u g
    using that inv by (auto simp: m paging_inv_def split: if_splits)
  ultimately show ?thesis using rest unfolding paging_inv_def by blast
qed

end
