(* ===== verification/Page_Allocator.thy ===== *)
theory Page_Allocator imports Paging begin

text \<open>
  The contract of the page frame manager as an interface, \<open>page_allocator\<close>, what a client may conclude
  from it, and the discharge of the contract by \<open>paging.c\<close>; then the entries as the bits the MMU reads.
\<close>

primrec alloc_all :: "(u32 \<Rightarrow> 's \<Rightarrow> bool \<times> 's) \<Rightarrow> u32 list \<Rightarrow> 's \<Rightarrow> bool \<times> 's" where
  "alloc_all alloc [] s = (True, s)"
| "alloc_all alloc (v # vs) s = (case alloc v s of (ok, s') \<Rightarrow> if ok then alloc_all alloc vs s' else (False, s'))"

locale page_allocator =
  fixes alloc :: "u32 \<Rightarrow> 's \<Rightarrow> bool \<times> 's"
    and release :: "u32 \<Rightarrow> 's \<Rightarrow> (bool \<times> 's) option"
    and avail :: "'s \<Rightarrow> nat set"
    and pages :: "'s \<Rightarrow> nat \<Rightarrow> (bool \<times> nat) option"
    and good :: "'s \<Rightarrow> bool"
  assumes avail_finite: "finite (avail s)"
    and alloc_full: "avail s = {} \<Longrightarrow> alloc v s = (False, s)"
    and alloc_law: "good s \<Longrightarrow> avail s \<noteq> {} \<Longrightarrow> pages s (page_index v) = None \<Longrightarrow>
      \<exists>s'. alloc v s = (True, s') \<and> good s' \<and> avail s' = avail s - {Min (avail s)}
        \<and> pages s' = (pages s)(page_index v \<mapsto> (True, Min (avail s)))"
    and release_law: "good s \<Longrightarrow> pages s (page_index v) = Some (True, f) \<Longrightarrow>
      \<exists>s'. release v s = Some (True, s') \<and> good s' \<and> avail s' = insert f (avail s)
        \<and> pages s' = (pages s)(page_index v := None)"
    and release_absent: "pages s (page_index v) = None \<Longrightarrow> release v s = Some (False, s)"
    and mapped_not_avail: "good s \<Longrightarrow> pages s i = Some (u, f) \<Longrightarrow> f \<notin> avail s"
    and user_page_unique: "good s \<Longrightarrow> pages s i = Some (True, f) \<Longrightarrow> pages s j = Some (u, f) \<Longrightarrow> i = j"
begin

lemma alloc_all_succeeds:
  "good s \<Longrightarrow> distinct (map page_index vs) \<Longrightarrow> \<forall>v\<in>set vs. pages s (page_index v) = None \<Longrightarrow> length vs \<le> card (avail s) \<Longrightarrow>
   \<exists>s'. alloc_all alloc vs s = (True, s') \<and> good s' \<and> card (avail s') = card (avail s) - length vs
     \<and> (\<forall>v\<in>set vs. \<exists>f\<in>avail s. pages s' (page_index v) = Some (True, f))
     \<and> (\<forall>i. i \<notin> page_index ` set vs \<longrightarrow> pages s' i = pages s i)"
proof (induction vs arbitrary: s)
  case (Cons v vs)
  then have ne: "avail s \<noteq> {}" by auto
  have m: "Min (avail s) \<in> avail s" using ne avail_finite by simp
  from alloc_law [OF Cons.prems(1) ne, of v] Cons.prems(3) obtain s1 where
    s1: "alloc v s = (True, s1)" "good s1" "avail s1 = avail s - {Min (avail s)}"
      "pages s1 = (pages s)(page_index v \<mapsto> (True, Min (avail s)))" by auto
  have new: "page_index w \<noteq> page_index v" if "w \<in> set vs" for w using Cons.prems(2) image_eqI [OF _ that, of "page_index v" page_index] by auto
  then have "\<forall>w\<in>set vs. pages s1 (page_index w) = None" using Cons.prems(3) by (simp add: s1(4))
  moreover have c1: "card (avail s1) = card (avail s) - 1" using m by (simp add: s1(3))
  moreover from c1 have "length vs \<le> card (avail s1)" using Cons.prems(4) by simp
  ultimately obtain s' where s': "alloc_all alloc vs s1 = (True, s')" "good s'" "card (avail s') = card (avail s1) - length vs"
      "\<forall>w\<in>set vs. \<exists>f\<in>avail s1. pages s' (page_index w) = Some (True, f)"
      "\<forall>i. i \<notin> page_index ` set vs \<longrightarrow> pages s' i = pages s1 i"
    using Cons.IH [OF s1(2)] Cons.prems by auto
  have "pages s' (page_index v) = Some (True, Min (avail s))" using s'(5) Cons.prems(2) by (auto simp: s1(4))
  then have "\<forall>w\<in>set (v # vs). \<exists>f\<in>avail s. pages s' (page_index w) = Some (True, f)"
    using m s'(4) by (auto simp: s1(3))
  moreover have "\<forall>i. i \<notin> page_index ` set (v # vs) \<longrightarrow> pages s' i = pages s i" using s'(5) by (simp add: s1(4))
  ultimately show ?case using s' s1(1) c1 by simp
qed simp

lemma alloc_all_fails:
  "good s \<Longrightarrow> distinct (map page_index vs) \<Longrightarrow> \<forall>v\<in>set vs. pages s (page_index v) = None \<Longrightarrow> card (avail s) < length vs \<Longrightarrow>
   \<not> fst (alloc_all alloc vs s)"
proof (induction vs arbitrary: s)
  case (Cons v vs)
  show ?case
  proof (cases "avail s = {}")
    case False
    from alloc_law [OF Cons.prems(1) False, of v] Cons.prems(3) obtain s1 where
      s1: "alloc v s = (True, s1)" "good s1" "avail s1 = avail s - {Min (avail s)}"
        "pages s1 = (pages s)(page_index v \<mapsto> (True, Min (avail s)))" by auto
    have m: "Min (avail s) \<in> avail s" "0 < card (avail s)" using False avail_finite by (simp_all add: card_gt_0_iff)
    then have "card (avail s1) = card (avail s) - 1" by (simp add: s1(3))
    with m(2) Cons.prems(4) have "card (avail s1) < length vs" by simp
    moreover have "page_index w \<noteq> page_index v" if "w \<in> set vs" for w using Cons.prems(2) image_eqI [OF _ that, of "page_index v" page_index] by auto
    then have "\<forall>w\<in>set vs. pages s1 (page_index w) = None" using Cons.prems(3) by (simp add: s1(4))
    ultimately have "\<not> fst (alloc_all alloc vs s1)" using Cons.IH [OF s1(2)] Cons.prems(2) by simp
    with s1(1) show ?thesis by simp
  qed (simp add: alloc_full)
qed simp

text \<open>Exactly as many fresh pages can be allocated as frames are available.\<close>

lemma alloc_all_iff:
  "good s \<Longrightarrow> distinct (map page_index vs) \<Longrightarrow> \<forall>v\<in>set vs. pages s (page_index v) = None \<Longrightarrow>
   fst (alloc_all alloc vs s) \<longleftrightarrow> length vs \<le> card (avail s)"
  using alloc_all_succeeds [of s vs] alloc_all_fails [of s vs] by fastforce

lemma alloc_release:
  assumes "good s" and "avail s \<noteq> {}" and "pages s (page_index v) = None"
  shows "\<exists>s1 s2. alloc v s = (True, s1) \<and> release v s1 = Some (True, s2) \<and> good s2 \<and> avail s2 = avail s \<and> pages s2 = pages s"
proof -
  from alloc_law [OF assms] obtain s1 where s1: "alloc v s = (True, s1)" "good s1"
    "avail s1 = avail s - {Min (avail s)}" "pages s1 = (pages s)(page_index v \<mapsto> (True, Min (avail s)))" by blast
  then have "pages s1 (page_index v) = Some (True, Min (avail s))" by simp
  from release_law [OF s1(2) this] obtain s2 where "release v s1 = Some (True, s2)" "good s2"
    "avail s2 = insert (Min (avail s)) (avail s1)" "pages s2 = (pages s1)(page_index v := None)" by blast
  moreover have "Min (avail s) \<in> avail s" using assms(2) avail_finite by simp
  moreover have "(pages s)(page_index v := None) = pages s" using assms(3) by (simp add: fun_upd_idem)
  ultimately show ?thesis using s1 by (auto simp: insert_absorb)
qed

end

section \<open>The manager of \<open>paging.c\<close> keeps the contract\<close>

type_synonym paging_state = "page_directory \<times> PageManagerState"

definition pm_alloc :: "PageDirectoryEntryFlag \<Rightarrow> u32 \<Rightarrow> paging_state \<Rightarrow> bool \<times> paging_state" where
  "pm_alloc junk v s = paging_allocate_user_page_frame junk (fst s) v (snd s)"

definition pm_release :: "u32 \<Rightarrow> paging_state \<Rightarrow> (bool \<times> paging_state) option" where
  "pm_release v s = paging_free_user_page_frame (fst s) v (snd s)"

definition pm_good :: "paging_state \<Rightarrow> bool" where
  "pm_good s = paging_inv (fst s) (snd s)"

interpretation pm: page_allocator "pm_alloc junk" pm_release "\<lambda>s. free_frames (snd s)" "\<lambda>s. mapped_page (fst s)" pm_good
  for junk
proof
  fix s :: paging_state and v
  assume g: "pm_good s" and ne: "free_frames (snd s) \<noteq> {}" and vac: "mapped_page (fst s) (page_index v) = None"
  from allocate_effect [of "fst s" "snd s" junk v] g ne obtain dir' st' where
    r: "paging_allocate_user_page_frame junk (fst s) v (snd s) = (True, dir', st')"
    "mapped_page dir' = (mapped_page (fst s))(page_index v \<mapsto> (True, Min (free_frames (snd s))))"
    "free_frames st' = free_frames (snd s) - {Min (free_frames (snd s))}" by (auto simp: pm_good_def)
  with paging_inv_allocate [OF _ vac r(1)] g
  show "\<exists>s'. pm_alloc junk v s = (True, s') \<and> pm_good s' \<and> free_frames (snd s') = free_frames (snd s) - {Min (free_frames (snd s))}
      \<and> mapped_page (fst s') = (mapped_page (fst s))(page_index v \<mapsto> (True, Min (free_frames (snd s))))"
    by (simp add: pm_alloc_def pm_good_def)
next
  fix s :: paging_state and v f
  assume g: "pm_good s" and m: "mapped_page (fst s) (page_index v) = Some (True, f)"
  from free_effect [of "fst s" "snd s" v True f] g m obtain dir' st' where
    r: "paging_free_user_page_frame (fst s) v (snd s) = Some (True, dir', st')"
    "mapped_page dir' = (mapped_page (fst s))(page_index v := None)" "free_frames st' = insert f (free_frames (snd s))"
    by (auto simp: pm_good_def)
  with paging_inv_free [OF _ m r(1)] g
  show "\<exists>s'. pm_release v s = Some (True, s') \<and> pm_good s' \<and> free_frames (snd s') = insert f (free_frames (snd s))
      \<and> mapped_page (fst s') = (mapped_page (fst s))(page_index v := None)"
    by (simp add: pm_release_def pm_good_def)
next
  fix s :: paging_state and v assume "free_frames (snd s) = {}"
  then show "pm_alloc junk v s = (False, s)" by (simp add: pm_alloc_def allocate_none)
next
  fix s :: paging_state and v assume "mapped_page (fst s) (page_index v) = None"
  then show "pm_release v s = Some (False, s)" by (simp add: pm_release_def free_none)
next
  fix s :: paging_state and i u f assume "pm_good s" "mapped_page (fst s) i = Some (u, f)"
  then show "f \<notin> free_frames (snd s)" unfolding pm_good_def paging_inv_def by blast
next
  fix s :: paging_state and i j u f
  assume "pm_good s" "mapped_page (fst s) i = Some (True, f)" "mapped_page (fst s) j = Some (u, f)"
  then show "i = j" unfolding pm_good_def paging_inv_def by blast
qed simp

section \<open>Entries as the MMU reads them\<close>

definition encode_flag :: "PageDirectoryEntryFlag \<Rightarrow> u32" where
  "encode_flag f = of_bool (present_bit f) OR push_bit 1 (of_bool (read_write f)) OR push_bit 2 (of_bool (user_supervisor f))
     OR push_bit 3 (of_bool (write_through f)) OR push_bit 4 (of_bool (cache_disabled f)) OR push_bit 5 (of_bool (accessed f))
     OR push_bit 6 (of_bool (dirty f)) OR push_bit 7 (of_bool (page_size f))"

definition encode_pde :: "PageDirectoryEntry \<Rightarrow> u32" where
  "encode_pde e = encode_flag (flag e) OR push_bit 8 (ucast (global_page e)) OR push_bit 9 (ucast (ignored e))
     OR push_bit 12 (ucast (pat e)) OR push_bit 13 (ucast (higher_address e)) OR push_bit 17 (ucast (reserved_1 e))
     OR push_bit 21 (ucast (reserved_2 e)) OR push_bit 22 (ucast (lower_address e))"

text \<open>
  The translation of a 4 MiB page by the processor (present bit and page-size bit set, bits 22 to 31
  of the entry are the frame).
\<close>

definition mmu_translate :: "(nat \<Rightarrow> u32) \<Rightarrow> u32 \<Rightarrow> u32 option" where
  "mmu_translate pd v = (let e = pd (page_index v) in
     if bit e 0 \<and> bit e 7 then Some (push_bit 22 (drop_bit 22 e) OR (v AND 0x3FFFFF)) else None)"

definition directory_bits :: "page_directory \<Rightarrow> nat \<Rightarrow> u32" where
  "directory_bits dir i = encode_pde (dir ! i)"

lemma encode_flag_bits [simp]:
  "bit (encode_flag f) 0 = present_bit f" "bit (encode_flag f) 7 = page_size f" "bit (encode_flag f) 1 = read_write f"
  "bit (encode_flag f) 2 = user_supervisor f"
  by (auto simp: encode_flag_def bit_simps)

lemma encode_flag_high: "8 \<le> n \<Longrightarrow> \<not> bit (encode_flag f) n"
  by (auto simp: encode_flag_def bit_simps)

lemma encode_pde_low: "n < 8 \<Longrightarrow> bit (encode_pde e) n = bit (encode_flag (flag e)) n"
  by (auto simp: encode_pde_def bit_simps)

lemma word_bit_bound: "bit (w :: 'a::len word) n \<Longrightarrow> n < LENGTH('a)"
  by (rule bit_imp_le_length)

lemma encode_pde_frame: "drop_bit 22 (encode_pde e) = (ucast (lower_address e) :: u32)"
proof (rule bit_word_eqI)
  fix n assume "n < LENGTH(32)"
  have "\<not> bit (global_page e) (14 + n)" "\<not> bit (ignored e) (13 + n)" "\<not> bit (pat e) (10 + n)"
    "\<not> bit (higher_address e) (9 + n)" "\<not> bit (reserved_1 e) (5 + n)" "\<not> bit (reserved_2 e) (Suc n)"
    by (auto dest!: word_bit_bound)
  moreover have "\<not> bit (encode_flag (flag e)) (22 + n)" by (rule encode_flag_high) simp
  ultimately show "bit (drop_bit 22 (encode_pde e)) n = bit (ucast (lower_address e) :: u32) n"
    using \<open>n < LENGTH(32)\<close> word_bit_bound [of "lower_address e" n] by (auto simp: encode_pde_def bit_simps)
qed

lemma translate_encoded:
  "mmu_translate (directory_bits dir) v = (let e = dir ! page_index v in
     if present_bit (flag e) \<and> page_size (flag e)
     then Some (push_bit 22 (ucast (lower_address e)) OR (v AND 0x3FFFFF)) else None)"
  by (simp add: mmu_translate_def directory_bits_def Let_def encode_pde_low encode_pde_frame)

lemma unat_frame_address:
  "unat (push_bit 22 (ucast (w :: 10 word)) OR (v AND 0x3FFFFF) :: u32) = 4194304 * unat w + unat v mod 4194304"
proof -
  have w: "unat w < 1024" using unsigned_less [of w, where ?'a = nat] by simp
  have m: "v AND 0x3FFFFF = take_bit 22 v" by (simp add: take_bit_eq_mask mask_eq_exp_minus_1)
  have "push_bit 22 (ucast w) AND take_bit 22 v = (0 :: u32)" by (rule bit_word_eqI) (auto simp: bit_simps)
  then have "push_bit 22 (ucast w) OR take_bit 22 v = push_bit 22 (ucast w) + take_bit 22 v"
    by (rule disjunctive_add_eq_or [symmetric])
  moreover have "unat (push_bit 22 (ucast w) :: u32) = 4194304 * unat w"
    using w by (simp add: push_bit_eq_mult unat_word_ariths unsigned_ucast_eq take_bit_nat_eq_self)
  moreover have "unat (take_bit 22 v) = unat v mod 4194304" by (subst unsigned_take_bit_eq) (simp add: take_bit_eq_mod)
  moreover have "4194304 * unat w + unat v mod 4194304 < 2 ^ 32"
    using w mod_less_divisor [of 4194304 "unat v"] by simp
  ultimately show ?thesis by (simp add: m unat_word_ariths)
qed

lemma translate_mapped:
  "mmu_translate (directory_bits dir) v = (if present_bit (flag (dir ! page_index v)) \<and> page_size (flag (dir ! page_index v))
     then Some (push_bit 22 (ucast (lower_address (dir ! page_index v))) OR (v AND 0x3FFFFF)) else None)"
  by (simp add: translate_encoded Let_def)

lemma page_index_div: "page_index v = unat v div 4194304"
proof -
  have "drop_bit 22 v AND 0x3FF = take_bit 10 (drop_bit 22 v)" by (simp add: take_bit_eq_mask mask_eq_exp_minus_1)
  also have "\<dots> = drop_bit 22 v" by (rule bit_word_eqI) (auto simp: bit_simps dest: word_bit_bound)
  finally have "drop_bit 22 v AND 0x3FF = drop_bit 22 v" .
  moreover have "unat (drop_bit 22 v) = unat v div 4194304" using unat_u32_less [of v]
    by (subst unsigned_drop_bit_eq) (simp add: drop_bit_eq_div take_bit_nat_eq_self)
  ultimately show ?thesis by (simp only: page_index_def)
qed

section \<open>The boot state\<close>

lemma mapped_page_boot:
  "mapped_page paging_kernel_page_directory i = (if i = 0 \<or> i = 0x300 then Some (False, 0) else None)"
  by (auto simp: mapped_page_def paging_kernel_page_directory_def PAGE_ENTRY_COUNT_def nth_list_update kernel_pde_def
      zero_pde_def zero_flag_def)

lemma free_frames_boot: "free_frames page_manager_state = {1..<32}"
  by (auto simp: free_frames_def page_manager_state_def PAGE_FRAME_MAX_COUNT_eq nth_Cons' split: if_splits)

lemma boot_good: "pm_good (paging_kernel_page_directory, page_manager_state)"
  using free_frames_boot
  by (auto simp: pm_good_def paging_inv_def mapped_page_boot PAGE_FRAME_MAX_COUNT_eq split: if_splits)
    (simp_all add: paging_kernel_page_directory_def page_manager_state_def PAGE_FRAME_MAX_COUNT_eq)

section \<open>Properties\<close>

text \<open>
  C6. \<open>paging_allocate_user_page_frame\<close> on a page that is not mapped: it returns false and changes
  nothing exactly when no frame is free; otherwise it takes the lowest free frame, maps the page to it
  for user code, invalidates the page's translation, and keeps the invariant (the count is the number
  of free frames, mapped frames are not free, a user page shares its frame with no other page).
\<close>

theorem allocate_refines:
  assumes "paging_inv dir st" and "mapped_page dir (page_index v) = None"
  shows "if free_frames st = {} then paging_allocate_user_page_frame junk dir v st = (False, dir, st)
    else \<exists>dir' st'. paging_allocate_user_page_frame junk dir v st = (True, dir', st') \<and> paging_inv dir' st'
      \<and> mapped_page dir' = (mapped_page dir)(page_index v \<mapsto> (True, Min (free_frames st)))
      \<and> free_frames st' = free_frames st - {Min (free_frames st)} \<and> invalidated st' = v # invalidated st"
  using allocate_none [of st junk dir v] allocate_effect [OF assms(1), of junk v] paging_inv_allocate [OF assms]
  by (simp split: if_splits) metis

theorem allocate_refines_witness:
  "\<exists>dir' st'. paging_allocate_user_page_frame zero_flag paging_kernel_page_directory 0x400000 page_manager_state = (True, dir', st')
    \<and> mapped_page dir' 1 = Some (True, 1) \<and> free_frames st' = {1..<32} - {1}"
proof -
  have "page_index 0x400000 = 1" by (simp add: page_index_def)
  moreover have "Min {1..<32 :: nat} = 1" by (rule Min_eqI) auto
  ultimately show ?thesis
    using allocate_refines [of paging_kernel_page_directory page_manager_state "0x400000" zero_flag] boot_good
    by (auto simp: pm_good_def mapped_page_boot free_frames_boot)
qed

text \<open>
  C35. \<open>paging_free_user_page_frame\<close>: false and no change for a page that is not present; for a user
  page it unmaps the page, makes exactly its frame free again, invalidates the translation and keeps
  the invariant.
\<close>

theorem free_refines:
  assumes "paging_inv dir st" and "\<And>u f. mapped_page dir (page_index v) = Some (u, f) \<Longrightarrow> u"
  shows "\<exists>dir' st'. paging_free_user_page_frame dir v st = Some (mapped_page dir (page_index v) \<noteq> None, dir', st')
    \<and> paging_inv dir' st' \<and> mapped_page dir' = (mapped_page dir)(page_index v := None)
    \<and> (case mapped_page dir (page_index v) of
         None \<Rightarrow> dir' = dir \<and> st' = st
       | Some (u, f) \<Rightarrow> free_frames st' = insert f (free_frames st) \<and> invalidated st' = v # invalidated st)"
proof (cases "mapped_page dir (page_index v)")
  case None
  with free_none [OF None, of st] assms(1) show ?thesis by (auto simp: fun_upd_idem)
next
  case (Some p)
  then obtain f where m: "mapped_page dir (page_index v) = Some (True, f)" using assms(2) by (cases p) auto
  from free_effect [OF assms(1) m] obtain dir' st' where
    r: "paging_free_user_page_frame dir v st = Some (True, dir', st')"
    and e: "mapped_page dir' = (mapped_page dir)(page_index v := None)" "free_frames st' = insert f (free_frames st)"
      "invalidated st' = v # invalidated st" by blast
  from paging_inv_free [OF assms(1) m r] r e m show ?thesis by auto
qed

text \<open>Nothing is freed where nothing is mapped; a page allocated after the boot gives its frame back.\<close>

theorem free_refines_witness:
  "paging_free_user_page_frame paging_kernel_page_directory 0x400000 page_manager_state
      = Some (False, paging_kernel_page_directory, page_manager_state)
    \<and> (\<exists>dir st dir' st'. paging_allocate_user_page_frame zero_flag paging_kernel_page_directory 0x400000 page_manager_state = (True, dir, st)
        \<and> free_frames st = {1..<32} - {1} \<and> paging_free_user_page_frame dir 0x400000 st = Some (True, dir', st')
        \<and> mapped_page dir' 1 = None \<and> free_frames st' = {1..<32} \<and> invalidated st' = [0x400000, 0x400000])"
proof -
  have i: "page_index 0x400000 = 1" by (simp add: page_index_def)
  have inv: "paging_inv paging_kernel_page_directory page_manager_state" using boot_good by (simp add: pm_good_def)
  have none: "mapped_page paging_kernel_page_directory (page_index 0x400000) = None" by (simp add: i mapped_page_boot)
  have min: "Min {1..<32 :: nat} = 1" by (rule Min_eqI) auto
  have ne: "free_frames page_manager_state \<noteq> {}" by (simp add: free_frames_boot)
  have start: "invalidated page_manager_state = []" by (simp add: page_manager_state_def)
  from allocate_effect [OF inv ne, of zero_flag "0x400000", unfolded i free_frames_boot min start] obtain dir st where
    a: "paging_allocate_user_page_frame zero_flag paging_kernel_page_directory 0x400000 page_manager_state = (True, dir, st)"
    and e: "mapped_page dir = (mapped_page paging_kernel_page_directory)(1 \<mapsto> (True, 1))" "free_frames st = {1..<32} - {1}"
      "invalidated st = [0x400000]"
    by blast
  have "paging_inv dir st" by (rule paging_inv_allocate [OF inv none a])
  from free_refines [OF this, of "0x400000"] obtain dir' st' where
    "paging_free_user_page_frame dir 0x400000 st = Some (True, dir', st')" "mapped_page dir' 1 = None"
    "free_frames st' = insert 1 (free_frames st)" "invalidated st' = 0x400000 # invalidated st"
    by (auto simp: i e)
  moreover have "insert 1 ({1..<32} - {1 :: nat}) = {1..<32}" by auto
  moreover have "paging_free_user_page_frame paging_kernel_page_directory 0x400000 page_manager_state
      = Some (False, paging_kernel_page_directory, page_manager_state)"
    using free_refines [OF inv, of "0x400000"] by (auto simp: i mapped_page_boot)
  ultimately show ?thesis using a e by auto
qed

text \<open>
  C36. \<open>paging_allocate_check\<close> is exact: for any list of distinct pages that are not mapped, allocating
  all of them one after another succeeds if and only if the check of their number says yes.
\<close>

theorem allocate_check_exact:
  assumes "pm_good s" and "distinct (map page_index vs)" and "\<forall>v\<in>set vs. mapped_page (fst s) (page_index v) = None"
  shows "fst (alloc_all (pm_alloc junk) vs s) \<longleftrightarrow> paging_allocate_check (of_nat (length vs)) (snd s)"
proof -
  have "distinct (map page_index vs) \<Longrightarrow> length vs \<le> card {..<PAGE_ENTRY_COUNT}"
    using card_mono [of "{..<PAGE_ENTRY_COUNT}" "set (map page_index vs)"] distinct_card [of "map page_index vs"] page_index_less
    by fastforce
  then have "unat (of_nat (length vs) :: u32) = length vs"
    using assms(2) by (intro unat_of_nat_u32) (simp add: PAGE_ENTRY_COUNT_def)
  moreover have "unat (free_page_frame_count (snd s)) = card (free_frames (snd s))"
    using assms(1) by (simp add: pm_good_def paging_inv_def)
  ultimately show ?thesis
    using pm.alloc_all_iff [OF assms, of junk] by (simp add: paging_allocate_check_def word_le_nat_alt)
qed

theorem allocate_check_exact_witness:
  "fst (alloc_all (pm_alloc zero_flag) [0x400000, 0x800000] (paging_kernel_page_directory, page_manager_state))"
proof -
  have i: "page_index 0x400000 = 1" "page_index 0x800000 = 2" by (simp_all add: page_index_def)
  have "paging_allocate_check (of_nat (length [0x400000, 0x800000 :: u32])) page_manager_state"
    by (simp add: paging_allocate_check_def page_manager_state_def PAGE_FRAME_MAX_COUNT_eq)
  with allocate_check_exact [OF boot_good, of "[0x400000, 0x800000]" zero_flag] show ?thesis
    by (simp add: i mapped_page_boot del: alloc_all.simps)
qed

text \<open>
  Allocating a page and freeing it again restores the set of free frames and the mapping of every
  page.
\<close>

theorem free_undoes_allocate:
  assumes "pm_good s" and "free_frames (snd s) \<noteq> {}" and "mapped_page (fst s) (page_index v) = None"
  shows "\<exists>s1 s2. pm_alloc junk v s = (True, s1) \<and> pm_release v s1 = Some (True, s2) \<and> pm_good s2
    \<and> free_frames (snd s2) = free_frames (snd s) \<and> mapped_page (fst s2) = mapped_page (fst s)"
  by (rule pm.alloc_release [OF assms])

theorem free_undoes_allocate_witness:
  "\<exists>s1 s2. pm_alloc zero_flag 0x400000 (paging_kernel_page_directory, page_manager_state) = (True, s1)
    \<and> pm_release 0x400000 s1 = Some (True, s2) \<and> free_frames (snd s2) = {1..<32}"
proof -
  have "page_index 0x400000 = 1" by (simp add: page_index_def)
  with free_undoes_allocate [OF boot_good, of "0x400000" zero_flag] show ?thesis
    by (auto simp: mapped_page_boot free_frames_boot)
qed

text \<open>
  Allocating a page that is already mapped to a user frame loses that frame: it stays marked as
  used while no page maps it any more, so no release can give it back.
\<close>

theorem reallocation_leaks:
  assumes "paging_inv dir st" and "free_frames st \<noteq> {}" and "mapped_page dir (page_index v) = Some (True, f)"
  shows "\<exists>dir' st'. paging_allocate_user_page_frame junk dir v st = (True, dir', st')
    \<and> f < PAGE_FRAME_MAX_COUNT \<and> f \<notin> free_frames st' \<and> (\<forall>i u. mapped_page dir' i \<noteq> Some (u, f))"
proof -
  from allocate_effect [OF assms(1,2), of junk v] obtain dir' st' where
    r: "paging_allocate_user_page_frame junk dir v st = (True, dir', st')"
    and m: "mapped_page dir' = (mapped_page dir)(page_index v \<mapsto> (True, Min (free_frames st)))"
    and fr: "free_frames st' = free_frames st - {Min (free_frames st)}" by blast
  have f: "f < PAGE_FRAME_MAX_COUNT" "f \<notin> free_frames st" using assms(1,3) unfolding paging_inv_def by blast+
  have "Min (free_frames st) \<in> free_frames st" using assms(2) by simp
  then have "mapped_page dir' i \<noteq> Some (u, f)" for i u
  proof (cases "i = page_index v")
    case False
    then have "mapped_page dir' i = mapped_page dir i" by (simp add: m)
    with False assms(1,3) show ?thesis unfolding paging_inv_def by metis
  qed (use f \<open>Min (free_frames st) \<in> free_frames st\<close> in \<open>auto simp: m\<close>)
  with r f fr show ?thesis by auto
qed

theorem reallocation_leaks_witness:
  "\<exists>dir st dir' st'. paging_allocate_user_page_frame zero_flag dir 0x400000 st = (True, dir', st')
    \<and> 1 \<notin> free_frames st' \<and> (\<forall>i u. mapped_page dir' i \<noteq> Some (u, 1))"
proof -
  have i: "page_index 0x400000 = 1" by (simp add: page_index_def)
  have m: "Min {Suc 0..<32} = Suc 0" by (rule Min_eqI) auto
  have inv: "paging_inv paging_kernel_page_directory page_manager_state" using boot_good by (simp add: pm_good_def)
  from allocate_effect [OF inv, of zero_flag "0x400000"] obtain dir st where
    r: "paging_allocate_user_page_frame zero_flag paging_kernel_page_directory 0x400000 page_manager_state = (True, dir, st)"
    and e: "mapped_page dir 1 = Some (True, 1)" "free_frames st = {1..<32} - {1}" by (auto simp: i m free_frames_boot)
  have "paging_inv dir st" by (rule paging_inv_allocate [OF inv _ r]) (simp add: i mapped_page_boot)
  moreover have "(2 :: nat) \<in> {1..<32} - {1}" by simp
  then have "free_frames st \<noteq> {}" unfolding e(2) by blast
  moreover have "mapped_page dir (page_index 0x400000) = Some (True, 1)" using e(1) i by simp
  ultimately show ?thesis using reallocation_leaks [of dir st "0x400000" 1 zero_flag] by blast
qed

text \<open>
  C37. What the processor sees after a successful allocation: every address of the page is translated
  to the same offset in the allocated frame, at the frame's physical address, and no other page's
  translation changes, whatever the uninitialised flag bits were.
\<close>

theorem allocated_page_translates:
  assumes "paging_inv dir st" and "paging_allocate_user_page_frame junk dir v st = (True, dir', st')"
  shows "\<exists>f p. f \<in> free_frames st \<and> f \<notin> free_frames st' \<and> mmu_translate (directory_bits dir') v = Some p
    \<and> unat p = 4194304 * f + unat v mod 4194304
    \<and> (\<forall>w. page_index w \<noteq> page_index v \<longrightarrow> mmu_translate (directory_bits dir') w = mmu_translate (directory_bits dir) w)"
proof -
  have ne: "free_frames st \<noteq> {}" using assms(2) allocate_none [of st junk dir v] by auto
  let ?f = "Min (free_frames st)"
  have f: "?f \<in> free_frames st" using ne by simp
  then have "?f < PAGE_FRAME_MAX_COUNT" by (simp add: mem_free_frames)
  note fa = frame_of_address [OF this]
  have len: "length dir = PAGE_ENTRY_COUNT" using assms(1) by (simp add: paging_inv_def)
  from allocate_effect [OF assms(1) ne, of junk v] assms(2) have fr: "free_frames st' = free_frames st - {?f}" by auto
  have dir': "dir' = dir[page_index v := (dir ! page_index v)\<lparr>flag := user_flag junk,
      lower_address := ucast (drop_bit 22 (of_nat ?f * PAGE_FRAME_SIZE) AND 0x3FF)\<rparr>]"
    using assms(2) by (auto simp: paging_allocate_user_page_frame_def scan_free_frames ne Let_def update_page_directory_entry_def)
  have "mmu_translate (directory_bits dir') v
      = Some (push_bit 22 (ucast (ucast (drop_bit 22 (of_nat ?f * PAGE_FRAME_SIZE) AND 0x3FF) :: 10 word)) OR (v AND 0x3FFFFF))"
    using len page_index_less [of v] by (simp add: translate_mapped dir' user_flag_def)
  moreover have "mmu_translate (directory_bits dir') w = mmu_translate (directory_bits dir) w" if "page_index w \<noteq> page_index v" for w
    using that by (simp add: translate_mapped dir')
  ultimately show ?thesis using f fr fa unat_frame_address by (auto simp: exI [of _ ?f])
qed

theorem allocated_page_translates_witness:
  "\<exists>dir' st' p. paging_allocate_user_page_frame zero_flag paging_kernel_page_directory 0x400000 page_manager_state = (True, dir', st')
    \<and> mmu_translate (directory_bits dir') 0x400000 = Some p"
proof -
  have inv: "paging_inv paging_kernel_page_directory page_manager_state" using boot_good by (simp add: pm_good_def)
  from allocate_effect [OF inv, of zero_flag "0x400000"] obtain dir' st' where
    "paging_allocate_user_page_frame zero_flag paging_kernel_page_directory 0x400000 page_manager_state = (True, dir', st')"
    by (auto simp: free_frames_boot)
  with allocated_page_translates [OF inv this] show ?thesis by blast
qed

text \<open>
  The kernel's page directory maps the low 4 MiB to themselves and the 4 MiB from 0xC0000000 on to
  the same physical memory, and nothing else.
\<close>

theorem kernel_directory_maps:
  "mmu_translate (directory_bits paging_kernel_page_directory) v =
    (if unat v < 0x400000 \<or> 0xC0000000 \<le> unat v \<and> unat v < 0xC0400000 then Some (v AND 0x3FFFFF) else None)"
proof -
  note i = page_index_div [of v]
  have "unat v div 4194304 = 0 \<longleftrightarrow> unat v < 0x400000" by (simp add: div_eq_0_iff)
  moreover have "unat v div 4194304 = 0x300 \<longleftrightarrow> 0xC0000000 \<le> unat v \<and> unat v < 0xC0400000" by auto
  moreover have "unat v div 4194304 < 1024" using unat_u32_less [of v] by simp
  ultimately show ?thesis
    by (auto simp: translate_mapped i paging_kernel_page_directory_def PAGE_ENTRY_COUNT_def nth_list_update kernel_pde_def
        zero_pde_def zero_flag_def)
qed

end
