(* ===== verification/Gdt.thy ===== *)
theory Gdt imports Prelude begin

text \<open>
  The global descriptor table, \<open>src/ch0/gdt\<close>: the segment descriptor with its bit fields, the
  predefined table, the TSS descriptor installed at boot, and the 64-bit descriptor the processor reads.
\<close>

section \<open>Data\<close>

record SegmentDescriptor =
  segment_low :: u16
  base_low :: u16
  base_mid :: u8
  type_bit :: "4 word"
  non_system :: "1 word"
  privilege :: "2 word"
  valid_bit :: "1 word"
  segment_high :: "4 word"
  avl :: "1 word"
  long_mode :: "1 word"
  opr_32_bit :: "1 word"
  granularity :: "1 word"
  base_high :: u8

type_synonym gdt_table = "SegmentDescriptor list"

definition GDT_MAX_ENTRY_COUNT :: nat where [kernel_defs]: "GDT_MAX_ENTRY_COUNT = 32"
definition GDT_KERNEL_CODE_SEGMENT_SELECTOR :: u16 where [kernel_defs]: "GDT_KERNEL_CODE_SEGMENT_SELECTOR = 0x8"
definition GDT_KERNEL_DATA_SEGMENT_SELECTOR :: u16 where [kernel_defs]: "GDT_KERNEL_DATA_SEGMENT_SELECTOR = 0x10"
definition GDT_USER_CODE_SEGMENT_SELECTOR :: u16 where [kernel_defs]: "GDT_USER_CODE_SEGMENT_SELECTOR = 0x18"
definition GDT_USER_DATA_SEGMENT_SELECTOR :: u16 where [kernel_defs]: "GDT_USER_DATA_SEGMENT_SELECTOR = 0x20"
definition GDT_TSS_SELECTOR :: u16 where [kernel_defs]: "GDT_TSS_SELECTOR = 0x28"

text \<open>\<open>struct TSSEntry\<close>: three words used by the kernel and 23 unused ones.\<close>

record TSSEntry =
  prev_tss :: u32
  esp0 :: u32
  ss0 :: u32
  unused_register :: "u32 list"

definition sizeof_TSSEntry :: nat where [kernel_defs]: "sizeof_TSSEntry = 4 * (3 + 23)"

definition zero_descriptor :: SegmentDescriptor where
  "zero_descriptor = \<lparr>segment_low = 0, base_low = 0, base_mid = 0, type_bit = 0, non_system = 0, privilege = 0,
     valid_bit = 0, segment_high = 0, avl = 0, long_mode = 0, opr_32_bit = 0, granularity = 0, base_high = 0\<rparr>"

definition kernel_code_descriptor :: SegmentDescriptor where
  "kernel_code_descriptor = \<lparr>segment_low = 0xFFFF, base_low = 0, base_mid = 0, type_bit = 0b1010, non_system = 1,
     privilege = 0, valid_bit = 1, segment_high = 0xF, avl = 0, long_mode = 0, opr_32_bit = 1, granularity = 1, base_high = 0\<rparr>"

definition kernel_data_descriptor :: SegmentDescriptor where
  "kernel_data_descriptor = \<lparr>segment_low = 0xFFFF, base_low = 0, base_mid = 0, type_bit = 0b0010, non_system = 1,
     privilege = 0, valid_bit = 1, segment_high = 0xF, avl = 0, long_mode = 0, opr_32_bit = 1, granularity = 1, base_high = 0\<rparr>"

definition user_code_descriptor :: SegmentDescriptor where
  "user_code_descriptor = \<lparr>segment_low = 0xFFFF, base_low = 0, base_mid = 0, type_bit = 0b1010, non_system = 1,
     privilege = 0x3, valid_bit = 1, segment_high = 0xF, avl = 0, long_mode = 0, opr_32_bit = 1, granularity = 1, base_high = 0\<rparr>"

definition user_data_descriptor :: SegmentDescriptor where
  "user_data_descriptor = \<lparr>segment_low = 0xFFFF, base_low = 0, base_mid = 0, type_bit = 0b0010, non_system = 1,
     privilege = 0x3, valid_bit = 1, segment_high = 0xF, avl = 0, long_mode = 0, opr_32_bit = 1, granularity = 1, base_high = 0\<rparr>"

definition tss_descriptor :: SegmentDescriptor where
  "tss_descriptor = \<lparr>segment_low = of_nat sizeof_TSSEntry, base_low = 0, base_mid = 0, type_bit = 0x9, non_system = 0,
     privilege = 0, valid_bit = 1, segment_high = ucast (drop_bit 16 (of_nat sizeof_TSSEntry AND push_bit 16 0xF :: u32)),
     avl = 0, long_mode = 0, opr_32_bit = 1, granularity = 0, base_high = 0\<rparr>"

definition global_descriptor_table :: gdt_table where
  "global_descriptor_table = [zero_descriptor, kernel_code_descriptor, kernel_data_descriptor, user_code_descriptor,
     user_data_descriptor, tss_descriptor] @ replicate (GDT_MAX_ENTRY_COUNT - 6) zero_descriptor"

text \<open>\<open>_gdt_gdtr.size\<close>: the table in bytes, minus one.\<close>

definition gdtr_size :: u16 where
  "gdtr_size = of_nat (8 * GDT_MAX_ENTRY_COUNT - 1)"

text \<open>\<open>base\<close> is the address of \<open>_interrupt_tss_entry\<close>, chosen by the linker.\<close>

definition gdt_install_tss :: "u32 \<Rightarrow> gdt_table \<Rightarrow> gdt_table" where
  "gdt_install_tss base t =
     t[5 := (t ! 5)\<lparr>base_high := ucast (drop_bit 24 (base AND push_bit 24 0xFF)),
                    base_mid := ucast (drop_bit 16 (base AND push_bit 16 0xFF)),
                    base_low := ucast (base AND 0xFFFF)\<rparr>]"

section \<open>What the processor reads\<close>

definition encode_descriptor :: "SegmentDescriptor \<Rightarrow> 64 word" where
  "encode_descriptor d = ucast (segment_low d) OR push_bit 16 (ucast (base_low d)) OR push_bit 32 (ucast (base_mid d))
     OR push_bit 40 (ucast (type_bit d)) OR push_bit 44 (ucast (non_system d)) OR push_bit 45 (ucast (privilege d))
     OR push_bit 47 (ucast (valid_bit d)) OR push_bit 48 (ucast (segment_high d)) OR push_bit 52 (ucast (avl d))
     OR push_bit 53 (ucast (long_mode d)) OR push_bit 54 (ucast (opr_32_bit d)) OR push_bit 55 (ucast (granularity d))
     OR push_bit 56 (ucast (base_high d))"

text \<open>The base address is in bits 16 to 39 and 56 to 63, the limit in bits 0 to 15 and 48 to 51.\<close>

definition descriptor_base :: "64 word \<Rightarrow> u32" where
  "descriptor_base w = ucast (take_bit 24 (drop_bit 16 w)) OR push_bit 24 (ucast (drop_bit 56 w))"

definition descriptor_limit :: "64 word \<Rightarrow> u32" where
  "descriptor_limit w = (let l = ucast (take_bit 16 w) OR push_bit 16 (ucast (take_bit 4 (drop_bit 48 w)))
     in if bit w 55 then push_bit 12 l OR 0xFFF else l)"

definition descriptor_dpl :: "64 word \<Rightarrow> 2 word" where
  "descriptor_dpl w = ucast (drop_bit 45 w)"

text \<open>A selector is an index into the table, eight bytes per entry, with the privilege in its low bits.\<close>

definition selected :: "gdt_table \<Rightarrow> u16 \<Rightarrow> 64 word" where
  "selected t sel = encode_descriptor (t ! unat (drop_bit 3 sel))"

lemma bit_less: "bit (w :: 'a::len word) n \<Longrightarrow> n < LENGTH('a)"
  by (rule bit_imp_le_length)

lemma encode_base_low: "n < 24 \<Longrightarrow> bit (encode_descriptor d) (16 + n) = (if n < 16 then bit (base_low d) n else bit (base_mid d) (n - 16))"
  by (auto simp: encode_descriptor_def bit_simps dest: bit_less)

lemma encode_base_high: "n < 8 \<Longrightarrow> bit (encode_descriptor d) (56 + n) = bit (base_high d) n"
  by (auto simp: encode_descriptor_def bit_simps dest: bit_less)

text \<open>The three base fields, put together.\<close>

definition field_base :: "SegmentDescriptor \<Rightarrow> u32" where
  "field_base d = ucast (base_low d) OR push_bit 16 (ucast (base_mid d)) OR push_bit 24 (ucast (base_high d))"

lemma descriptor_base_encode: "descriptor_base (encode_descriptor d) = field_base d"
proof (rule bit_word_eqI)
  fix n assume "n < LENGTH(32)"
  then consider "n < 16" | "16 \<le> n" "n < 24" | "24 \<le> n" "n < 32" by fastforce
  then show "bit (descriptor_base (encode_descriptor d)) n = bit (field_base d) n"
  proof cases
    case 1
    with encode_base_low [of n d] show ?thesis by (simp add: descriptor_base_def field_base_def bit_simps)
  next
    case 2
    with encode_base_low [of n d] show ?thesis by (auto simp: descriptor_base_def field_base_def bit_simps dest: bit_less)
  next
    case 3
    with encode_base_high [of "n - 24" d] show ?thesis
      by (auto simp: descriptor_base_def field_base_def bit_simps add.commute dest: bit_less)
  qed
qed

lemma bit_low_masks: "bit (0xFFFF :: u32) n \<longleftrightarrow> n < 16" "bit (0xFF :: u32) n \<longleftrightarrow> n < 8"
proof -
  have "(0xFFFF :: u32) = mask 16" "(0xFF :: u32) = mask 8" by (simp_all add: mask_eq_exp_minus_1)
  then show "bit (0xFFFF :: u32) n \<longleftrightarrow> n < 16" "bit (0xFF :: u32) n \<longleftrightarrow> n < 8"
    by (simp_all only: bit_mask_iff) auto
qed

lemma field_base_install: "length t = GDT_MAX_ENTRY_COUNT \<Longrightarrow> field_base (gdt_install_tss base t ! 5) = base"
proof (rule bit_word_eqI)
  fix n assume len: "length t = GDT_MAX_ENTRY_COUNT" and "n < LENGTH(32)"
  then consider "n < 16" | "16 \<le> n" "n < 24" | "24 \<le> n" "n < 32" by fastforce
  then show "bit (field_base (gdt_install_tss base t ! 5)) n = bit base n"
    using len bit_low_masks(1) [of n] bit_low_masks(2) [of "n - 16"] bit_low_masks(2) [of "n - 24"]
    by cases (auto simp: field_base_def gdt_install_tss_def GDT_MAX_ENTRY_COUNT_def bit_simps)
qed

text \<open>
  \<open>gdt_install_tss\<close> makes the processor find the TSS: read through the TSS selector, the
  descriptor of the table has the address of the TSS as its base, whatever the address, and only the
  three base fields of entry 5 change.
\<close>

theorem install_tss_base:
  assumes "length t = GDT_MAX_ENTRY_COUNT"
  shows "descriptor_base (selected (gdt_install_tss base t) GDT_TSS_SELECTOR) = base
    \<and> (\<forall>i. i \<noteq> 5 \<longrightarrow> gdt_install_tss base t ! i = t ! i)
    \<and> (\<exists>h m l. gdt_install_tss base t ! 5 = (t ! 5)\<lparr>base_high := h, base_mid := m, base_low := l\<rparr>)"
proof -
  have "unat (drop_bit 3 GDT_TSS_SELECTOR) = 5" by (simp add: GDT_TSS_SELECTOR_def)
  then have "descriptor_base (selected (gdt_install_tss base t) GDT_TSS_SELECTOR) = base"
    using assms by (simp add: selected_def descriptor_base_encode field_base_install)
  moreover have "gdt_install_tss base t ! i = t ! i" if "i \<noteq> 5" for i using that by (simp add: gdt_install_tss_def)
  moreover have "\<exists>h m l. gdt_install_tss base t ! 5 = (t ! 5)\<lparr>base_high := h, base_mid := m, base_low := l\<rparr>"
    using assms by (auto simp: gdt_install_tss_def GDT_MAX_ENTRY_COUNT_def)
  ultimately show ?thesis by blast
qed

lemma length_gdt: "length global_descriptor_table = GDT_MAX_ENTRY_COUNT"
  by (simp add: global_descriptor_table_def GDT_MAX_ENTRY_COUNT_def)

theorem install_tss_base_witness:
  "descriptor_base (selected (gdt_install_tss 0xC0123456 global_descriptor_table) GDT_TSS_SELECTOR) = 0xC0123456"
  using install_tss_base [OF length_gdt] by simp

text \<open>The table as the processor reads it, entry by entry.\<close>

lemma descriptor_words:
  "encode_descriptor zero_descriptor = 0"
  "encode_descriptor kernel_code_descriptor = 0x00CF9A000000FFFF"
  "encode_descriptor kernel_data_descriptor = 0x00CF92000000FFFF"
  "encode_descriptor user_code_descriptor = 0x00CFFA000000FFFF"
  "encode_descriptor user_data_descriptor = 0x00CFF2000000FFFF"
  by (simp_all add: encode_descriptor_def zero_descriptor_def kernel_code_descriptor_def kernel_data_descriptor_def
      user_code_descriptor_def user_data_descriptor_def push_bit_eq_mult)

lemma tss_word: "encode_descriptor tss_descriptor = 0x0040890000000068"
  by code_simp

lemma selectors:
  "unat (drop_bit 3 GDT_KERNEL_CODE_SEGMENT_SELECTOR) = 1" "unat (drop_bit 3 GDT_KERNEL_DATA_SEGMENT_SELECTOR) = 2"
  "unat (drop_bit 3 GDT_USER_CODE_SEGMENT_SELECTOR) = 3" "unat (drop_bit 3 GDT_USER_DATA_SEGMENT_SELECTOR) = 4"
  "unat (drop_bit 3 GDT_TSS_SELECTOR) = 5"
  by code_simp+

lemma table_words:
  "selected global_descriptor_table GDT_KERNEL_CODE_SEGMENT_SELECTOR = 0x00CF9A000000FFFF"
  "selected global_descriptor_table GDT_KERNEL_DATA_SEGMENT_SELECTOR = 0x00CF92000000FFFF"
  "selected global_descriptor_table GDT_USER_CODE_SEGMENT_SELECTOR = 0x00CFFA000000FFFF"
  "selected global_descriptor_table GDT_USER_DATA_SEGMENT_SELECTOR = 0x00CFF2000000FFFF"
  "selected global_descriptor_table GDT_TSS_SELECTOR = 0x0040890000000068"
  "selected global_descriptor_table 0 = 0"
  by (simp_all add: selected_def selectors global_descriptor_table_def descriptor_words tss_word)

lemma readings:
  "descriptor_base 0x00CF9A000000FFFF = 0" "descriptor_base 0x00CF92000000FFFF = 0"
  "descriptor_base 0x00CFFA000000FFFF = 0" "descriptor_base 0x00CFF2000000FFFF = 0"
  "descriptor_limit 0x00CF9A000000FFFF = 0xFFFFFFFF" "descriptor_limit 0x00CF92000000FFFF = 0xFFFFFFFF"
  "descriptor_limit 0x00CFFA000000FFFF = 0xFFFFFFFF" "descriptor_limit 0x00CFF2000000FFFF = 0xFFFFFFFF"
  "descriptor_dpl 0x00CF9A000000FFFF = 0" "descriptor_dpl 0x00CF92000000FFFF = 0"
  "descriptor_dpl 0x00CFFA000000FFFF = 3" "descriptor_dpl 0x00CFF2000000FFFF = 3"
  "descriptor_limit 0x0040890000000068 = 104"
  by code_simp+

text \<open>
  The predefined segments are flat: through the four code and data selectors the processor reads
  base 0 and limit 0xFFFFFFFF, ring 0 for the kernel selectors and ring 3 for the user selectors, with
  the descriptors' well-known 64-bit values; the null descriptor is 0 and the table limit covers
  exactly the 32 entries.
\<close>

theorem flat_segments:
  "selected global_descriptor_table GDT_KERNEL_CODE_SEGMENT_SELECTOR = 0x00CF9A000000FFFF
   \<and> selected global_descriptor_table GDT_KERNEL_DATA_SEGMENT_SELECTOR = 0x00CF92000000FFFF
   \<and> selected global_descriptor_table GDT_USER_CODE_SEGMENT_SELECTOR = 0x00CFFA000000FFFF
   \<and> selected global_descriptor_table GDT_USER_DATA_SEGMENT_SELECTOR = 0x00CFF2000000FFFF
   \<and> selected global_descriptor_table 0 = 0
   \<and> map (\<lambda>s. (descriptor_base (selected global_descriptor_table s), descriptor_limit (selected global_descriptor_table s),
        descriptor_dpl (selected global_descriptor_table s)))
       [GDT_KERNEL_CODE_SEGMENT_SELECTOR, GDT_KERNEL_DATA_SEGMENT_SELECTOR, GDT_USER_CODE_SEGMENT_SELECTOR, GDT_USER_DATA_SEGMENT_SELECTOR]
     = [(0, 0xFFFFFFFF, 0), (0, 0xFFFFFFFF, 0), (0, 0xFFFFFFFF, 3), (0, 0xFFFFFFFF, 3)]
   \<and> descriptor_limit (selected global_descriptor_table GDT_TSS_SELECTOR) = of_nat sizeof_TSSEntry
   \<and> unat gdtr_size + 1 = 8 * length global_descriptor_table"
  by (simp add: selectors table_words readings length_gdt gdtr_size_def GDT_MAX_ENTRY_COUNT_def sizeof_TSSEntry_def)

end
