(* ===== verification/Idt.thy ===== *)
theory Idt imports Gdt begin

text \<open>
  The interrupt descriptor table, \<open>src/ch1/idt\<close>: the gate with its bit fields, \<open>set_interrupt_gate\<close>
  and the loop of \<open>initialize_idt\<close>. \<open>isr_stub_table\<close> holds the addresses of the stubs of
  \<open>intsetup.s\<close>; it is the argument \<open>stubs\<close>. The effect of \<open>lidt\<close> and \<open>sti\<close> is a record of the
  processor's state.
\<close>

record IDTGate =
  offset_low :: u16
  segment :: u16
  gate_reserved :: "5 word"
  r_bit_1 :: "3 word"
  r_bit_2 :: "3 word"
  gate_32 :: "1 word"
  r_bit_3 :: "1 word"
  DPL :: "2 word"
  gate_valid :: "1 word"
  offset_high :: u16

type_synonym idt_table = "IDTGate list"

definition IDT_MAX_ENTRY_COUNT :: nat where [kernel_defs]: "IDT_MAX_ENTRY_COUNT = 256"
definition ISR_STUB_TABLE_LIMIT :: nat where [kernel_defs]: "ISR_STUB_TABLE_LIMIT = 64"

record idt_state =
  interrupt_descriptor_table :: idt_table
  idt_loaded :: bool
  interrupt_flag :: bool

text \<open>The table is a global: all zero at start.\<close>

definition zero_gate :: IDTGate where
  "zero_gate = \<lparr>offset_low = 0, segment = 0, gate_reserved = 0, r_bit_1 = 0, r_bit_2 = 0, gate_32 = 0, r_bit_3 = 0, DPL = 0,
     gate_valid = 0, offset_high = 0\<rparr>"

definition idt_at_start :: idt_state where
  "idt_at_start = \<lparr>interrupt_descriptor_table = replicate IDT_MAX_ENTRY_COUNT zero_gate, idt_loaded = False, interrupt_flag = False\<rparr>"

text \<open>\<open>_idt_idtr.size\<close>.\<close>

definition idtr_size :: u16 where
  "idtr_size = of_nat (8 * IDT_MAX_ENTRY_COUNT - 1)"

definition set_interrupt_gate :: "u8 \<Rightarrow> u32 \<Rightarrow> u16 \<Rightarrow> u8 \<Rightarrow> idt_table \<Rightarrow> idt_table" where
  "set_interrupt_gate int_vector handler_address gdt_seg_selector prv t =
     t[unat int_vector := \<lparr>offset_low = ucast handler_address, segment = gdt_seg_selector, gate_reserved = 0,
         r_bit_1 = 0b000, r_bit_2 = 0b110, gate_32 = 1, r_bit_3 = 0b0, DPL = ucast prv, gate_valid = 1,
         offset_high = ucast (drop_bit 16 handler_address)\<rparr>]"

definition initialize_idt :: "(nat \<Rightarrow> u32) \<Rightarrow> idt_state \<Rightarrow> idt_state" where
  "initialize_idt stubs s =
     (let s = fold (\<lambda>i s. s\<lparr>interrupt_descriptor_table :=
            (if 0x30 \<le> i \<and> i \<le> 0x3F
             then set_interrupt_gate (of_nat i) (stubs i) GDT_KERNEL_CODE_SEGMENT_SELECTOR 3 (interrupt_descriptor_table s)
             else set_interrupt_gate (of_nat i) (stubs i) GDT_KERNEL_CODE_SEGMENT_SELECTOR 0 (interrupt_descriptor_table s))\<rparr>)
            [0..<ISR_STUB_TABLE_LIMIT] s
      in s\<lparr>idt_loaded := True, interrupt_flag := True\<rparr>)"

section \<open>What the processor reads\<close>

definition encode_gate :: "IDTGate \<Rightarrow> 64 word" where
  "encode_gate g = ucast (offset_low g) OR push_bit 16 (ucast (segment g)) OR push_bit 32 (ucast (gate_reserved g))
     OR push_bit 37 (ucast (r_bit_1 g)) OR push_bit 40 (ucast (r_bit_2 g)) OR push_bit 43 (ucast (gate_32 g))
     OR push_bit 44 (ucast (r_bit_3 g)) OR push_bit 45 (ucast (DPL g)) OR push_bit 47 (ucast (gate_valid g))
     OR push_bit 48 (ucast (offset_high g))"

record gate_view =
  gate_handler :: u32
  gate_selector :: u16
  gate_type :: "5 word"
  gate_dpl :: "2 word"
  gate_present :: bool

text \<open>
  A gate as the processor decodes it: handler offset in bits 0-15 and 48-63, selector in 16-31, type
  in 40-44 (0xE is a 32-bit interrupt gate), privilege in 45-46, present in 47.
\<close>

definition cpu_gate :: "64 word \<Rightarrow> gate_view" where
  "cpu_gate w = \<lparr>gate_handler = ucast (take_bit 16 w) OR push_bit 16 (ucast (drop_bit 48 w)),
     gate_selector = ucast (drop_bit 16 w), gate_type = ucast (drop_bit 40 w), gate_dpl = ucast (drop_bit 45 w),
     gate_present = bit w 47\<rparr>"

lemma encode_gate_bits:
  "n < 16 \<Longrightarrow> bit (encode_gate g) n = bit (offset_low g) n"
  "n < 16 \<Longrightarrow> bit (encode_gate g) (16 + n) = bit (segment g) n"
  "n < 3 \<Longrightarrow> bit (encode_gate g) (40 + n) = bit (r_bit_2 g) n"
  "bit (encode_gate g) 43 = bit (gate_32 g) 0" "bit (encode_gate g) 44 = bit (r_bit_3 g) 0"
  "n < 2 \<Longrightarrow> bit (encode_gate g) (45 + n) = bit (DPL g) n"
  "bit (encode_gate g) 47 = bit (gate_valid g) 0"
  "n < 16 \<Longrightarrow> bit (encode_gate g) (48 + n) = bit (offset_high g) n"
  by (auto simp: encode_gate_def bit_simps dest: bit_less)

lemma gate_handler_encode:
  "gate_handler (cpu_gate (encode_gate g)) = ucast (offset_low g) OR push_bit 16 (ucast (offset_high g))"
proof (rule bit_word_eqI)
  fix n assume "n < LENGTH(32)"
  then consider "n < 16" | "16 \<le> n" "n < 32" by fastforce
  then show "bit (gate_handler (cpu_gate (encode_gate g))) n
    = bit (ucast (offset_low g) OR push_bit 16 (ucast (offset_high g)) :: u32) n"
  proof cases
    case 1
    with encode_gate_bits(1) [of n g] show ?thesis by (simp add: cpu_gate_def bit_simps)
  next
    case 2
    with encode_gate_bits(8) [of "n - 16" g] show ?thesis
      by (auto simp: cpu_gate_def bit_simps add.commute dest: bit_less)
  qed
qed

lemma cpu_gate_encode:
  "gate_selector (cpu_gate (encode_gate g)) = segment g" "gate_dpl (cpu_gate (encode_gate g)) = DPL g"
  "gate_present (cpu_gate (encode_gate g)) \<longleftrightarrow> bit (gate_valid g) 0"
proof -
  show "gate_selector (cpu_gate (encode_gate g)) = segment g"
    by (rule bit_word_eqI) (simp add: cpu_gate_def bit_simps encode_gate_bits)
  show "gate_dpl (cpu_gate (encode_gate g)) = DPL g"
    by (rule bit_word_eqI) (simp add: cpu_gate_def bit_simps encode_gate_bits)
qed (simp add: cpu_gate_def encode_gate_bits)

lemma gate_type_encode:
  "r_bit_2 g = 0b110 \<Longrightarrow> gate_32 g = 1 \<Longrightarrow> r_bit_3 g = 0 \<Longrightarrow> gate_type (cpu_gate (encode_gate g)) = 0xE"
proof (rule bit_word_eqI)
  fix n assume g: "r_bit_2 g = 0b110" "gate_32 g = 1" "r_bit_3 g = 0" and "n < LENGTH(5)"
  then consider "n = 0" | "n = 1" | "n = 2" | "n = 3" | "n = 4" by fastforce
  then show "bit (gate_type (cpu_gate (encode_gate g))) n = bit (0xE :: 5 word) n"
    using g encode_gate_bits(3) [of 0 g] encode_gate_bits(3) [of 1 g] encode_gate_bits(3) [of 2 g]
      encode_gate_bits(4,5) [of g]
    by cases (simp_all add: cpu_gate_def bit_simps)
qed

text \<open>The gate that \<open>set_interrupt_gate\<close> installs, decoded.\<close>

definition gate_for :: "u32 \<Rightarrow> u16 \<Rightarrow> u8 \<Rightarrow> gate_view" where
  "gate_for h sel prv = \<lparr>gate_handler = h, gate_selector = sel, gate_type = 0xE, gate_dpl = ucast prv, gate_present = True\<rparr>"

lemma split_halves: "ucast (ucast h :: u16) OR push_bit 16 (ucast (ucast (drop_bit 16 h) :: u16)) = (h :: u32)"
  by (rule bit_word_eqI) (auto simp: bit_simps)

lemma installed_gate:
  assumes "length t = IDT_MAX_ENTRY_COUNT"
  shows "cpu_gate (encode_gate (set_interrupt_gate v h sel prv t ! unat v)) = gate_for h sel prv"
proof -
  let ?g = "set_interrupt_gate v h sel prv t ! unat v"
  have "unat v < length t" using assms unsigned_less [of v, where ?'a = nat] by (simp add: IDT_MAX_ENTRY_COUNT_def)
  then have g: "offset_low ?g = ucast h" "offset_high ?g = ucast (drop_bit 16 h)" "segment ?g = sel" "DPL ?g = ucast prv"
    "r_bit_2 ?g = 0b110" "gate_32 ?g = 1" "r_bit_3 ?g = 0" "gate_valid ?g = 1"
    by (simp_all add: set_interrupt_gate_def)
  then show ?thesis
    using gate_type_encode [of ?g] gate_handler_encode [of ?g] split_halves [of h]
    by (intro gate_view.equality) (simp_all add: gate_for_def cpu_gate_encode)
qed

text \<open>
  \<open>set_interrupt_gate\<close> installs what was asked for: decoded by the processor, the gate of the vector
  is a present 32-bit interrupt gate with exactly the given handler, selector and the low two bits of
  the privilege; every other vector is unchanged.
\<close>

theorem set_interrupt_gate_correct:
  assumes "length t = IDT_MAX_ENTRY_COUNT"
  shows "cpu_gate (encode_gate (set_interrupt_gate v h sel prv t ! unat v))
      = \<lparr>gate_handler = h, gate_selector = sel, gate_type = 0xE, gate_dpl = ucast prv, gate_present = True\<rparr>
    \<and> (\<forall>i. i \<noteq> unat v \<longrightarrow> set_interrupt_gate v h sel prv t ! i = t ! i)"
  using installed_gate [OF assms] by (simp add: gate_for_def) (simp add: set_interrupt_gate_def)

theorem set_interrupt_gate_correct_witness:
  "gate_handler (cpu_gate (encode_gate (set_interrupt_gate 0x21 0xC0101234 8 0 (replicate IDT_MAX_ENTRY_COUNT zero_gate) ! 0x21))) = 0xC0101234"
  using set_interrupt_gate_correct [of "replicate IDT_MAX_ENTRY_COUNT zero_gate" "0x21" "0xC0101234" 8 0] by simp

section \<open>The loop of \<open>initialize_idt\<close>\<close>

definition isr_privilege :: "nat \<Rightarrow> u8" where
  "isr_privilege i = (if 0x30 \<le> i \<and> i \<le> 0x3F then 3 else 0)"

lemma initialize_step:
  "(if 0x30 \<le> i \<and> i \<le> 0x3F then set_interrupt_gate v h sel 3 t else set_interrupt_gate v h sel 0 t)
    = set_interrupt_gate v h sel (isr_privilege i) t"
  by (simp add: isr_privilege_def)

lemma initialize_loop:
  assumes "length (interrupt_descriptor_table s) = IDT_MAX_ENTRY_COUNT" and "n \<le> ISR_STUB_TABLE_LIMIT"
  shows "\<exists>t. fold (\<lambda>i s. s\<lparr>interrupt_descriptor_table :=
        set_interrupt_gate (of_nat i) (stubs i) sel (isr_privilege i) (interrupt_descriptor_table s)\<rparr>) [0..<n] s
      = s\<lparr>interrupt_descriptor_table := t\<rparr> \<and> length t = IDT_MAX_ENTRY_COUNT
    \<and> (\<forall>i<n. cpu_gate (encode_gate (t ! i)) = gate_for (stubs i) sel (isr_privilege i))
    \<and> (\<forall>i. n \<le> i \<longrightarrow> t ! i = interrupt_descriptor_table s ! i)"
  using assms(2)
proof (induction n)
  case 0
  then show ?case using assms(1) by (intro exI [of _ "interrupt_descriptor_table s"]) simp
next
  case (Suc n)
  then obtain t where t: "fold (\<lambda>i s. s\<lparr>interrupt_descriptor_table :=
        set_interrupt_gate (of_nat i) (stubs i) sel (isr_privilege i) (interrupt_descriptor_table s)\<rparr>) [0..<n] s
      = s\<lparr>interrupt_descriptor_table := t\<rparr>" "length t = IDT_MAX_ENTRY_COUNT"
    "\<forall>i<n. cpu_gate (encode_gate (t ! i)) = gate_for (stubs i) sel (isr_privilege i)"
    "\<forall>i. n \<le> i \<longrightarrow> t ! i = interrupt_descriptor_table s ! i" by auto
  have "n < 256" using Suc.prems by (simp add: ISR_STUB_TABLE_LIMIT_def)
  then have v: "unat (of_nat n :: u8) = n" by (simp add: unat_of_nat take_bit_nat_eq_self)
  let ?t = "set_interrupt_gate (of_nat n) (stubs n) sel (isr_privilege n) t"
  have new: "cpu_gate (encode_gate (?t ! n)) = gate_for (stubs n) sel (isr_privilege n)"
    using installed_gate [OF t(2), of "of_nat n"] by (simp add: v)
  have old: "?t ! i = t ! i" if "i \<noteq> n" for i using that by (simp add: set_interrupt_gate_def v)
  have "length ?t = IDT_MAX_ENTRY_COUNT" using t(2) by (simp add: set_interrupt_gate_def)
  with t new old show ?case by (intro exI [of _ ?t]) (auto simp: less_Suc_eq)
qed

text \<open>
  C38. After \<open>initialize_idt\<close> the table is loaded and interrupts are enabled; the processor finds at
  each of the vectors 0 to 63 a present 32-bit interrupt gate to its stub in the kernel code segment,
  callable from ring 3 exactly for the vectors 0x30 to 0x3F; the vectors from 64 on are as before.
\<close>

theorem initialize_idt_correct:
  assumes "length (interrupt_descriptor_table s) = IDT_MAX_ENTRY_COUNT"
  shows "idt_loaded (initialize_idt stubs s) \<and> interrupt_flag (initialize_idt stubs s)
    \<and> length (interrupt_descriptor_table (initialize_idt stubs s)) = IDT_MAX_ENTRY_COUNT
    \<and> (\<forall>i. i < 64 \<longrightarrow> cpu_gate (encode_gate (interrupt_descriptor_table (initialize_idt stubs s) ! i))
         = \<lparr>gate_handler = stubs i, gate_selector = 0x8, gate_type = 0xE,
            gate_dpl = (if 0x30 \<le> i \<and> i \<le> 0x3F then 3 else 0), gate_present = True\<rparr>)
    \<and> (\<forall>i. 64 \<le> i \<longrightarrow> interrupt_descriptor_table (initialize_idt stubs s) ! i = interrupt_descriptor_table s ! i)"
proof -
  from initialize_loop [OF assms order_refl, of stubs GDT_KERNEL_CODE_SEGMENT_SELECTOR] obtain t where
    t: "initialize_idt stubs s = s\<lparr>interrupt_descriptor_table := t, idt_loaded := True, interrupt_flag := True\<rparr>"
      "length t = IDT_MAX_ENTRY_COUNT"
      "\<forall>i<64. cpu_gate (encode_gate (t ! i)) = gate_for (stubs i) GDT_KERNEL_CODE_SEGMENT_SELECTOR (isr_privilege i)"
      "\<forall>i. 64 \<le> i \<longrightarrow> t ! i = interrupt_descriptor_table s ! i"
    unfolding initialize_idt_def initialize_step Let_def by (auto simp: ISR_STUB_TABLE_LIMIT_def)
  have "gate_for (stubs i) GDT_KERNEL_CODE_SEGMENT_SELECTOR (isr_privilege i)
      = \<lparr>gate_handler = stubs i, gate_selector = 0x8, gate_type = 0xE,
         gate_dpl = (if 0x30 \<le> i \<and> i \<le> 0x3F then 3 else 0), gate_present = True\<rparr>" for i
    by (simp add: gate_for_def isr_privilege_def GDT_KERNEL_CODE_SEGMENT_SELECTOR_def)
  with t show ?thesis by simp
qed

theorem initialize_idt_correct_witness:
  "gate_dpl (cpu_gate (encode_gate (interrupt_descriptor_table (initialize_idt (\<lambda>i. of_nat (0xC0100000 + 16 * i)) idt_at_start) ! 0x30))) = 3
   \<and> \<not> gate_present (cpu_gate (encode_gate (interrupt_descriptor_table (initialize_idt (\<lambda>i. of_nat (0xC0100000 + 16 * i)) idt_at_start) ! 0x40)))"
proof -
  have "length (interrupt_descriptor_table idt_at_start) = IDT_MAX_ENTRY_COUNT" by (simp add: idt_at_start_def)
  note * = initialize_idt_correct [OF this, of "\<lambda>i. of_nat (0xC0100000 + 16 * i)"]
  have "interrupt_descriptor_table idt_at_start ! 64 = zero_gate" by (simp add: idt_at_start_def IDT_MAX_ENTRY_COUNT_def)
  with * show ?thesis by (simp add: cpu_gate_encode) (simp add: zero_gate_def)
qed

end
