(* ===== verification/Port_IO.thy ===== *)
theory Port_IO imports Prelude begin

text \<open>
  Port input and output (\<open>src/ch1/portio\<close>) and the two 8259 interrupt controllers
  (\<open>src/ch1/interrupt/interrupt.c\<close>). The devices behind the ports are not part of the repository:
  \<open>port_ops\<close> carries what the four instructions do to a device state, and the drivers take it as an
  argument. \<open>log_ops\<close> is a device that serves the bytes queued for each port and logs every write; it
  shows what the drivers send and in which order.
\<close>

record 'p port_ops =
  out_op :: "u16 \<Rightarrow> u8 \<Rightarrow> 'p \<Rightarrow> 'p"
  in_op :: "u16 \<Rightarrow> 'p \<Rightarrow> u8 \<times> 'p"
  out16_op :: "u16 \<Rightarrow> u16 \<Rightarrow> 'p \<Rightarrow> 'p"
  in16_op :: "u16 \<Rightarrow> 'p \<Rightarrow> u16 \<times> 'p"

record port_log =
  queued :: "u16 \<Rightarrow> u8 list"
  sent :: "(u16 \<times> u8) list"

definition log_ops :: "port_log port_ops" where
  "log_ops = \<lparr>out_op = (\<lambda>p b l. l\<lparr>sent := sent l @ [(p, b)]\<rparr>),
     in_op = (\<lambda>p l. case queued l p of [] \<Rightarrow> (0, l) | b # bs \<Rightarrow> (b, l\<lparr>queued := (queued l)(p := bs)\<rparr>)),
     out16_op = (\<lambda>p w l. l\<lparr>sent := sent l @ [(p, ucast w), (p, ucast (drop_bit 8 w))]\<rparr>),
     in16_op = (\<lambda>p l. (0, l))\<rparr>"

lemma log_out [simp]: "out_op log_ops p b l = l\<lparr>sent := sent l @ [(p, b)]\<rparr>"
  by (simp add: log_ops_def)

section \<open>The interrupt controllers\<close>

definition PIC1_OFFSET :: u8 where [kernel_defs]: "PIC1_OFFSET = 0x20"
definition PIC2_OFFSET :: u8 where [kernel_defs]: "PIC2_OFFSET = 0x28"
definition PIC1_COMMAND :: u16 where [kernel_defs]: "PIC1_COMMAND = 0x20"
definition PIC1_DATA :: u16 where [kernel_defs]: "PIC1_DATA = 0x20 + 1"
definition PIC2_COMMAND :: u16 where [kernel_defs]: "PIC2_COMMAND = 0xA0"
definition PIC2_DATA :: u16 where [kernel_defs]: "PIC2_DATA = 0xA0 + 1"
definition PIC_ACK :: u8 where [kernel_defs]: "PIC_ACK = 0x20"
definition PIC_DISABLE_ALL_MASK :: u8 where [kernel_defs]: "PIC_DISABLE_ALL_MASK = 0xFF"
definition ICW1_ICW4 :: u8 where [kernel_defs]: "ICW1_ICW4 = 0x01"
definition ICW1_INIT :: u8 where [kernel_defs]: "ICW1_INIT = 0x10"
definition ICW4_8086 :: u8 where [kernel_defs]: "ICW4_8086 = 0x01"
definition IRQ_KEYBOARD :: u8 where [kernel_defs]: "IRQ_KEYBOARD = 1"

definition io_wait :: "'p port_ops \<Rightarrow> 'p \<Rightarrow> 'p" where
  "io_wait io = out_op io 0x80 0"

definition pic_ack :: "'p port_ops \<Rightarrow> u8 \<Rightarrow> 'p \<Rightarrow> 'p" where
  "pic_ack io irq p =
     (let p = (if irq \<ge> 8 then out_op io PIC2_COMMAND PIC_ACK p else p)
      in out_op io PIC1_COMMAND PIC_ACK p)"

definition activate_keyboard_interrupt :: "'p port_ops \<Rightarrow> 'p \<Rightarrow> 'p" where
  "activate_keyboard_interrupt io p =
     (let (mask, p) = in_op io PIC1_DATA p
      in out_op io PIC1_DATA (mask AND NOT (push_bit (unat IRQ_KEYBOARD) 1)) p)"

definition pic_remap :: "'p port_ops \<Rightarrow> 'p \<Rightarrow> 'p" where
  "pic_remap io p =
     (let p = out_op io PIC1_COMMAND (ICW1_INIT OR ICW1_ICW4) p;
          p = io_wait io p;
          p = out_op io PIC2_COMMAND (ICW1_INIT OR ICW1_ICW4) p;
          p = io_wait io p;
          p = out_op io PIC1_DATA PIC1_OFFSET p;
          p = io_wait io p;
          p = out_op io PIC2_DATA PIC2_OFFSET p;
          p = io_wait io p;
          p = out_op io PIC1_DATA 0b0100 p;
          p = io_wait io p;
          p = out_op io PIC2_DATA 0b0010 p;
          p = io_wait io p;
          p = out_op io PIC1_DATA ICW4_8086 p;
          p = io_wait io p;
          p = out_op io PIC2_DATA ICW4_8086 p;
          p = io_wait io p;
          p = out_op io PIC1_DATA PIC_DISABLE_ALL_MASK p
      in out_op io PIC2_DATA PIC_DISABLE_ALL_MASK p)"

text \<open>The bytes one port receives, in order.\<close>

definition sent_to :: "u16 \<Rightarrow> port_log \<Rightarrow> u8 list" where
  "sent_to p l = map snd (filter (\<lambda>(q, b). q = p) (sent l))"

lemma sent_to_append: "sent_to p (l\<lparr>sent := sent l @ es\<rparr>) = sent_to p l @ map snd (filter (\<lambda>(q, b). q = p) es)"
  by (simp add: sent_to_def)

text \<open>
  The interrupt controllers are programmed in the order the 8259 expects: each command port gets
  the initialisation word, then each data port its vector offset, its cascade wiring, the 8086 mode
  word and finally the mask that disables every line; every write but the last two is followed by the
  wait on port 0x80. Acknowledging an interrupt writes the end-of-interrupt byte to the master, and
  first to the slave exactly for the lines 8 to 15.
\<close>

theorem pic_protocol:
  "sent_to PIC1_COMMAND (pic_remap log_ops l) = sent_to PIC1_COMMAND l @ [0x11]
   \<and> sent_to PIC2_COMMAND (pic_remap log_ops l) = sent_to PIC2_COMMAND l @ [0x11]
   \<and> sent_to PIC1_DATA (pic_remap log_ops l) = sent_to PIC1_DATA l @ [0x20, 4, 1, 0xFF]
   \<and> sent_to PIC2_DATA (pic_remap log_ops l) = sent_to PIC2_DATA l @ [0x28, 2, 1, 0xFF]
   \<and> sent_to 0x80 (pic_remap log_ops l) = sent_to 0x80 l @ [0, 0, 0, 0, 0, 0, 0, 0]
   \<and> sent_to PIC1_COMMAND (pic_ack log_ops irq l) = sent_to PIC1_COMMAND l @ [0x20]
   \<and> sent_to PIC2_COMMAND (pic_ack log_ops irq l) = sent_to PIC2_COMMAND l @ (if 8 \<le> irq then [0x20] else [])"
  by (simp add: pic_remap_def pic_ack_def io_wait_def Let_def sent_to_append kernel_defs)

end
