(* ===== verification/Keyboard.thy ===== *)
theory Keyboard imports Port_IO begin

text \<open>
  The keyboard driver, \<open>src/ch1/keyboard\<close>: its three state variables, the interrupt service routine
  and the calls of the client, over an arbitrary keyboard controller behind port 0x60.
\<close>

record KeyboardDriverState =
  read_extended_mode :: bool
  keyboard_input_on :: bool
  keyboard_buffer :: u8

definition KEYBOARD_DATA_PORT :: u16 where [kernel_defs]: "KEYBOARD_DATA_PORT = 0x60"
definition EXTENDED_SCANCODE_BYTE :: u8 where [kernel_defs]: "EXTENDED_SCANCODE_BYTE = 0xE0"

text \<open>\<open>ch\<close> is the byte of a character literal; the map has 256 entries, the last 177 of them 0.\<close>

abbreviation ch :: "char \<Rightarrow> u8" where
  "ch \<equiv> of_char"

definition keyboard_scancode_1_to_ascii_map :: "u8 list" where
  "keyboard_scancode_1_to_ascii_map =
    [0, 0x1B, ch CHR ''1'', ch CHR ''2'', ch CHR ''3'', ch CHR ''4'', ch CHR ''5'', ch CHR ''6'',
     ch CHR ''7'', ch CHR ''8'', ch CHR ''9'', ch CHR ''0'', ch CHR ''-'', ch CHR ''='', 8, 9,
     ch CHR ''q'', ch CHR ''w'', ch CHR ''e'', ch CHR ''r'', ch CHR ''t'', ch CHR ''y'', ch CHR ''u'', ch CHR ''i'',
     ch CHR ''o'', ch CHR ''p'', ch CHR ''['', ch CHR '']'', 10, 0, ch CHR ''a'', ch CHR ''s'',
     ch CHR ''d'', ch CHR ''f'', ch CHR ''g'', ch CHR ''h'', ch CHR ''j'', ch CHR ''k'', ch CHR ''l'', ch CHR '';'',
     39, 96, 0, 92, ch CHR ''z'', ch CHR ''x'', ch CHR ''c'', ch CHR ''v'',
     ch CHR ''b'', ch CHR ''n'', ch CHR ''m'', ch CHR '','', ch CHR ''.'', ch CHR ''/'', 0, ch CHR ''*'',
     0, ch CHR '' '', 0, 0, 0, 0, 0, 0,
     0, 0, 0, 0, 0, 0, 0, 0, 0, 0, ch CHR ''-'', 0, 0, 0, ch CHR ''+'', 0] @ replicate 176 0"

section \<open>Operations\<close>

definition keyboard_state_activate :: "KeyboardDriverState \<Rightarrow> KeyboardDriverState" where
  "keyboard_state_activate k = k\<lparr>keyboard_input_on := True\<rparr>"

definition keyboard_state_deactivate :: "KeyboardDriverState \<Rightarrow> KeyboardDriverState" where
  "keyboard_state_deactivate k = k\<lparr>keyboard_input_on := False\<rparr>"

text \<open>The byte stored at \<open>*buf\<close>, and the state with the buffer flushed.\<close>

definition get_keyboard_buffer :: "KeyboardDriverState \<Rightarrow> u8 \<times> KeyboardDriverState" where
  "get_keyboard_buffer k = (keyboard_buffer k, k\<lparr>keyboard_buffer := 0\<rparr>)"

text \<open>The four arrow cases of the \<open>switch\<close> only break.\<close>

definition keyboard_isr :: "'p port_ops \<Rightarrow> KeyboardDriverState \<times> 'p \<Rightarrow> KeyboardDriverState \<times> 'p" where
  "keyboard_isr io = (\<lambda>(k, p).
     if keyboard_input_on k then
       let (scancode, p) = in_op io KEYBOARD_DATA_PORT p in
       if scancode = EXTENDED_SCANCODE_BYTE then (k\<lparr>read_extended_mode := True\<rparr>, pic_ack io IRQ_KEYBOARD p)
       else if read_extended_mode k then (k\<lparr>read_extended_mode := False\<rparr>, pic_ack io IRQ_KEYBOARD p)
       else if scancode AND 0x80 = 0
         then (k\<lparr>keyboard_buffer := keyboard_scancode_1_to_ascii_map ! unat scancode\<rparr>, pic_ack io IRQ_KEYBOARD p)
         else (k\<lparr>keyboard_buffer := 0\<rparr>, pic_ack io IRQ_KEYBOARD p)
     else (k, pic_ack io IRQ_KEYBOARD p))"

section \<open>Runs of scancodes\<close>

text \<open>The state alone, as one scancode after the other arrives.\<close>

definition scancode_step :: "u8 \<Rightarrow> KeyboardDriverState \<Rightarrow> KeyboardDriverState" where
  "scancode_step sc k = fst (keyboard_isr \<lparr>out_op = (\<lambda>_ _ p. p), in_op = (\<lambda>_ p. (sc, p)), out16_op = (\<lambda>_ _ p. p),
     in16_op = (\<lambda>_ p. (0, p))\<rparr> (k, ()))"

definition scancode_run :: "u8 list \<Rightarrow> KeyboardDriverState \<Rightarrow> KeyboardDriverState" where
  "scancode_run = fold scancode_step"

lemma isr_state:
  "keyboard_input_on k \<Longrightarrow> fst (keyboard_isr io (k, p)) = scancode_step (fst (in_op io KEYBOARD_DATA_PORT p)) k"
  by (simp add: keyboard_isr_def scancode_step_def Let_def split: prod.split)

text \<open>
  The meaning of a scancode sequence: \<open>0xE0\<close> makes the next other code an extended one, which is
  dropped; of the codes that remain, the last one decides the buffer.
\<close>

fun plain_codes :: "bool \<Rightarrow> u8 list \<Rightarrow> u8 list" where
  "plain_codes ext [] = []"
| "plain_codes ext (sc # scs) =
     (if sc = 0xE0 then plain_codes True scs
      else if ext then plain_codes False scs else sc # plain_codes False scs)"

fun extended_after :: "bool \<Rightarrow> u8 list \<Rightarrow> bool" where
  "extended_after ext [] = ext"
| "extended_after ext (sc # scs) = extended_after (sc = 0xE0) scs"

definition key_char :: "u8 \<Rightarrow> u8" where
  "key_char sc = (if unat sc < 128 then keyboard_scancode_1_to_ascii_map ! unat sc else 0)"

lemma make_code: "sc AND 0x80 = 0 \<longleftrightarrow> unat (sc :: u8) < 128"
proof -
  have "sc AND 0x80 = 0 \<longleftrightarrow> \<not> bit sc 7"
    using and_exp_eq_0_iff_not_bit [of sc 7] by simp
  also have "\<dots> \<longleftrightarrow> unat sc < 128"
  proof -
    have "bit (unat sc) 7 \<longleftrightarrow> bit sc 7" by (simp add: bit_unsigned_iff)
    then have "bit sc 7 \<longleftrightarrow> odd (unat sc div 128)" by (simp add: bit_iff_odd)
    moreover have "unat sc < 256" using unsigned_less [of sc, where ?'a = nat] by simp
    then have "unat sc div 128 = 0 \<or> unat sc div 128 = 1" by auto
    ultimately show ?thesis by auto
  qed
  finally show ?thesis .
qed

lemma scancode_step_on:
  "keyboard_input_on k \<Longrightarrow> scancode_step sc k =
    (if sc = 0xE0 then k\<lparr>read_extended_mode := True\<rparr>
     else if read_extended_mode k then k\<lparr>read_extended_mode := False\<rparr>
     else k\<lparr>keyboard_buffer := key_char sc\<rparr>)"
  by (simp add: scancode_step_def keyboard_isr_def EXTENDED_SCANCODE_BYTE_def make_code key_char_def)

lemma scancode_run_on:
  "keyboard_input_on k \<Longrightarrow> scancode_run scs k = k\<lparr>read_extended_mode := extended_after (read_extended_mode k) scs,
     keyboard_buffer := (case rev (plain_codes (read_extended_mode k) scs) of [] \<Rightarrow> keyboard_buffer k | sc # _ \<Rightarrow> key_char sc)\<rparr>"
proof (induction scs arbitrary: k)
  case Nil
  then show ?case by (simp add: scancode_run_def)
next
  case (Cons sc scs)
  have run: "scancode_run (sc # scs) k = scancode_run scs (scancode_step sc k)" by (simp add: scancode_run_def)
  show ?case
    using Cons.prems Cons.IH [of "scancode_step sc k"]
    by (auto simp: run scancode_step_on split: list.splits)
qed

lemma pic_ack_keyboard: "pic_ack io IRQ_KEYBOARD p = out_op io 0x20 0x20 p"
proof -
  have "\<not> (8 :: u8) \<le> 1" by (simp add: word_le_nat_alt)
  then show ?thesis by (simp add: pic_ack_def kernel_defs)
qed

lemma keyboard_isr_on:
  "keyboard_input_on k \<Longrightarrow> keyboard_isr io (k, p)
    = (scancode_step (fst (in_op io 0x60 p)) k, out_op io 0x20 0x20 (snd (in_op io 0x60 p)))"
  by (simp add: keyboard_isr_def scancode_step_def pic_ack_keyboard KEYBOARD_DATA_PORT_def Let_def split: prod.split)

lemma keyboard_isr_off: "\<not> keyboard_input_on k \<Longrightarrow> keyboard_isr io (k, p) = (k, out_op io 0x20 0x20 p)"
  by (simp add: keyboard_isr_def pic_ack_keyboard)

section \<open>Properties\<close>

text \<open>
  The interrupt service routine, for any keyboard controller: switched off it neither reads the
  data port nor changes its state; switched on it reads exactly one byte. Either way it acknowledges
  the keyboard's interrupt line once, after everything else.
\<close>

theorem keyboard_isr_outcome:
  "keyboard_isr io (k, p) =
    (if keyboard_input_on k
     then (scancode_step (fst (in_op io 0x60 p)) k, out_op io 0x20 0x20 (snd (in_op io 0x60 p)))
     else (k, out_op io 0x20 0x20 p))"
  by (simp add: keyboard_isr_on keyboard_isr_off)

text \<open>
  What a sequence of scancodes leaves in the buffer of an active keyboard: 0xE0 and the code after
  it are skipped, and of the remaining codes the last one decides: its character for a key press, 0 for
  a release; with no code left the buffer is as before.
\<close>

theorem scancode_run_buffer:
  assumes "keyboard_input_on k"
  shows "keyboard_buffer (scancode_run scs k)
      = (case rev (plain_codes (read_extended_mode k) scs) of [] \<Rightarrow> keyboard_buffer k | sc # _ \<Rightarrow> key_char sc)
    \<and> keyboard_input_on (scancode_run scs k)
    \<and> read_extended_mode (scancode_run scs k) = extended_after (read_extended_mode k) scs"
  using assms by (simp add: scancode_run_on)

text \<open>An arrow key, then \<open>a\<close> pressed.\<close>

theorem scancode_run_buffer_witness:
  "keyboard_buffer (scancode_run [0xE0, 0x48, 0x1E] \<lparr>read_extended_mode = False, keyboard_input_on = True, keyboard_buffer = 0\<rparr>) = 97"
  using scancode_run_buffer [of "\<lparr>read_extended_mode = False, keyboard_input_on = True, keyboard_buffer = 0\<rparr>" "[0xE0, 0x48, 0x1E]"]
  by (simp add: key_char_def keyboard_scancode_1_to_ascii_map_def)

end
