(* ===== verification/Interrupt.thy ===== *)
theory Interrupt imports Keyboard Gdt begin

text \<open>
  The interrupt entry of the kernel, \<open>src/ch1/interrupt\<close>: the frame the assembly stub pushes, the main
  handler, and the task state segment that carries the kernel stack.
\<close>

record IndexRegister =
  edi :: u32
  esi :: u32

record StackRegister =
  esp :: u32
  ebp :: u32

record GeneralRegister =
  ebx :: u32
  edx :: u32
  ecx :: u32
  eax :: u32

record SegmentRegister =
  gs :: u32
  fs :: u32
  es :: u32
  ds :: u32

record CPURegister =
  index_regs :: IndexRegister
  stack_regs :: StackRegister
  general :: GeneralRegister
  segment :: SegmentRegister

record InterruptStack =
  error_code :: u32
  eip :: u32
  cs :: u32
  eflags :: u32

record InterruptFrame =
  cpu :: CPURegister
  int_number :: u32
  int_stack :: InterruptStack

section \<open>The frame on the stack\<close>

text \<open>
  The 17 words the stub of \<open>src/ch1/intsetup/intsetup.s\<close> leaves on the kernel stack, from the lowest
  address: \<open>pushad\<close> (which pushes \<open>eax\<close>, \<open>ecx\<close>, \<open>edx\<close>, \<open>ebx\<close>, \<open>esp\<close>, \<open>ebp\<close>, \<open>esi\<close>, \<open>edi\<close>), the four segment
  registers, the vector and the error code, and what the processor pushed. \<open>r\<close> holds the registers when
  the stub runs.
\<close>

definition pushad_words :: "CPURegister \<Rightarrow> u32 list" where
  "pushad_words r = rev [eax (general r), ecx (general r), edx (general r), ebx (general r),
     esp (stack_regs r), ebp (stack_regs r), esi (index_regs r), edi (index_regs r)]"

definition stub_words :: "CPURegister \<Rightarrow> u32 \<Rightarrow> InterruptStack \<Rightarrow> u32 list" where
  "stub_words r vector hw =
     pushad_words r @ rev [ds (segment r), es (segment r), fs (segment r), gs (segment r)]
     @ [vector, error_code hw, eip hw, cs hw, eflags hw]"

text \<open>The C structure laid over these words; all fields are 32 bits wide and packed.\<close>

definition frame_of :: "u32 list \<Rightarrow> InterruptFrame" where
  "frame_of w = \<lparr>
     cpu = \<lparr>index_regs = \<lparr>edi = w ! 0, esi = w ! 1\<rparr>, stack_regs = \<lparr>esp = w ! 2, ebp = w ! 3\<rparr>,
       general = \<lparr>ebx = w ! 4, edx = w ! 5, ecx = w ! 6, eax = w ! 7\<rparr>,
       segment = \<lparr>gs = w ! 8, fs = w ! 9, es = w ! 10, ds = w ! 11\<rparr>\<rparr>,
     int_number = w ! 12,
     int_stack = \<lparr>error_code = w ! 13, eip = w ! 14, cs = w ! 15, eflags = w ! 16\<rparr>\<rparr>"

section \<open>The handler\<close>

definition main_interrupt_handler ::
  "'p port_ops \<Rightarrow> InterruptFrame \<Rightarrow> KeyboardDriverState \<times> 'p \<Rightarrow> KeyboardDriverState \<times> 'p" where
  "main_interrupt_handler io frame kp =
     (if int_number frame = ucast (IRQ_KEYBOARD + PIC1_OFFSET) then keyboard_isr io kp else kp)"

lemma handler_cases:
  "main_interrupt_handler io frame kp = (if int_number frame = 0x21 then keyboard_isr io kp else kp)"
  by (simp add: main_interrupt_handler_def kernel_defs)

section \<open>The task state segment\<close>

definition interrupt_tss_entry :: TSSEntry where
  "interrupt_tss_entry = \<lparr>prev_tss = 0, esp0 = 0, ss0 = ucast GDT_KERNEL_DATA_SEGMENT_SELECTOR,
     unused_register = replicate 23 0\<rparr>"

text \<open>\<open>frame_base\<close> is the \<open>ebp\<close> of the call.\<close>

definition set_tss_kernel_current_stack :: "u32 \<Rightarrow> TSSEntry \<Rightarrow> TSSEntry" where
  "set_tss_kernel_current_stack frame_base tss = tss\<lparr>esp0 := frame_base + 8\<rparr>"

section \<open>Properties\<close>

text \<open>
  The structure \<open>InterruptFrame\<close> laid over what the assembly stub pushed: every general, index and
  segment register, the vector, the error code and the processor's words are under their names, except
  that \<open>stack.esp\<close> and \<open>stack.ebp\<close> are exchanged.
\<close>

theorem frame_layout:
  "frame_of (stub_words r v hw) =
    \<lparr>cpu = r\<lparr>stack_regs := \<lparr>esp = ebp (stack_regs r), ebp = esp (stack_regs r)\<rparr>\<rparr>, int_number = v, int_stack = hw\<rparr>"
  by (simp add: frame_of_def stub_words_def pushad_words_def)

end
