(* ===== verification/Text_Screen.thy ===== *)
theory Text_Screen imports Prelude begin

text \<open>
  The 80x25 text screen as the kernel sees it: 2000 cells of two bytes, the character and then its
  colours. Two components of the program draw on such a window of the memory, \<open>framebuffer.c\<close> and
  \<open>putc\<close> of \<open>interrupt.c\<close>; the locale \<open>text_screen\<close> is what they share: a store of one cell, and the
  double loop that fills the window.
\<close>

definition screen_cell :: "u32 \<Rightarrow> memory \<Rightarrow> nat \<Rightarrow> u8 \<times> u8" where
  "screen_cell base m p = (m (base + of_nat (2 * p)), m (base + of_nat (2 * p + 1)))"

text \<open>Nothing but the 4000 bytes of the window differs.\<close>

definition same_outside :: "u32 \<Rightarrow> memory \<Rightarrow> memory \<Rightarrow> bool" where
  "same_outside base m m' \<longleftrightarrow> (\<forall>x. 4000 \<le> unat (x - base) \<longrightarrow> m' x = m x)"

lemma same_outside_refl [simp, intro]: "same_outside base m m"
  by (simp add: same_outside_def)

lemma same_outside_trans: "same_outside base m m' \<Longrightarrow> same_outside base m' m'' \<Longrightarrow> same_outside base m m''"
  by (simp add: same_outside_def)

lemma window_offset:
  assumes "k < 4000" and "p < 2000"
  shows "unat (base + of_nat k - (base + of_nat (2 * p)) :: u32) = (if 2 * p \<le> k then k - 2 * p else k + 2 ^ 32 - 2 * p)"
proof -
  have "base + of_nat k - (base + of_nat (2 * p)) = (of_nat k - of_nat (2 * p) :: u32)" by simp
  moreover have "unat (of_nat k :: u32) = k" and "unat (of_nat (2 * p) :: u32) = 2 * p"
    by (rule unat_of_nat_u32; use assms in simp)+
  ultimately show ?thesis using assms by (simp only: unat_sub_if') simp
qed

lemma cell_store_byte:
  assumes "k < 4000" and "p < 2000"
  shows "mem_write m (base + of_nat (2 * p)) [a, b] (base + of_nat k)
    = (if k = 2 * p then a else if k = 2 * p + 1 then b else m (base + of_nat k))"
  unfolding mem_write_def window_offset [OF assms] using assms by auto

lemma screen_cell_store:
  assumes "p < 2000" and "q < 2000"
  shows "screen_cell base (mem_write m (base + of_nat (2 * p)) [a, b]) q = (if q = p then (a, b) else screen_cell base m q)"
proof -
  have "2 * q < 4000" and "2 * q + 1 < 4000" using assms by simp_all
  then show ?thesis
    using assms(1) by (auto simp only: screen_cell_def cell_store_byte split: if_splits)
qed

lemma same_outside_store:
  assumes "p < 2000"
  shows "same_outside base m (mem_write m (base + of_nat (2 * p)) [a, b])"
  unfolding same_outside_def
proof (intro allI impI)
  fix x assume x: "4000 \<le> unat (x - base)"
  have "x - (base + of_nat (2 * p)) = (x - base) - of_nat (2 * p)" by simp
  moreover have "unat (of_nat (2 * p) :: u32) = 2 * p" by (rule unat_of_nat_u32) (use assms in simp)
  ultimately have "unat (x - (base + of_nat (2 * p))) = unat (x - base) - 2 * p"
    using x assms by (simp only: unat_sub_if') simp
  with x assms have "\<not> unat (x - (base + of_nat (2 * p))) < length [a, b]" by simp
  then show "mem_write m (base + of_nat (2 * p)) [a, b] x = m x"
    by (simp only: mem_write_def if_False)
qed

lemma fold_product:
  "fold (\<lambda>(i, j). f i j) (List.product xs ys) m = fold (\<lambda>i. fold (f i) ys) xs m"
  by (induction xs arbitrary: m) (simp_all add: fold_map comp_def)

lemma row_major: "q < 2000 \<Longrightarrow> q div 80 < 25 \<and> q mod 80 < 80 \<and> 80 * (q div 80) + q mod 80 = (q :: nat)"
  by (simp add: less_mult_imp_div_less)

locale text_screen =
  fixes base :: u32
    and store :: "nat \<Rightarrow> nat \<Rightarrow> u8 \<times> u8 \<Rightarrow> memory \<Rightarrow> memory"
  assumes store_cell: "r < 25 \<Longrightarrow> c < 80 \<Longrightarrow>
    store r c (ch, at) m = mem_write m (base + of_nat (2 * (80 * r + c))) [ch, at]"
begin

lemma cell_after:
  assumes "r < 25" and "c < 80" and "q < 2000"
  shows "screen_cell base (store r c v m) q = (if q = 80 * r + c then v else screen_cell base m q)"
proof -
  obtain ch at where v: "v = (ch, at)" by (cases v)
  show ?thesis
    unfolding v store_cell [OF assms(1,2)] by (rule screen_cell_store) (use assms in simp_all)
qed

lemma outside_after:
  assumes "r < 25" and "c < 80"
  shows "same_outside base m (store r c v m)"
proof -
  obtain ch at where v: "v = (ch, at)" by (cases v)
  show ?thesis
    unfolding v store_cell [OF assms] by (rule same_outside_store) (use assms in simp)
qed

lemma cells_after:
  assumes "\<And>r c. (r, c) \<in> set ps \<Longrightarrow> r < 25 \<and> c < 80" and "q < 2000"
  shows "screen_cell base (fold (\<lambda>(r, c). store r c v) ps m) q
      = (if q \<in> (\<lambda>(r, c). 80 * r + c) ` set ps then v else screen_cell base m q)
    \<and> same_outside base m (fold (\<lambda>(r, c). store r c v) ps m)"
  using assms
proof (induction ps arbitrary: m)
  case (Cons rc ps)
  obtain r c where rc: "rc = (r, c)" by (cases rc)
  with Cons.prems have b: "r < 25" "c < 80" by auto
  have IH: "screen_cell base (fold (\<lambda>(r, c). store r c v) ps (store r c v m)) q
      = (if q \<in> (\<lambda>(r, c). 80 * r + c) ` set ps then v else screen_cell base (store r c v m) q)
    \<and> same_outside base (store r c v m) (fold (\<lambda>(r, c). store r c v) ps (store r c v m))"
    by (rule Cons.IH) (use Cons.prems in auto)
  then show ?case
    using cell_after [OF b Cons.prems(2), of v m] outside_after [OF b, of m v]
    by (auto simp: rc intro: same_outside_trans)
qed simp

text \<open>The double loop over rows and columns fills the window and touches nothing else.\<close>

lemma fill_cells:
  assumes "q < 2000"
  shows "screen_cell base (fold (\<lambda>i. fold (\<lambda>j. store i j v) [0..<80]) [0..<25] m) q = v"
proof -
  have "q \<in> (\<lambda>(r, c). 80 * r + c) ` set (List.product [0..<25] [0..<80])"
    by (rule rev_image_eqI [of "(q div 80, q mod 80)"]) (use row_major [OF assms] in auto)
  moreover have "screen_cell base (fold (\<lambda>(r, c). store r c v) (List.product [0..<25] [0..<80]) m) q
      = (if q \<in> (\<lambda>(r, c). 80 * r + c) ` set (List.product [0..<25] [0..<80]) then v else screen_cell base m q)"
    by (rule cells_after [THEN conjunct1]) (use assms in auto)
  ultimately show ?thesis by (simp only: fold_product if_True)
qed

lemma fill_outside: "same_outside base m (fold (\<lambda>i. fold (\<lambda>j. store i j v) [0..<80]) [0..<25] m)"
proof -
  have "same_outside base m (fold (\<lambda>(r, c). store r c v) (List.product [0..<25] [0..<80]) m)"
    by (rule cells_after [THEN conjunct2, of _ 0]) auto
  then show ?thesis by (simp only: fold_product)
qed

end

end
