(* ===== verification/Terminal.thy ===== *)
theory Terminal imports Text_Screen begin

text \<open>
  The text output of the system calls, \<open>putc\<close> and \<open>puts\<close> of \<open>src/ch1/interrupt/interrupt.c\<close>: the two
  static variables, and the memory the screen cells and the printed string lie in.
\<close>

record terminal =
  term_x :: u32
  term_y :: u32

definition TEXT_BUFFER :: u32 where "TEXT_BUFFER = 0xB8000"

text \<open>\<open>(color << 8) | c\<close>: the signed \<open>char\<close> is promoted, and the 32-bit value truncated on the store.\<close>

definition text_cell :: "u8 \<Rightarrow> u32 \<Rightarrow> u16" where
  "text_cell c color = ucast (push_bit 8 color OR (scast c :: u32))"

definition put_cell :: "u32 \<Rightarrow> u16 \<Rightarrow> memory \<Rightarrow> memory" where
  "put_cell i w m = mem_write m (TEXT_BUFFER + 2 * i) (le16 w)"

definition clear_screen :: "u32 \<Rightarrow> memory \<Rightarrow> memory" where
  "clear_screen color = fold (\<lambda>y. fold (\<lambda>x. put_cell (of_nat y * 80 + of_nat x) (text_cell 32 color)) [0..<80]) [0..<25]"

definition putc :: "u8 \<Rightarrow> u32 \<Rightarrow> terminal \<times> memory \<Rightarrow> terminal \<times> memory" where
  "putc c color = (\<lambda>(t, m).
     let (x, y, m) = (if c = 10 then (0, term_y t + 1, m)
                      else (term_x t + 1, term_y t, put_cell (term_y t * 80 + term_x t) (text_cell c color) m));
         (x, y) = (if 80 \<le> x then (0, y + 1) else (x, y))
     in if 25 \<le> y then (t\<lparr>term_x := 0, term_y := 0\<rparr>, clear_screen color m)
        else (t\<lparr>term_x := x, term_y := y\<rparr>, m))"

text \<open>The string lies in the memory that \<open>putc\<close> writes.\<close>

definition puts :: "u32 \<Rightarrow> u32 \<Rightarrow> u32 \<Rightarrow> terminal \<times> memory \<Rightarrow> terminal \<times> memory" where
  "puts str len color tm = fold (\<lambda>i (t, m). putc (m (str + of_nat i)) color (t, m)) [0..<unat len] tm"

section \<open>The screen as a list of cells\<close>

text \<open>The cursor is on the screen.\<close>

definition on_screen :: "terminal \<Rightarrow> bool" where
  "on_screen t \<longleftrightarrow> unat (term_x t) < 80 \<and> unat (term_y t) < 25"

definition position :: "terminal \<Rightarrow> nat" where
  "position t = 80 * unat (term_y t) + unat (term_x t)"

text \<open>The colours a character gets on the screen.\<close>

definition shown_colour :: "u8 \<Rightarrow> u32 \<Rightarrow> u8" where
  "shown_colour c color = (if unat c < 128 then ucast color else 0xFF)"

text \<open>What typing one character means: for the position, and for the cells.\<close>

definition next_position :: "u8 \<Rightarrow> nat \<Rightarrow> nat" where
  "next_position c p = (let p' = (if c = 10 then (p div 80 + 1) * 80 else p + 1) in if p' < 2000 then p' else 0)"

definition typed :: "u8 \<Rightarrow> u32 \<Rightarrow> nat \<Rightarrow> (nat \<Rightarrow> u8 \<times> u8) \<Rightarrow> nat \<Rightarrow> u8 \<times> u8" where
  "typed c color p cells =
     (if next_position c p = 0 then (\<lambda>_. (32, ucast color))
      else if c = 10 then cells else cells(p := (c, shown_colour c color)))"

lemma le16_text_cell: "le16 (text_cell c color) = [c, shown_colour c color]"
proof -
  have neg: "bit c 7 \<longleftrightarrow> 128 \<le> unat c"
  proof -
    have "bit c 7 \<longleftrightarrow> odd (unat c div 128)" using bit_unsigned_iff [where ?'a = nat, of c 7] by (simp add: bit_iff_odd)
    moreover have "unat c < 256" using unsigned_less [of c, where ?'a = nat] by simp
    then have "unat c div 128 = 0 \<or> unat c div 128 = 1" by auto
    ultimately show ?thesis by auto
  qed
  have "ucast (text_cell c color) = c"
  proof (rule bit_word_eqI)
    fix n assume "n < LENGTH(8)"
    then consider "n < 7" | "n = 7" by fastforce
    then show "bit (ucast (text_cell c color) :: u8) n = bit c n"
      by cases (auto simp: text_cell_def bit_simps min_def)
  qed
  moreover have "ucast (drop_bit 8 (text_cell c color)) = shown_colour c color"
  proof (rule bit_word_eqI)
    fix n assume "n < LENGTH(8)"
    then have n: "n < 8" by simp
    have "bit (ucast (drop_bit 8 (text_cell c color)) :: u8) n \<longleftrightarrow> bit color n \<or> bit c 7"
      using n by (auto simp: text_cell_def bit_simps min_def)
    moreover have "bit (0xFF :: u8) n"
    proof -
      have m: "(0xFF :: u8) = mask 8" by (simp add: mask_eq_exp_minus_1)
      show ?thesis unfolding m bit_mask_iff using n by simp
    qed
    ultimately show "bit (ucast (drop_bit 8 (text_cell c color)) :: u8) n = bit (shown_colour c color) n"
      using n neg by (auto simp: shown_colour_def bit_simps)
  qed
  ultimately show ?thesis by (simp add: le16_def)
qed

lemma cell_index:
  "r < 25 \<Longrightarrow> c < 80 \<Longrightarrow> TEXT_BUFFER + 2 * (of_nat r * 80 + of_nat c) = TEXT_BUFFER + of_nat (2 * (80 * r + c))"
  by simp

interpretation tty: text_screen TEXT_BUFFER "\<lambda>r c v. put_cell (of_nat r * 80 + of_nat c) (of_le16 [fst v, snd v])"
  by standard (simp add: put_cell_def le16_of_le16)

lemma put_cell_store:
  "put_cell (of_nat r * 80 + of_nat x) (text_cell c color) = put_cell (of_nat r * 80 + of_nat x) (of_le16 [c, shown_colour c color])"
  by (simp flip: le16_text_cell)

lemma clear_screen_cells: "q < 2000 \<Longrightarrow> screen_cell TEXT_BUFFER (clear_screen color m) q = (32, ucast color)"
  using tty.fill_cells [of q "(32, ucast color)" m] by (simp add: clear_screen_def put_cell_store shown_colour_def)

lemma clear_screen_outside: "same_outside TEXT_BUFFER m (clear_screen color m)"
  using tty.fill_outside [of m "(32, ucast color)"] by (simp add: clear_screen_def put_cell_store shown_colour_def)

lemma unat_succ: "unat (w :: u32) < 100 \<Longrightarrow> unat (w + 1) = unat w + 1"
  by (simp add: unat_word_ariths)

text \<open>One \<open>putc\<close>, on the terminal and on the memory.\<close>

lemma putc_position:
  assumes "on_screen t"
  shows "on_screen (fst (putc c color (t, m))) \<and> position (fst (putc c color (t, m))) = next_position c (position t)"
proof -
  let ?x = "unat (term_x t)" and ?y = "unat (term_y t)"
  have b: "?x < 80" "?y < 25" using assms by (simp_all add: on_screen_def)
  then have s: "unat (term_x t + 1) = ?x + 1" "unat (term_y t + 1) = ?y + 1" by (simp_all add: unat_succ)
  have d: "(80 * ?y + ?x) div 80 = ?y" using b by simp
  consider (nl) "c = 10" | (wrap) "c \<noteq> 10" "?x = 79" | (plain) "c \<noteq> 10" "?x < 79" using b by linarith
  then show ?thesis
  proof cases
    case nl
    then show ?thesis
      using b s d by (auto simp: putc_def Let_def on_screen_def position_def next_position_def word_le_nat_alt)
  next
    case wrap
    then show ?thesis
      using b s d by (auto simp: putc_def Let_def on_screen_def position_def next_position_def word_le_nat_alt)
  next
    case plain
    then show ?thesis
      using b s d by (auto simp: putc_def Let_def on_screen_def position_def next_position_def word_le_nat_alt)
  qed
qed

text \<open>The cell under the cursor, and the whole screen when the position leaves it.\<close>

lemma put_at_cursor:
  assumes "on_screen t" and "q < 2000"
  shows "screen_cell TEXT_BUFFER (put_cell (term_y t * 80 + term_x t) (text_cell c color) m) q
      = (if q = position t then (c, shown_colour c color) else screen_cell TEXT_BUFFER m q)"
    and "same_outside TEXT_BUFFER m (put_cell (term_y t * 80 + term_x t) (text_cell c color) m)"
proof -
  have i: "term_y t * 80 + term_x t = of_nat (unat (term_y t)) * 80 + of_nat (unat (term_x t))" by simp
  have b: "unat (term_y t) < 25" "unat (term_x t) < 80" using assms(1) by (simp_all add: on_screen_def)
  show "screen_cell TEXT_BUFFER (put_cell (term_y t * 80 + term_x t) (text_cell c color) m) q
      = (if q = position t then (c, shown_colour c color) else screen_cell TEXT_BUFFER m q)"
    unfolding i put_cell_store position_def using tty.cell_after [OF b assms(2), of "(c, shown_colour c color)" m] by simp
  show "same_outside TEXT_BUFFER m (put_cell (term_y t * 80 + term_x t) (text_cell c color) m)"
    unfolding i put_cell_store using tty.outside_after [OF b, of m "(c, shown_colour c color)"] by simp
qed

lemma putc_leaves:
  assumes "on_screen t"
  shows "snd (putc c color (t, m)) =
    (let m' = (if c = 10 then m else put_cell (term_y t * 80 + term_x t) (text_cell c color) m)
     in if next_position c (position t) = 0 then clear_screen color m' else m')"
proof -
  let ?x = "unat (term_x t)" and ?y = "unat (term_y t)"
  have b: "?x < 80" "?y < 25" using assms by (simp_all add: on_screen_def)
  then have s: "unat (term_x t + 1) = ?x + 1" "unat (term_y t + 1) = ?y + 1" by (simp_all add: unat_succ)
  have d: "(80 * ?y + ?x) div 80 = ?y" using b by simp
  consider (nl) "c = 10" | (wrap) "c \<noteq> 10" "?x = 79" | (plain) "c \<noteq> 10" "?x < 79" using b by linarith
  then show ?thesis
    by cases (use b s d in \<open>auto simp: putc_def Let_def position_def next_position_def word_le_nat_alt\<close>)
qed

lemma putc_cells:
  assumes "on_screen t" and "q < 2000"
  shows "screen_cell TEXT_BUFFER (snd (putc c color (t, m))) q = typed c color (position t) (screen_cell TEXT_BUFFER m) q"
  using assms by (simp add: putc_leaves typed_def clear_screen_cells put_at_cursor)

lemma putc_outside:
  assumes "on_screen t"
  shows "same_outside TEXT_BUFFER m (snd (putc c color (t, m)))"
proof -
  have "same_outside TEXT_BUFFER m (if c = 10 then m else put_cell (term_y t * 80 + term_x t) (text_cell c color) m)"
    using put_at_cursor(2) [OF assms, of 0] by simp
  then show ?thesis
    unfolding putc_leaves [OF assms] Let_def by (auto intro: same_outside_trans clear_screen_outside)
qed

section \<open>Strings\<close>

text \<open>A string outside the screen is read unchanged while it is printed.\<close>

definition off_screen :: "u32 \<Rightarrow> nat \<Rightarrow> bool" where
  "off_screen a n \<longleftrightarrow> separate a n TEXT_BUFFER 4000"

fun typed_all :: "u8 list \<Rightarrow> u32 \<Rightarrow> nat \<times> (nat \<Rightarrow> u8 \<times> u8) \<Rightarrow> nat \<times> (nat \<Rightarrow> u8 \<times> u8)" where
  "typed_all [] color pc = pc"
| "typed_all (c # cs) color (p, cells) = typed_all cs color (next_position c p, typed c color p cells)"

lemma typed_cong: "f q = g q \<Longrightarrow> typed c color p f q = typed c color p g q"
  by (simp add: typed_def)

lemma typed_all_cong:
  "f q = g q \<Longrightarrow> fst (typed_all cs color (p, f)) = fst (typed_all cs color (p, g))
    \<and> snd (typed_all cs color (p, f)) q = snd (typed_all cs color (p, g)) q"
proof (induction cs arbitrary: p f g)
  case (Cons c cs)
  have "typed c color p f q = typed c color p g q" by (rule typed_cong) (rule Cons.prems)
  from Cons.IH [where f = "typed c color p f" and g = "typed c color p g", OF this] show ?case by simp
qed simp

lemma off_screen_kept:
  assumes "off_screen str n" and "same_outside TEXT_BUFFER m m'" and "i < n"
  shows "m' (str + of_nat i) = m (str + of_nat i)"
  using assms by (simp add: off_screen_def separate_def same_outside_def)

lemma puts_run:
  fixes color :: u32 and m :: memory
  assumes "on_screen t" and "off_screen str n" and "k + j \<le> n" and "q < 2000"
  defines "r \<equiv> fold (\<lambda>i (t, m). putc (m (str + of_nat i)) color (t, m)) [k..<k + j] (t, m)"
    and "bs \<equiv> map (\<lambda>i. m (str + of_nat i)) [k..<k + j]"
  shows "on_screen (fst r) \<and> same_outside TEXT_BUFFER m (snd r)
    \<and> position (fst r) = fst (typed_all bs color (position t, screen_cell TEXT_BUFFER m))
    \<and> screen_cell TEXT_BUFFER (snd r) q = snd (typed_all bs color (position t, screen_cell TEXT_BUFFER m)) q"
  using assms(1,3) unfolding r_def bs_def
proof (induction j arbitrary: k t m)
  case (Suc j)
  let ?c = "m (str + of_nat k)"
  obtain t' m' where tm: "putc ?c color (t, m) = (t', m')" by fastforce
  have pos: "on_screen t'" "position t' = next_position ?c (position t)"
    using putc_position [OF Suc.prems(1), of ?c color m] by (simp_all add: tm)
  have out: "same_outside TEXT_BUFFER m m'" using putc_outside [OF Suc.prems(1), of m ?c color] by (simp add: tm)
  have cell: "screen_cell TEXT_BUFFER m' q = typed ?c color (position t) (screen_cell TEXT_BUFFER m) q"
    using putc_cells [OF Suc.prems(1) assms(4), of ?c color m] by (simp add: tm)
  have bytes: "map (\<lambda>i. m' (str + of_nat i)) [Suc k..<Suc k + j] = map (\<lambda>i. m (str + of_nat i)) [Suc k..<Suc k + j]"
    using Suc.prems(2) by (auto intro!: off_screen_kept [OF assms(2) out])
  have ups: "[k..<k + Suc j] = k # [Suc k..<Suc k + j]" by (simp add: upt_conv_Cons del: upt_Suc)
  have "Suc k + j \<le> n" using Suc.prems(2) by simp
  from Suc.IH [OF pos(1) this, of m', unfolded bytes] out
    typed_all_cong [of "screen_cell TEXT_BUFFER m'" q "typed ?c color (position t) (screen_cell TEXT_BUFFER m)", OF cell]
  show ?case
    unfolding ups by (auto simp: tm pos(2) intro: same_outside_trans)
qed simp

lemma puts_result:
  assumes "on_screen t" and "off_screen str (unat len)" and "q < 2000"
  shows "on_screen (fst (puts str len color (t, m)))"
    and "same_outside TEXT_BUFFER m (snd (puts str len color (t, m)))"
    and "position (fst (puts str len color (t, m)))
      = fst (typed_all (mem_read m str (unat len)) color (position t, screen_cell TEXT_BUFFER m))"
    and "screen_cell TEXT_BUFFER (snd (puts str len color (t, m))) q
      = snd (typed_all (mem_read m str (unat len)) color (position t, screen_cell TEXT_BUFFER m)) q"
  using puts_run [OF assms(1,2) _ assms(3), of 0 "unat len" color m] by (simp_all add: puts_def mem_read_def)

lemma puts_on_screen: "on_screen t \<Longrightarrow> on_screen (fst (puts str len color (t, m)))"
proof -
  assume t: "on_screen t"
  have "on_screen (fst (fold (\<lambda>i (t, m). putc (m (str + of_nat i)) color (t, m)) is (t, m)))" for "is"
    using t
  proof (induction "is" arbitrary: t m)
    case (Cons i js)
    obtain t' m' where tm: "putc (m (str + of_nat i)) color (t, m) = (t', m')" by fastforce
    then have "on_screen t'" using putc_position [OF Cons.prems, of "m (str + of_nat i)" color m] by simp
    from Cons.IH [OF this, of m'] show ?case by (simp add: tm)
  qed simp
  then show ?thesis by (simp add: puts_def)
qed

text \<open>Text that stays on the screen lands cell by cell after the cursor.\<close>

lemma typed_all_text:
  assumes "p + length cs < 2000" and "10 \<notin> set cs"
  shows "fst (typed_all cs color (p, cells)) = p + length cs
    \<and> snd (typed_all cs color (p, cells)) q
      = (if p \<le> q \<and> q < p + length cs then (cs ! (q - p), shown_colour (cs ! (q - p)) color) else cells q)"
  using assms
proof (induction cs arbitrary: p cells)
  case (Cons c cs)
  have n: "next_position c p = p + 1" using Cons.prems by (simp add: next_position_def)
  have t: "typed c color p cells = cells(p := (c, shown_colour c color))" using Cons.prems n by (simp add: typed_def)
  have "p + 1 + length cs < 2000" "10 \<notin> set cs" using Cons.prems by auto
  note IH = Cons.IH [OF this, of "cells(p := (c, shown_colour c color))"]
  show ?case
  proof (cases "q = p")
    case True
    with IH show ?thesis by (simp add: n t fun_upd_def)
  next
    case False
    then have "p \<le> q \<Longrightarrow> q - p = Suc (q - (p + 1))" by simp
    then have "p + 1 \<le> q \<Longrightarrow> (c # cs) ! (q - p) = cs ! (q - (p + 1))" by simp
    with False IH show ?thesis by (auto simp: n t fun_upd_def)
  qed
qed auto

section \<open>Properties\<close>

text \<open>
  C13. Printing a string that does not itself lie on the screen: the cursor stays on the screen, nothing
  outside the 4000 bytes of the screen changes, and the screen and the cursor are those of typing the
  string character by character: a newline moves to the next line, any other character fills the cell
  under the cursor, and reaching the end of the screen blanks it and starts at the top again. A
  character above 127 gets the colour byte 0xFF instead of the requested colour.
\<close>

theorem puts_types:
  assumes "on_screen t" and "off_screen str (unat len)"
  shows "on_screen (fst (puts str len color (t, m)))
    \<and> same_outside TEXT_BUFFER m (snd (puts str len color (t, m)))
    \<and> position (fst (puts str len color (t, m)))
        = fst (typed_all (mem_read m str (unat len)) color (position t, screen_cell TEXT_BUFFER m))
    \<and> (\<forall>q\<in>{..<2000}. screen_cell TEXT_BUFFER (snd (puts str len color (t, m))) q
        = snd (typed_all (mem_read m str (unat len)) color (position t, screen_cell TEXT_BUFFER m)) q)"
  using puts_result(1-3) [OF assms, where q = 0 and color = color and m = m]
    puts_result(4) [OF assms, where color = color and m = m] by auto

text \<open>The bottom right cell: one more character blanks the screen.\<close>

lemma on_screen_example: "on_screen \<lparr>term_x = 79, term_y = 24\<rparr> \<and> position \<lparr>term_x = 79, term_y = 24\<rparr> = 1999"
  by (simp add: on_screen_def position_def)

lemma off_screen_low: "n \<le> 0xB8000 \<Longrightarrow> off_screen 0 n"
  unfolding off_screen_def by (rule separate_disjoint) (simp_all add: TEXT_BUFFER_def)

theorem puts_types_witness:
  "position (fst (puts 0 1 7 (\<lparr>term_x = 79, term_y = 24\<rparr>, \<lambda>_. 0x41))) = 0
   \<and> screen_cell TEXT_BUFFER (snd (puts 0 1 7 (\<lparr>term_x = 79, term_y = 24\<rparr>, \<lambda>_. 0x41))) 1999 = (32, 7)"
  using puts_types [OF on_screen_example [THEN conjunct1], of 0 1 7 "\<lambda>_. 0x41"] on_screen_example
  by (simp add: off_screen_low mem_read_def next_position_def typed_def)

text \<open>
  Text without newlines that ends before the last cell of the screen is shown as it is: its
  characters stand in the cells from the cursor on, every other cell is unchanged, and the cursor stands
  behind it.
\<close>

theorem puts_text:
  assumes "on_screen t" and "off_screen str (unat len)" and "position t + unat len < 2000"
    and "10 \<notin> set (mem_read m str (unat len))" and "q < 2000"
  shows "position (fst (puts str len color (t, m))) = position t + unat len
    \<and> screen_cell TEXT_BUFFER (snd (puts str len color (t, m))) q
      = (if position t \<le> q \<and> q < position t + unat len
         then (m (str + of_nat (q - position t)), shown_colour (m (str + of_nat (q - position t))) color)
         else screen_cell TEXT_BUFFER m q)"
proof -
  have "position t + length (mem_read m str (unat len)) < 2000" using assms(3) by simp
  from typed_all_text [OF this assms(4), of color "screen_cell TEXT_BUFFER m" q]
  show ?thesis
    unfolding puts_result(3,4) [OF assms(1,2,5)] by auto
qed

theorem puts_text_witness:
  "screen_cell TEXT_BUFFER (snd (puts 0 3 7 (\<lparr>term_x = 1, term_y = 0\<rparr>, \<lambda>_. 0x41))) 3 = (0x41, 7)"
proof -
  let ?t = "\<lparr>term_x = 1, term_y = 0\<rparr>"
  have t: "on_screen ?t" "position ?t = 1" by (simp_all add: on_screen_def position_def)
  have o: "off_screen 0 (unat (3 :: u32))" by (rule off_screen_low) simp
  have "position ?t + unat (3 :: u32) < 2000" by (simp add: t(2))
  moreover have "10 \<notin> set (mem_read (\<lambda>_. 0x41) 0 (unat (3 :: u32)))" by (auto simp: mem_read_def)
  moreover have "(3 :: nat) < 2000" by simp
  ultimately have "screen_cell TEXT_BUFFER (snd (puts 0 3 7 (?t, \<lambda>_. 0x41))) 3
      = (if position ?t \<le> 3 \<and> 3 < position ?t + unat (3 :: u32) then (0x41, shown_colour 0x41 7)
         else screen_cell TEXT_BUFFER (\<lambda>_. 0x41) 3)"
    by (rule puts_text [OF t(1) o, THEN conjunct2])
  then show ?thesis by (simp add: t(2) shown_colour_def)
qed

end
