(* ===== verification/Syscall.thy ===== *)
theory Syscall imports Interrupt Terminal Fat_Driver begin

text \<open>
  The system calls of \<open>src/ch1/interrupt/interrupt.c\<close> on the state of the whole kernel: the file
  system with the memory and the devices behind the ports, the keyboard driver and the text output.
  The numbers 0 to 3 are file requests, decoded from the caller's memory; their return code is stored
  at the address in \<open>ecx\<close>.
\<close>

record 'p kernel_state =
  storage :: "'p fs_state"
  keyboard :: KeyboardDriverState
  screen :: terminal

abbreviation kernel_mem :: "'p kernel_state \<Rightarrow> memory" where
  "kernel_mem k \<equiv> mem (storage k)"

definition with_mem :: "memory \<Rightarrow> 'p kernel_state \<Rightarrow> 'p kernel_state" where
  "with_mem m k = k\<lparr>storage := (storage k)\<lparr>mem := m\<rparr>\<rparr>"

text \<open>The packed \<open>struct FAT32DriverRequest\<close> in memory: 23 bytes.\<close>

definition decode_request :: "memory \<Rightarrow> u32 \<Rightarrow> FAT32DriverRequest" where
  "decode_request m a = \<lparr>buf = of_le32 (mem_read m a 4), req_name = mem_read m (a + 4) 8, req_ext = mem_read m (a + 12) 3,
     parent_cluster_number = of_le32 (mem_read m (a + 15) 4), buffer_size = of_le32 (mem_read m (a + 19) 4)\<rparr>"

definition encode_request :: "FAT32DriverRequest \<Rightarrow> u8 list" where
  "encode_request r = le32 (buf r) @ req_name r @ req_ext r @ le32 (parent_cluster_number r) @ le32 (buffer_size r)"

definition file_call ::
  "(FAT32DriverRequest \<Rightarrow> 'p fs_state \<Rightarrow> (int \<times> 'p fs_state) option) \<Rightarrow> GeneralRegister \<Rightarrow> 'p kernel_state \<Rightarrow> 'p kernel_state option" where
  "file_call operation g k = do {
     (c, s) \<leftarrow> operation (decode_request (kernel_mem k) (ebx g)) (storage k);
     Some (k\<lparr>storage := s\<lparr>mem := (mem s)(ecx g := of_int c)\<rparr>\<rparr>) }"

definition syscall :: "'p block_ops \<Rightarrow> InterruptFrame \<Rightarrow> 'p kernel_state \<Rightarrow> 'p kernel_state option" where
  "syscall ops frame k =
     (let g = general (cpu frame) in
      if eax g = 0 then file_call (read_fat32 ops) g k
      else if eax g = 1 then file_call (read_directory ops) g k
      else if eax g = 2 then file_call (write_fat32 ops) g k
      else if eax g = 3 then file_call (delete_fat32 ops) g k
      else if eax g = 4 then
        (let (b, kb) = get_keyboard_buffer (keyboard k)
         in Some (with_mem ((kernel_mem k)(ebx g := b)) k\<lparr>keyboard := kb\<rparr>))
      else if eax g = 5 then
        (let (t, m) = putc (ucast (ebx g)) (ecx g) (screen k, kernel_mem k) in Some (with_mem m k\<lparr>screen := t\<rparr>))
      else if eax g = 6 then
        (let (t, m) = puts (ebx g) (ecx g) (edx g) (screen k, kernel_mem k) in Some (with_mem m k\<lparr>screen := t\<rparr>))
      else if eax g = 7 then Some (k\<lparr>keyboard := keyboard_state_activate (keyboard k)\<rparr>)
      else Some k)"

text \<open>An interrupt, as the stub delivers it to the C handler.\<close>

definition interrupt :: "'p port_ops \<Rightarrow> InterruptFrame \<Rightarrow> 'p kernel_state \<Rightarrow> 'p kernel_state" where
  "interrupt io frame k =
     (let (kb, p) = main_interrupt_handler io frame (keyboard k, dev (storage k))
      in k\<lparr>keyboard := kb, storage := (storage k)\<lparr>dev := p\<rparr>\<rparr>)"

section \<open>Requests in memory\<close>

lemma decode_request_ok [simp]: "request_ok (decode_request m a)"
  by (simp add: decode_request_def request_ok_def)

lemma mem_read_part:
  assumes "length xs + length ys + length zs \<le> 2 ^ 32"
  shows "mem_read (mem_write m a (xs @ ys @ zs)) (a + of_nat (length xs)) (length ys) = ys"
proof (rule nth_equalityI)
  fix i assume "i < length (mem_read (mem_write m a (xs @ ys @ zs)) (a + of_nat (length xs)) (length ys))"
  then have i: "i < length ys" by simp
  have eq: "a + of_nat (length xs) + of_nat i - a = (of_nat (length xs + i) :: u32)" by simp
  have "unat (of_nat (length xs + i) :: u32) = length xs + i"
    by (rule unat_of_nat_u32) (use assms i in linarith)
  then show "mem_read (mem_write m a (xs @ ys @ zs)) (a + of_nat (length xs)) (length ys) ! i = ys ! i"
    using i by (simp only: nth_mem_read mem_write_def eq) (simp add: nth_append)
qed simp

lemma decode_encode_request:
  assumes "request_ok r"
  shows "decode_request (mem_write m a (encode_request r)) a = r"
proof -
  have len: "length (req_name r) = 8" "length (req_ext r) = 3" using assms by (simp_all add: request_ok_def)
  note part = mem_read_part [where m = m and a = a]
  have "mem_read (mem_write m a (encode_request r)) a 4 = le32 (buf r)"
    using part [of "[]" "le32 (buf r)" "req_name r @ req_ext r @ le32 (parent_cluster_number r) @ le32 (buffer_size r)"] len
    by (simp add: encode_request_def)
  moreover have "mem_read (mem_write m a (encode_request r)) (a + 4) 8 = req_name r"
    using part [of "le32 (buf r)" "req_name r" "req_ext r @ le32 (parent_cluster_number r) @ le32 (buffer_size r)"] len
    by (simp add: encode_request_def)
  moreover have "mem_read (mem_write m a (encode_request r)) (a + 12) 3 = req_ext r"
    using part [of "le32 (buf r) @ req_name r" "req_ext r" "le32 (parent_cluster_number r) @ le32 (buffer_size r)"] len
    by (simp add: encode_request_def)
  moreover have "mem_read (mem_write m a (encode_request r)) (a + 15) 4 = le32 (parent_cluster_number r)"
    using part [of "le32 (buf r) @ req_name r @ req_ext r" "le32 (parent_cluster_number r)" "le32 (buffer_size r)"] len
    by (simp add: encode_request_def)
  moreover have "mem_read (mem_write m a (encode_request r)) (a + 19) 4 = le32 (buffer_size r)"
    using part [of "le32 (buf r) @ req_name r @ req_ext r @ le32 (parent_cluster_number r)" "le32 (buffer_size r)" "[]"] len
    by (simp add: encode_request_def)
  ultimately show ?thesis by (simp add: decode_request_def)
qed

lemma request_bytes:
  "mem_read m a 23 = mem_read m a 4 @ mem_read m (a + 4) 8 @ mem_read m (a + 12) 3 @ mem_read m (a + 15) 4 @ mem_read m (a + 19) 4"
  using mem_read_add [of m a 4 19] mem_read_add [of m "a + 4" 8 11] mem_read_add [of m "a + 12" 3 8]
    mem_read_add [of m "a + 15" 4 4] by (simp add: add.assoc)

lemma encode_decode_request: "encode_request (decode_request m a) = mem_read m a 23"
  by (simp add: request_bytes encode_request_def decode_request_def le32_of_le32)

lemma decode_request_cong: "mem_read m' a 23 = mem_read m a 23 \<Longrightarrow> decode_request m' a = decode_request m a"
  by (simp add: request_bytes decode_request_def)

lemma length_encode_request: "request_ok r \<Longrightarrow> length (encode_request r) = 23"
  by (simp add: encode_request_def request_ok_def)

section \<open>Properties\<close>

text \<open>
  A request a program lays out in its memory is the request the file system gets, and every 23
  bytes decode to a request with a name of 8 and an extension of 3 bytes that encodes back to them.
\<close>

theorem request_roundtrip:
  assumes "request_ok r"
  shows "decode_request (mem_write m a (encode_request r)) a = r
    \<and> encode_request (decode_request m a) = mem_read m a 23"
  using decode_encode_request [OF assms] encode_decode_request by blast

theorem request_roundtrip_witness:
  "decode_request (mem_write (\<lambda>_. 0) 0xFFFFFFF0 (encode_request \<lparr>buf = 0x1000, req_name = replicate 8 65, req_ext = [1, 2, 3],
      parent_cluster_number = 2, buffer_size = 100\<rparr>)) 0xFFFFFFF0
    = \<lparr>buf = 0x1000, req_name = replicate 8 65, req_ext = [1, 2, 3], parent_cluster_number = 2, buffer_size = 100\<rparr>"
  using request_roundtrip [of "\<lparr>buf = 0x1000, req_name = replicate 8 65, req_ext = [1, 2, 3], parent_cluster_number = 2, buffer_size = 100\<rparr>"
    "\<lambda>_. 0" "0xFFFFFFF0"] by (simp add: request_ok_def)

text \<open>
  C19. A key press reaches the program: with the keyboard active and no extended code pending, the
  keyboard interrupt for a press code followed by system call 4 stores the character of the key at the
  address in \<open>ebx\<close>, empties the buffer, acknowledges the interrupt and changes nothing else; asking
  again yields 0.
\<close>

theorem key_reaches_program:
  assumes "keyboard_input_on (keyboard k)" and "\<not> read_extended_mode (keyboard k)"
    and "in_op io 0x60 (dev (storage k)) = (sc, p)" and "sc \<noteq> 0xE0"
    and "int_number irq = 0x21" and "eax (general (cpu call)) = 4"
  shows "syscall ops call (interrupt io irq k)
      = Some (k\<lparr>storage := (storage k)\<lparr>mem := (kernel_mem k)(ebx (general (cpu call)) := key_char sc), dev := out_op io 0x20 0x20 p\<rparr>,
          keyboard := (keyboard k)\<lparr>keyboard_buffer := 0\<rparr>\<rparr>)
    \<and> syscall ops call (the (syscall ops call (interrupt io irq k)))
      = Some (k\<lparr>storage := (storage k)\<lparr>mem := (kernel_mem k)(ebx (general (cpu call)) := 0), dev := out_op io 0x20 0x20 p\<rparr>,
          keyboard := (keyboard k)\<lparr>keyboard_buffer := 0\<rparr>\<rparr>)"
proof -
  have "keyboard_isr io (keyboard k, dev (storage k)) = ((keyboard k)\<lparr>keyboard_buffer := key_char sc\<rparr>, out_op io 0x20 0x20 p)"
    using assms(1-4) by (simp add: keyboard_isr_on scancode_step_on)
  then show ?thesis
    using assms(5,6) by (simp add: interrupt_def handler_cases syscall_def with_mem_def get_keyboard_buffer_def)
qed

text \<open>The \<open>a\<close> key, read to address 0x500.\<close>

definition call_frame :: "u32 \<Rightarrow> u32 \<Rightarrow> u32 \<Rightarrow> u32 \<Rightarrow> InterruptFrame" where
  "call_frame number b c d = \<lparr>cpu = \<lparr>index_regs = \<lparr>edi = 0, esi = 0\<rparr>, stack_regs = \<lparr>esp = 0, ebp = 0\<rparr>,
       general = \<lparr>ebx = b, edx = d, ecx = c, eax = number\<rparr>, segment = \<lparr>gs = 0, fs = 0, es = 0, ds = 0\<rparr>\<rparr>,
     int_number = 0x30, int_stack = \<lparr>error_code = 0, eip = 0, cs = 0, eflags = 0\<rparr>\<rparr>"

definition idle_kernel :: "'p \<Rightarrow> memory \<Rightarrow> 'p kernel_state" where
  "idle_kernel p m = \<lparr>storage = \<lparr>fat_table = [], dir_table_buf = [], cluster_buf = [], mem = m, dev = p\<rparr>,
     keyboard = \<lparr>read_extended_mode = False, keyboard_input_on = True, keyboard_buffer = 0\<rparr>, screen = \<lparr>term_x = 0, term_y = 0\<rparr>\<rparr>"

theorem key_reaches_program_witness:
  "\<exists>k'. syscall \<lparr>read_blocks_op = (\<lambda>_ _ _. None), write_blocks_op = (\<lambda>_ _ _ _. None)\<rparr> (call_frame 4 0x500 0 0)
      (interrupt log_ops ((call_frame 0 0 0 0)\<lparr>int_number := 0x21\<rparr>)
        (idle_kernel \<lparr>queued = (\<lambda>_. [0x1E]), sent = []\<rparr> (\<lambda>_. 0))) = Some k'
    \<and> kernel_mem k' 0x500 = key_char 0x1E \<and> sent (dev (storage k')) = [(0x20, 0x20)]"
  using key_reaches_program [of "idle_kernel \<lparr>queued = (\<lambda>_. [0x1E]), sent = []\<rparr> (\<lambda>_. 0)" log_ops "0x1E"
      "\<lparr>queued = (\<lambda>_. [0x1E])(0x60 := []), sent = []\<rparr>" "(call_frame 0 0 0 0)\<lparr>int_number := 0x21\<rparr>" "call_frame 4 0x500 0 0"
      "\<lparr>read_blocks_op = (\<lambda>_ _ _. None), write_blocks_op = (\<lambda>_ _ _ _. None)\<rparr>"]
  by (simp add: idle_kernel_def call_frame_def log_ops_def)

end
