(* ===== verification/Ata.thy ===== *)
theory Ata imports Block_Device Port_IO begin

text \<open>
  The disk driver of the kernel, \<open>src/ch1/disk/disk.c\<close>: ATA PIO transfers of 512-byte blocks through
  ports 0x1F0 to 0x1F7. The disk is not part of the repository; what the driver relies on is the locale
  \<open>ata_disk\<close>, and under it the driver is a provider of the block interface (\<open>sublocale\<close> below).
\<close>

definition ATA_STATUS_BSY :: u8 where "ATA_STATUS_BSY = 0x80"
definition ATA_STATUS_RDY :: u8 where "ATA_STATUS_RDY = 0x40"
definition BLOCK_SIZE :: nat where [kernel_defs]: "BLOCK_SIZE = 512"
definition HALF_BLOCK_SIZE :: nat where [kernel_defs]: "HALF_BLOCK_SIZE = BLOCK_SIZE div 2"

section \<open>The driver\<close>

text \<open>The two polling loops; \<open>None\<close> when the disk never answers.\<close>

partial_function (option) ATA_busy_wait :: "'p port_ops \<Rightarrow> 'p \<Rightarrow> 'p option" where
  "ATA_busy_wait io p =
     (let (status, p) = in_op io 0x1F7 p
      in if status AND ATA_STATUS_BSY \<noteq> 0 then ATA_busy_wait io p else Some p)"

partial_function (option) ATA_DRQ_wait :: "'p port_ops \<Rightarrow> 'p \<Rightarrow> 'p option" where
  "ATA_DRQ_wait io p =
     (let (status, p) = in_op io 0x1F7 p
      in if status AND ATA_STATUS_RDY = 0 then ATA_DRQ_wait io p else Some p)"

text \<open>Selecting the blocks and starting the command: the six port writes both functions share.\<close>

definition ata_command :: "'p port_ops \<Rightarrow> u32 \<Rightarrow> u8 \<Rightarrow> u8 \<Rightarrow> 'p \<Rightarrow> 'p" where
  "ata_command io logical_block_address block_count command p =
     (let p = out_op io 0x1F6 (0xE0 OR ucast (drop_bit 24 logical_block_address AND 0xF)) p;
          p = out_op io 0x1F2 block_count p;
          p = out_op io 0x1F3 (ucast logical_block_address) p;
          p = out_op io 0x1F4 (ucast (drop_bit 8 logical_block_address)) p;
          p = out_op io 0x1F5 (ucast (drop_bit 16 logical_block_address)) p
      in out_op io 0x1F7 command p)"

text \<open>The bytes of the \<open>n\<close> words read, as they are stored at \<open>target\<close>.\<close>

fun read_words :: "'p port_ops \<Rightarrow> nat \<Rightarrow> 'p \<Rightarrow> u8 list \<times> 'p" where
  "read_words io 0 p = ([], p)"
| "read_words io (Suc n) p =
     (let (w, p) = in16_op io 0x1F0 p; (bs, p) = read_words io n p in (le16 w @ bs, p))"

fun ata_read_from :: "'p port_ops \<Rightarrow> nat \<Rightarrow> 'p \<Rightarrow> (u8 list \<times> 'p) option" where
  "ata_read_from io 0 p = Some ([], p)"
| "ata_read_from io (Suc k) p = do {
     p \<leftarrow> ATA_busy_wait io p;
     p \<leftarrow> ATA_DRQ_wait io p;
     let (b, p) = read_words io HALF_BLOCK_SIZE p;
     (rest, p) \<leftarrow> ata_read_from io k p;
     Some (b @ rest, p) }"

definition ata_read_blocks :: "'p port_ops \<Rightarrow> u32 \<Rightarrow> u8 \<Rightarrow> 'p \<Rightarrow> (u8 list \<times> 'p) option" where
  "ata_read_blocks io logical_block_address block_count p = do {
     p \<leftarrow> ATA_busy_wait io p;
     ata_read_from io (unat block_count) (ata_command io logical_block_address block_count 0x20 p) }"

fun write_words :: "'p port_ops \<Rightarrow> u8 list \<Rightarrow> nat \<Rightarrow> 'p \<Rightarrow> 'p" where
  "write_words io bs 0 p = p"
| "write_words io bs (Suc n) p = write_words io (drop 2 bs) n (out16_op io 0x1F0 (of_le16 bs) p)"

text \<open>\<open>bs\<close> are the bytes from \<open>ptr\<close> on; reading past them is a fault.\<close>

fun ata_write_from :: "'p port_ops \<Rightarrow> u8 list \<Rightarrow> nat \<Rightarrow> nat \<Rightarrow> 'p \<Rightarrow> 'p option" where
  "ata_write_from io bs i 0 p = Some p"
| "ata_write_from io bs i (Suc k) p = do {
     p \<leftarrow> ATA_busy_wait io p;
     p \<leftarrow> ATA_DRQ_wait io p;
     if 2 * (HALF_BLOCK_SIZE * i + HALF_BLOCK_SIZE) \<le> length bs
     then ata_write_from io bs (Suc i) k (write_words io (drop (2 * (HALF_BLOCK_SIZE * i)) bs) HALF_BLOCK_SIZE p)
     else None }"

definition ata_write_blocks :: "'p port_ops \<Rightarrow> u8 list \<Rightarrow> u32 \<Rightarrow> u8 \<Rightarrow> 'p \<Rightarrow> 'p option" where
  "ata_write_blocks io bs logical_block_address block_count p = do {
     p \<leftarrow> ATA_busy_wait io p;
     ata_write_from io bs 0 (unat block_count) (ata_command io logical_block_address block_count 0x30 p) }"

definition ata_ops :: "'p port_ops \<Rightarrow> 'p block_ops" where
  "ata_ops io = \<lparr>read_blocks_op = ata_read_blocks io, write_blocks_op = ata_write_blocks io\<rparr>"

text \<open>A read that returns has filled its buffer, whatever is behind the ports.\<close>

lemma length_read_words [len_simps]: "length (fst (read_words io n p)) = 2 * n"
  by (induction n arbitrary: p) (simp_all add: split_def Let_def)

lemma length_ata_read_from: "ata_read_from io k p = Some (bs, p') \<Longrightarrow> length bs = 512 * k"
proof (induction k arbitrary: p bs)
  case (Suc k)
  from Suc.prems obtain q b q' rest where "read_words io HALF_BLOCK_SIZE q = (b, q')"
    and "ata_read_from io k q' = Some (rest, p')" and "bs = b @ rest"
    by (auto split: bind_splits prod.splits simp: Let_def)
  with Suc.IH length_read_words [of io HALF_BLOCK_SIZE q] show ?case
    by (simp add: HALF_BLOCK_SIZE_def BLOCK_SIZE_def)
qed simp

interpretation ata_sized: sized_device "ata_ops io" for io
  by standard (auto simp: ata_ops_def ata_read_blocks_def dest!: length_ata_read_from split: bind_splits)

section \<open>The disk\<close>

text \<open>
  An ATA disk in PIO mode, as documented: the address and count registers, the sectors, and the data
  phase. A count of 0 stands for 256 sectors.
\<close>

lemma bit_nibble:
  "bit (0xF :: u8) n \<longleftrightarrow> n < 4" "bit (0xF :: u32) n \<longleftrightarrow> n < 4" "bit (0xE0 :: u8) n \<longleftrightarrow> 5 \<le> n \<and> n < 8"
proof -
  have m: "(0xF :: u8) = mask 4" "(0xF :: u32) = mask 4" "(0xE0 :: u8) = push_bit 5 (mask 3)"
    by (simp_all add: mask_eq_exp_minus_1 push_bit_eq_mult)
  show "bit (0xF :: u8) n \<longleftrightarrow> n < 4" "bit (0xF :: u32) n \<longleftrightarrow> n < 4" "bit (0xE0 :: u8) n \<longleftrightarrow> 5 \<le> n \<and> n < 8"
    unfolding m bit_push_bit_iff bit_mask_iff by auto
qed

lemma drive_nibble: "ucast ((0xE0 OR ucast (v AND 0xF) :: u8) AND 0xF) = take_bit 4 (v :: u32)"
proof (rule bit_word_eqI)
  fix n assume "n < LENGTH(32)"
  show "bit (ucast ((0xE0 OR ucast (v AND 0xF) :: u8) AND 0xF) :: u32) n = bit (take_bit 4 v) n"
    by (simp only: bit_take_bit_iff bit_and_iff bit_or_iff bit_unsigned_iff bit_nibble) auto
qed

lemma lba_bytes:
  assumes "unat lba < 2 ^ 28"
  shows "ucast (ucast lba :: u8) OR push_bit 8 (ucast (ucast (drop_bit 8 lba) :: u8))
      OR push_bit 16 (ucast (ucast (drop_bit 16 lba) :: u8)) OR push_bit 24 (take_bit 4 (drop_bit 24 lba)) = (lba :: u32)"
proof (rule bit_word_eqI)
  fix n assume "n < LENGTH(32)"
  then consider "n < 8" | "8 \<le> n" "n < 16" | "16 \<le> n" "n < 24" | "24 \<le> n" "n < 28" | "28 \<le> n" "n < 32" by fastforce
  moreover have "\<not> bit lba n" if "28 \<le> n"
  proof -
    have "(2 :: nat) ^ 28 \<le> 2 ^ n" using that by (intro power_increasing) simp_all
    with assms have "unat lba div 2 ^ n = 0" by (intro div_less) linarith
    then have "\<not> bit (unat lba) n" by (simp add: bit_iff_odd)
    then show ?thesis using bit_unsigned_iff [where ?'a = nat, of lba n] by (auto dest: bit_imp_le_length)
  qed
  ultimately show "bit (ucast (ucast lba :: u8) OR push_bit 8 (ucast (ucast (drop_bit 8 lba) :: u8))
      OR push_bit 16 (ucast (ucast (drop_bit 16 lba) :: u8)) OR push_bit 24 (take_bit 4 (drop_bit 24 lba))) n = bit lba n"
    by cases (auto simp: bit_simps)
qed

datatype data_phase = Idle | Data_In "u8 list" | Data_Out nat nat "u8 list"

record ata =
  sel :: u8
  count :: u8
  lba_lo :: u8
  lba_mid :: u8
  lba_hi :: u8
  sectors :: "nat \<Rightarrow> u8 list"
  phase :: data_phase

definition in_phase :: "u8 list \<Rightarrow> data_phase" where
  "in_phase bs = (if bs = [] then Idle else Data_In bs)"

definition out_phase :: "nat \<Rightarrow> nat \<Rightarrow> u8 list \<Rightarrow> data_phase" where
  "out_phase l n bs = (if n = 0 then Idle else Data_Out l n bs)"

definition lba_of :: "ata \<Rightarrow> nat" where
  "lba_of a = unat (ucast (lba_lo a) OR push_bit 8 (ucast (lba_mid a)) OR push_bit 16 (ucast (lba_hi a))
     OR push_bit 24 (ucast (sel a AND 0xF)) :: u32)"

definition requested :: "ata \<Rightarrow> nat" where
  "requested a = (if count a = 0 then 256 else unat (count a))"

definition ata_out :: "u16 \<Rightarrow> u8 \<Rightarrow> ata \<Rightarrow> ata" where
  "ata_out port b a =
     (if port = 0x1F2 then a\<lparr>count := b\<rparr> else if port = 0x1F3 then a\<lparr>lba_lo := b\<rparr>
      else if port = 0x1F4 then a\<lparr>lba_mid := b\<rparr> else if port = 0x1F5 then a\<lparr>lba_hi := b\<rparr>
      else if port = 0x1F6 then a\<lparr>sel := b\<rparr>
      else if port = 0x1F7 \<and> b = 0x20 then a\<lparr>phase := in_phase (concat (map (sectors a) [lba_of a..<lba_of a + requested a]))\<rparr>
      else if port = 0x1F7 \<and> b = 0x30 then a\<lparr>phase := out_phase (lba_of a) (requested a) []\<rparr>
      else a)"

definition ata_get :: "ata \<Rightarrow> u16 \<times> ata" where
  "ata_get a = (case phase a of
     Data_In (b0 # b1 # bs) \<Rightarrow> (of_le16 [b0, b1], a\<lparr>phase := in_phase bs\<rparr>)
   | _ \<Rightarrow> (0, a))"

definition ata_put :: "u16 \<Rightarrow> ata \<Rightarrow> ata" where
  "ata_put w a = (case phase a of
     Data_Out l n bs \<Rightarrow>
       if length bs + 2 < 512 then a\<lparr>phase := Data_Out l n (bs @ le16 w)\<rparr>
       else a\<lparr>sectors := (sectors a)(l := bs @ le16 w), phase := out_phase (Suc l) (n - 1) []\<rparr>
   | _ \<Rightarrow> a)"

text \<open>Between the words of a sector the disk keeps the data request up.\<close>

definition mid_sector :: "ata \<Rightarrow> bool" where
  "mid_sector a \<longleftrightarrow> (case phase a of Idle \<Rightarrow> False | Data_In bs \<Rightarrow> length bs mod 512 \<noteq> 0 | Data_Out l n bs \<Rightarrow> bs \<noteq> [])"

text \<open>Between transfers, with 512 bytes in every sector of the 4 MiB.\<close>

definition disk_ready :: "ata \<Rightarrow> bool" where
  "disk_ready a \<longleftrightarrow> phase a = Idle \<and> (\<forall>i<DISK_BLOCKS. length (sectors a i) = 512)"

text \<open>
  The contract. \<open>view\<close> reads the disk off the state behind the ports, \<open>data_request p\<close> says that the
  data register may be used, and \<open>patience p\<close> bounds the status reads until the disk is idle and ready.
  Reading the status changes nothing else; a disk that is not busy in a data phase asserts the data
  request, as the driver assumes when it waits for the ready bit only.
\<close>

locale ata_disk =
  fixes io :: "'p port_ops" and view :: "'p \<Rightarrow> ata" and data_request :: "'p \<Rightarrow> bool" and patience :: "'p \<Rightarrow> nat"
  assumes status_view: "view (snd (in_op io 0x1F7 p)) = view p"
    and status_keeps: "data_request p \<Longrightarrow> data_request (snd (in_op io 0x1F7 p))"
    and status_data: "fst (in_op io 0x1F7 p) AND 0x80 = 0 \<Longrightarrow> phase (view p) \<noteq> Idle \<Longrightarrow> data_request (snd (in_op io 0x1F7 p))"
    and status_progress: "fst (in_op io 0x1F7 p) AND 0x80 \<noteq> 0 \<or> fst (in_op io 0x1F7 p) AND 0x40 = 0 \<Longrightarrow>
      patience (snd (in_op io 0x1F7 p)) < patience p"
    and out_view: "phase (view p) = Idle \<Longrightarrow> 0x1F2 \<le> port \<Longrightarrow> port \<le> 0x1F7 \<Longrightarrow> view (out_op io port b p) = ata_out port b (view p)"
    and get_word: "data_request p \<Longrightarrow> fst (in16_op io 0x1F0 p) = fst (ata_get (view p))"
    and get_view: "data_request p \<Longrightarrow> view (snd (in16_op io 0x1F0 p)) = snd (ata_get (view p))"
    and get_keeps: "data_request p \<Longrightarrow> mid_sector (view (snd (in16_op io 0x1F0 p))) \<Longrightarrow> data_request (snd (in16_op io 0x1F0 p))"
    and put_view: "data_request p \<Longrightarrow> view (out16_op io 0x1F0 w p) = ata_put w (view p)"
    and put_keeps: "data_request p \<Longrightarrow> mid_sector (view (out16_op io 0x1F0 w p)) \<Longrightarrow> data_request (out16_op io 0x1F0 w p)"
begin

lemma busy_wait:
  "\<exists>p'. ATA_busy_wait io p = Some p' \<and> view p' = view p \<and> (phase (view p) \<noteq> Idle \<longrightarrow> data_request p')"
proof (induction "patience p" arbitrary: p rule: less_induct)
  case less
  obtain st q where q: "in_op io 0x1F7 p = (st, q)" by fastforce
  show ?case
  proof (cases "st AND 0x80 = 0")
    case True
    then show ?thesis
      using status_view [of p] status_data [of p] by (subst ATA_busy_wait.simps) (simp add: q ATA_STATUS_BSY_def)
  next
    case False
    with status_progress [of p] have "patience q < patience p" by (simp add: q)
    from less [OF this] status_view [of p] False show ?thesis
      by (subst ATA_busy_wait.simps) (simp add: q ATA_STATUS_BSY_def)
  qed
qed

lemma drq_wait:
  "data_request p \<Longrightarrow> \<exists>p'. ATA_DRQ_wait io p = Some p' \<and> view p' = view p \<and> data_request p'"
proof (induction "patience p" arbitrary: p rule: less_induct)
  case less
  obtain st q where q: "in_op io 0x1F7 p = (st, q)" by fastforce
  note keep = status_keeps [OF less.prems, unfolded q snd_conv]
  show ?case
  proof (cases "st AND 0x40 = 0")
    case True
    with status_progress [of p] have "patience q < patience p" by (simp add: q)
    from less.hyps [OF this keep] status_view [of p] True show ?thesis
      by (subst ATA_DRQ_wait.simps) (simp add: q ATA_STATUS_RDY_def)
  next
    case False
    then show ?thesis
      using status_view [of p] keep by (subst ATA_DRQ_wait.simps) (simp add: q ATA_STATUS_RDY_def)
  qed
qed

lemma both_waits:
  assumes "phase (view p) \<noteq> Idle"
  shows "\<exists>p1 p2. ATA_busy_wait io p = Some p1 \<and> ATA_DRQ_wait io p1 = Some p2 \<and> view p2 = view p \<and> data_request p2"
  using busy_wait [of p] assms drq_wait by fastforce

lemma read_sector:
  "phase (view p) = in_phase bs \<Longrightarrow> length bs = 512 * k + 2 * n \<Longrightarrow> n \<le> 256 \<Longrightarrow> (0 < n \<Longrightarrow> data_request p) \<Longrightarrow>
   \<exists>p'. read_words io n p = (take (2 * n) bs, p') \<and> view p' = (view p)\<lparr>phase := in_phase (drop (2 * n) bs)\<rparr>"
proof (induction n arbitrary: p bs)
  case (Suc n)
  from Suc.prems(2) obtain b0 b1 bs' where bs: "bs = b0 # b1 # bs'"
    by (cases bs; cases "tl bs") auto
  have dr: "data_request p" using Suc.prems(4) by simp
  obtain w q where q: "in16_op io 0x1F0 p = (w, q)" by fastforce
  have get: "ata_get (view p) = (of_le16 [b0, b1], (view p)\<lparr>phase := in_phase bs'\<rparr>)"
    using Suc.prems(1) by (simp add: ata_get_def bs in_phase_def)
  have w: "le16 w = [b0, b1]" using get_word [OF dr] by (simp add: q get le16_of_le16)
  have view: "view q = (view p)\<lparr>phase := in_phase bs'\<rparr>" using get_view [OF dr] by (simp add: q get)
  have len: "length bs' = 512 * k + 2 * n" using Suc.prems(2) by (simp add: bs)
  have "data_request q" if "0 < n"
  proof -
    have "length bs' mod 512 = 2 * n" using len that Suc.prems(3) by (simp add: mod_mult_self4)
    then have "mid_sector (view q)" using that by (auto simp: view mid_sector_def in_phase_def)
    then show ?thesis using get_keeps [OF dr] by (simp add: q)
  qed
  from Suc.IH [OF _ len _ this] Suc.prems(3) obtain p' where
    "read_words io n q = (take (2 * n) bs', p')" "view p' = (view q)\<lparr>phase := in_phase (drop (2 * n) bs')\<rparr>"
    by (auto simp: view)
  then show ?case by (simp add: q w view bs)
qed simp

lemma read_sectors:
  "phase (view p) = in_phase bs \<Longrightarrow> length bs = 512 * k \<Longrightarrow>
   \<exists>p'. ata_read_from io k p = Some (bs, p') \<and> view p' = (view p)\<lparr>phase := Idle\<rparr>"
proof (induction k arbitrary: p bs)
  case 0
  then have "view p = (view p)\<lparr>phase := Idle\<rparr>" by (simp add: in_phase_def)
  with 0 show ?case by simp
next
  case (Suc k)
  then have "phase (view p) \<noteq> Idle" by (auto simp: in_phase_def)
  from both_waits [OF this] obtain p1 p2 where
    w: "ATA_busy_wait io p = Some p1" "ATA_DRQ_wait io p1 = Some p2" "view p2 = view p" "data_request p2" by blast
  have "\<exists>p3. read_words io 256 p2 = (take (2 * 256) bs, p3) \<and> view p3 = (view p2)\<lparr>phase := in_phase (drop (2 * 256) bs)\<rparr>"
    by (rule read_sector [where k = k]) (use Suc.prems w in simp_all)
  then obtain p3 where p3: "read_words io 256 p2 = (take 512 bs, p3)" "view p3 = (view p)\<lparr>phase := in_phase (drop 512 bs)\<rparr>"
    by (auto simp: w(3))
  have "\<exists>p'. ata_read_from io k p3 = Some (drop 512 bs, p') \<and> view p' = (view p3)\<lparr>phase := Idle\<rparr>"
    by (rule Suc.IH) (use Suc.prems p3 in simp_all)
  with w p3 show ?case by (auto simp: HALF_BLOCK_SIZE_def BLOCK_SIZE_def)
qed

lemma write_sector:
  "phase (view p) = Data_Out l (Suc n) acc \<Longrightarrow> 0 < j \<Longrightarrow> length acc + 2 * j = 512 \<Longrightarrow> data_request p \<Longrightarrow> 2 * j \<le> length bs \<Longrightarrow>
   view (write_words io bs j p)
     = (view p)\<lparr>sectors := (sectors (view p))(l := acc @ take (2 * j) bs), phase := out_phase (Suc l) n []\<rparr>"
proof (induction j arbitrary: p bs acc)
  case (Suc j)
  from Suc.prems(5) obtain b0 b1 bs' where bs: "bs = b0 # b1 # bs'"
    by (cases bs; cases "tl bs") auto
  have w: "le16 (of_le16 bs) = [b0, b1]" using le16_of_le16 [of "[b0, b1]"] by (simp add: of_le16_def bs)
  let ?q = "out16_op io 0x1F0 (of_le16 bs) p"
  have put: "view ?q = ata_put (of_le16 bs) (view p)" using put_view [OF Suc.prems(4)] .
  show ?case
  proof (cases "j = 0")
    case True
    with Suc.prems put have "view ?q = (view p)\<lparr>sectors := (sectors (view p))(l := acc @ [b0, b1]), phase := out_phase (Suc l) n []\<rparr>"
      by (simp add: ata_put_def w)
    with True show ?thesis by (simp add: bs fun_upd_def)
  next
    case False
    have view: "view ?q = (view p)\<lparr>phase := Data_Out l (Suc n) (acc @ [b0, b1])\<rparr>"
      using Suc.prems False put by (simp add: ata_put_def w)
    then have "data_request ?q" using put_keeps [OF Suc.prems(4)] by (simp add: mid_sector_def)
    moreover have "length (acc @ [b0, b1]) + 2 * j = 512" "2 * j \<le> length bs'" using Suc.prems by (simp_all add: bs)
    ultimately have "view (write_words io bs' j ?q) = (view ?q)\<lparr>sectors := (sectors (view ?q))(l := (acc @ [b0, b1]) @ take (2 * j) bs'),
        phase := out_phase (Suc l) n []\<rparr>"
      using False view by (intro Suc.IH) simp_all
    then show ?thesis unfolding view by (simp add: bs fun_upd_def)
  qed
qed simp

lemma write_sectors:
  "phase (view p) = out_phase (l + i) k [] \<Longrightarrow> length bs = 512 * (i + k) \<Longrightarrow>
   \<exists>p'. ata_write_from io bs i k p = Some p' \<and> phase (view p') = Idle
     \<and> (\<forall>j. sectors (view p') j = (if l + i \<le> j \<and> j < l + i + k then take 512 (drop (512 * (j - l)) bs) else sectors (view p) j))"
proof (induction k arbitrary: p i)
  case 0
  then show ?case by (auto simp: out_phase_def)
next
  case (Suc k)
  then have ph: "phase (view p) = Data_Out (l + i) (Suc k) []" by (simp add: out_phase_def)
  then have "phase (view p) \<noteq> Idle" by simp
  from both_waits [OF this] obtain p1 p2 where
    w: "ATA_busy_wait io p = Some p1" "ATA_DRQ_wait io p1 = Some p2" "view p2 = view p" "data_request p2" by blast
  let ?p = "write_words io (drop (512 * i) bs) 256 p2"
  have view: "view ?p = (view p2)\<lparr>sectors := (sectors (view p2))(l + i := [] @ take (2 * 256) (drop (512 * i) bs)),
      phase := out_phase (Suc (l + i)) k []\<rparr>"
    by (rule write_sector) (use ph w Suc.prems(2) in simp_all)
  then have "phase (view ?p) = out_phase (l + Suc i) k []" by simp
  moreover have "length bs = 512 * (Suc i + k)" using Suc.prems(2) by simp
  ultimately obtain p' where run: "ata_write_from io bs (Suc i) k ?p = Some p'" "phase (view p') = Idle"
    and sec: "\<And>j. sectors (view p') j = (if l + Suc i \<le> j \<and> j < l + Suc i + k then take 512 (drop (512 * (j - l)) bs) else sectors (view ?p) j)"
    using Suc.IH by blast
  have "sectors (view p') j = (if l + i \<le> j \<and> j < l + i + Suc k then take 512 (drop (512 * (j - l)) bs) else sectors (view p) j)" for j
    using sec [of j] by (cases "j = l + i") (auto simp: view w(3))
  then show ?case
    using w run Suc.prems(2) by (auto simp: HALF_BLOCK_SIZE_def BLOCK_SIZE_def)
qed

text \<open>The registers after the six port writes name the block and the count.\<close>

lemma command_view:
  assumes "phase (view p) = Idle" and "unat lba < 2 ^ 28" and "n \<noteq> 0"
  shows "\<exists>a. view (ata_command io lba n command p) = ata_out 0x1F7 command a \<and> lba_of a = unat lba \<and> requested a = unat n
    \<and> sectors a = sectors (view p)"
proof -
  let ?a = "(view p)\<lparr>sel := 0xE0 OR ucast (drop_bit 24 lba AND 0xF), count := n, lba_lo := ucast lba,
    lba_mid := ucast (drop_bit 8 lba), lba_hi := ucast (drop_bit 16 lba)\<rparr>"
  have "view (ata_command io lba n command p) = ata_out 0x1F7 command ?a"
    using assms(1) by (simp add: ata_command_def Let_def out_view ata_out_def)
  moreover have "lba_of ?a = unat lba" using assms(2) by (simp add: lba_of_def drive_nibble lba_bytes)
  moreover have "requested ?a = unat n" using assms(3) by (simp add: requested_def)
  ultimately show ?thesis by (intro exI [of _ ?a]) simp
qed

lemma read_run:
  assumes "disk_ready (view p)" and "n \<noteq> 0" and "unat lba + unat n \<le> DISK_BLOCKS"
  shows "\<exists>p'. ata_read_blocks io lba n p = Some (concat (map (sectors (view p)) [unat lba..<unat lba + unat n]), p')
    \<and> disk_ready (view p') \<and> sectors (view p') = sectors (view p)"
proof -
  let ?bs = "concat (map (sectors (view p)) [unat lba..<unat lba + unat n])"
  have idle: "phase (view p) = Idle" and len: "\<And>i. i < DISK_BLOCKS \<Longrightarrow> length (sectors (view p) i) = 512"
    using assms(1) by (simp_all add: disk_ready_def)
  have small: "unat lba < 2 ^ 28" using assms(3) by (simp add: DISK_BLOCKS_def)
  from busy_wait [of p] obtain q where q: "ATA_busy_wait io p = Some q" "view q = view p" by blast
  from command_view [of q lba n "0x20"] idle q(2) small assms(2) obtain a where
    a: "view (ata_command io lba n 0x20 q) = ata_out 0x1F7 0x20 a" "lba_of a = unat lba" "requested a = unat n"
      "sectors a = sectors (view p)" by auto
  have "length ?bs = 512 * length [unat lba..<unat lba + unat n]"
    by (rule length_concat_const) (use len assms(3) in auto)
  then have "length ?bs = 512 * unat n" by simp
  moreover have ph: "phase (view (ata_command io lba n 0x20 q)) = in_phase ?bs" by (simp add: a ata_out_def)
  ultimately obtain p' where
    p': "ata_read_from io (unat n) (ata_command io lba n 0x20 q) = Some (?bs, p')"
      "view p' = (view (ata_command io lba n 0x20 q))\<lparr>phase := Idle\<rparr>"
    using read_sectors by blast
  then have "sectors (view p') = sectors (view p)" "phase (view p') = Idle" by (simp_all add: a ata_out_def)
  with q p' len show ?thesis by (auto simp: ata_read_blocks_def disk_ready_def)
qed

lemma write_run:
  assumes "disk_ready (view p)" and "n \<noteq> 0" and "unat lba + unat n \<le> DISK_BLOCKS" and "length bs = 512 * unat n"
  shows "\<exists>p'. ata_write_blocks io bs lba n p = Some p' \<and> disk_ready (view p')
    \<and> (\<forall>i. sectors (view p') i =
         (if unat lba \<le> i \<and> i < unat lba + unat n then take 512 (drop (512 * (i - unat lba)) bs) else sectors (view p) i))"
proof -
  have idle: "phase (view p) = Idle" and len: "\<And>i. i < DISK_BLOCKS \<Longrightarrow> length (sectors (view p) i) = 512"
    using assms(1) by (simp_all add: disk_ready_def)
  have small: "unat lba < 2 ^ 28" using assms(3) by (simp add: DISK_BLOCKS_def)
  from busy_wait [of p] obtain q where q: "ATA_busy_wait io p = Some q" "view q = view p" by blast
  from command_view [of q lba n "0x30"] idle q(2) small assms(2) obtain a where
    a: "view (ata_command io lba n 0x30 q) = ata_out 0x1F7 0x30 a" "lba_of a = unat lba" "requested a = unat n"
      "sectors a = sectors (view p)" by auto
  have "phase (view (ata_command io lba n 0x30 q)) = out_phase (unat lba + 0) (unat n) []"
    and sec: "sectors (view (ata_command io lba n 0x30 q)) = sectors (view p)" by (simp_all add: a ata_out_def)
  from write_sectors [OF this(1), of bs] assms(4) obtain p' where
    p': "ata_write_from io bs 0 (unat n) (ata_command io lba n 0x30 q) = Some p'" "phase (view p') = Idle"
      "\<And>j. sectors (view p') j = (if unat lba \<le> j \<and> j < unat lba + unat n then take 512 (drop (512 * (j - unat lba)) bs)
         else sectors (view p) j)" by (auto simp: sec)
  have "length (sectors (view p') i) = 512" if "i < DISK_BLOCKS" for i
  proof (cases "unat lba \<le> i \<and> i < unat lba + unat n")
    case True
    then have "512 * (i - unat lba) + 512 \<le> length bs" using assms(4) by linarith
    with True show ?thesis by (simp add: p'(3))
  next
    case False
    with len [OF that] show ?thesis by (simp only: p'(3) if_False)
  qed
  with q p' show ?thesis by (simp add: ata_write_blocks_def disk_ready_def)
qed

end

text \<open>The driver provides the block interface on every such disk.\<close>

sublocale ata_disk \<subseteq> drive: block_device "ata_ops io" "\<lambda>p. sectors (view p)" "\<lambda>p. disk_ready (view p)"
proof
  fix d i assume "disk_ready (view d)" and "i < DISK_BLOCKS"
  then show "length (sectors (view d) i) = 512" by (simp add: disk_ready_def)
next
  fix d :: 'p and lba :: u32 and n :: u8
  assume "disk_ready (view d)" and "n \<noteq> 0" and "unat lba + unat n \<le> DISK_BLOCKS"
  from read_run [OF this] show "\<exists>d'. read_blocks_op (ata_ops io) lba n d
      = Some (concat (map (sectors (view d)) [unat lba..<unat lba + unat n]), d')
    \<and> disk_ready (view d') \<and> (\<forall>i<DISK_BLOCKS. sectors (view d') i = sectors (view d) i)" by (auto simp: ata_ops_def)
next
  fix d :: 'p and lba :: u32 and n :: u8 and bs :: "u8 list"
  assume "disk_ready (view d)" and "n \<noteq> 0" and "unat lba + unat n \<le> DISK_BLOCKS" and "length bs = 512 * unat n"
  from write_run [OF this] show "\<exists>d'. write_blocks_op (ata_ops io) bs lba n d = Some d' \<and> disk_ready (view d')
    \<and> (\<forall>i<DISK_BLOCKS. sectors (view d') i =
         (if unat lba \<le> i \<and> i < unat lba + unat n then take 512 (drop (512 * (i - unat lba)) bs) else sectors (view d) i))"
    by (auto simp: ata_ops_def)
qed

context ata_disk
begin

lemma provides_blocks: "block_device (ata_ops io) (\<lambda>p. sectors (view p)) (\<lambda>p. disk_ready (view p))"
  by (rule drive.block_device_axioms)

end

section \<open>A disk with the contract\<close>

text \<open>
  The documented disk with an answer time: busy for two status reads after each command and each
  sector. It shows that the contract can be met and serves the examples.
\<close>

record slow_disk =
  drive_state :: ata
  busy :: nat

definition slow_io :: "slow_disk port_ops" where
  "slow_io = \<lparr>
     out_op = (\<lambda>port b s. s\<lparr>drive_state := ata_out port b (drive_state s), busy := (if port = 0x1F7 then 2 else busy s)\<rparr>),
     in_op = (\<lambda>port s. if busy s = 0 then (0x50, s) else (0x80, s\<lparr>busy := busy s - 1\<rparr>)),
     out16_op = (\<lambda>port w s. let a = ata_put w (drive_state s) in s\<lparr>drive_state := a, busy := (if mid_sector a then busy s else 2)\<rparr>),
     in16_op = (\<lambda>port s. let (w, a) = ata_get (drive_state s) in (w, s\<lparr>drive_state := a, busy := (if mid_sector a then busy s else 2)\<rparr>))\<rparr>"

interpretation slow: ata_disk slow_io drive_state "\<lambda>s. busy s = 0" busy
  by standard (auto simp: slow_io_def Let_def split: prod.splits if_splits)

section \<open>Properties\<close>

text \<open>
  C11. On any ATA disk, \<open>read_blocks\<close> of the kernel returns (both polling loops end) with exactly the
  bytes of the requested sectors in order, and leaves the disk ready and unchanged.
\<close>

theorem ata_read_correct:
  assumes "ata_disk io view data_request patience" and "disk_ready (view p)"
    and "n \<noteq> 0" and "unat lba + unat n \<le> DISK_BLOCKS"
  shows "\<exists>p'. ata_read_blocks io lba n p = Some (concat (map (sectors (view p)) [unat lba..<unat lba + unat n]), p')
    \<and> disk_ready (view p') \<and> sectors (view p') = sectors (view p)"
  using ata_disk.read_run [OF assms] .

lemma slow_ready: "disk_ready (drive_state \<lparr>drive_state = \<lparr>sel = 0, count = 0, lba_lo = 0, lba_mid = 0, lba_hi = 0,
    sectors = (\<lambda>i. replicate 512 (of_nat i)), phase = Idle\<rparr>, busy = 7\<rparr>)"
  by (simp add: disk_ready_def)

theorem ata_read_correct_witness:
  "\<exists>p'. ata_read_blocks slow_io 8190 2 \<lparr>drive_state = \<lparr>sel = 0, count = 0, lba_lo = 0, lba_mid = 0, lba_hi = 0,
      sectors = (\<lambda>i. replicate 512 (of_nat i)), phase = Idle\<rparr>, busy = 7\<rparr>
    = Some (replicate 512 0xFE @ replicate 512 0xFF, p')"
  using ata_read_correct [OF slow.ata_disk_axioms slow_ready, of 2 8190]
  by (auto simp: DISK_BLOCKS_def upt_rec)

text \<open>
  C21. On any ATA disk, \<open>write_blocks\<close> of the kernel returns and replaces exactly the requested sectors
  by the consecutive 512-byte pieces of the buffer.
\<close>

theorem ata_write_correct:
  assumes "ata_disk io view data_request patience" and "disk_ready (view p)"
    and "n \<noteq> 0" and "unat lba + unat n \<le> DISK_BLOCKS" and "length bs = 512 * unat n"
  shows "\<exists>p'. ata_write_blocks io bs lba n p = Some p' \<and> disk_ready (view p')
    \<and> (\<forall>i. sectors (view p') i =
         (if unat lba \<le> i \<and> i < unat lba + unat n then take 512 (drop (512 * (i - unat lba)) bs) else sectors (view p) i))"
  using ata_disk.write_run [OF assms] .

theorem ata_write_correct_witness:
  "\<exists>p'. ata_write_blocks slow_io (replicate 512 7) 17 1 \<lparr>drive_state = \<lparr>sel = 0, count = 0, lba_lo = 0, lba_mid = 0, lba_hi = 0,
      sectors = (\<lambda>i. replicate 512 (of_nat i)), phase = Idle\<rparr>, busy = 7\<rparr> = Some p'
    \<and> sectors (drive_state p') 17 = replicate 512 7 \<and> sectors (drive_state p') 18 = replicate 512 18"
proof -
  have "unat (17 :: u32) + unat (1 :: u8) \<le> DISK_BLOCKS" "length (replicate 512 (7 :: u8)) = 512 * unat (1 :: u8)"
    by (simp_all add: DISK_BLOCKS_def)
  from ata_write_correct [OF slow.ata_disk_axioms slow_ready one_neq_zero this] show ?thesis by fastforce
qed

end
