(* ===== verification/Kernel_System.thy ===== *)
theory Kernel_System imports Syscall Ata Fat_Operations begin

text \<open>
  The kernel on a machine: the file system on the ATA driver, the keyboard behind the same ports and the
  text output; the invariant of its state, and what one interrupt or one system call does to it.
\<close>

section \<open>The machine\<close>

text \<open>
  A machine has an ATA disk behind its ports, and the other byte ports (interrupt controllers, keyboard,
  display) do not touch it.
\<close>

locale machine = ata_disk +
  assumes other_in: "port < 0x1F0 \<Longrightarrow> view (snd (in_op io port p)) = view p"
    and other_out: "port < 0x1F0 \<or> port = 0x3D4 \<or> port = 0x3D5 \<Longrightarrow> view (out_op io port b p) = view p"
begin

lemma interrupt_view: "view (dev (storage (interrupt io frame k))) = view (dev (storage k))"
proof -
  have "view (snd (keyboard_isr io (keyboard k, p))) = view p" for p
    by (cases "keyboard_input_on (keyboard k)") (simp_all add: keyboard_isr_on keyboard_isr_off other_in other_out)
  then show ?thesis by (simp add: interrupt_def handler_cases Let_def split: prod.split) (metis snd_conv)
qed

end

interpretation slow_machine: machine slow_io drive_state "\<lambda>s. busy s = 0" busy
proof (rule machine.intro [OF slow.ata_disk_axioms], rule machine_axioms.intro)
  fix port :: u16 and s
  show "drive_state (snd (in_op slow_io port s)) = drive_state s" by (simp add: slow_io_def)
next
  fix port :: u16 and b s assume "port < 0x1F0 \<or> port = 0x3D4 \<or> port = 0x3D5"
  then have "port \<noteq> 0x1F2 \<and> port \<noteq> 0x1F3 \<and> port \<noteq> 0x1F4 \<and> port \<noteq> 0x1F5 \<and> port \<noteq> 0x1F6 \<and> port \<noteq> 0x1F7" by auto
  then show "drive_state (out_op slow_io port b s) = drive_state s" by (simp add: slow_io_def ata_out_def)
qed

section \<open>System calls and interrupts on a well-formed kernel\<close>

abbreviation kernel_disk :: "('p \<Rightarrow> ata) \<Rightarrow> 'p kernel_state \<Rightarrow> nat \<Rightarrow> u8 list" where
  "kernel_disk view k \<equiv> cluster_of (sectors (view (dev (storage k))))"

abbreviation call_number :: "InterruptFrame \<Rightarrow> u32" where
  "call_number frame \<equiv> eax (general (cpu frame))"

abbreviation call_request :: "InterruptFrame \<Rightarrow> 'p kernel_state \<Rightarrow> FAT32DriverRequest" where
  "call_request frame k \<equiv> decode_request (kernel_mem k) (ebx (general (cpu frame)))"

text \<open>The state of the drivers when the kernel starts.\<close>

definition keyboard_at_start :: KeyboardDriverState where
  "keyboard_at_start = \<lparr>read_extended_mode = False, keyboard_input_on = False, keyboard_buffer = 0\<rparr>"

definition screen_at_start :: terminal where
  "screen_at_start = \<lparr>term_x = 0, term_y = 0\<rparr>"

text \<open>
  A file call is allowed when it names a directory of the tree, and a \<open>write\<close> when it is a good one
  (see \<open>Fat_Tree\<close>); all other calls are always allowed.
\<close>

definition allowed :: "('p \<Rightarrow> ata) \<Rightarrow> InterruptFrame \<Rightarrow> 'p kernel_state \<Rightarrow> nat set \<Rightarrow> bool" where
  "allowed view frame k S \<longleftrightarrow>
     (call_number frame < 4 \<longrightarrow> unat (parent_cluster_number (call_request frame k)) \<in> S)
     \<and> (call_number frame = 2 \<longrightarrow> good_write (call_request frame k) (kernel_disk view k) (kernel_mem k))"

text \<open>The return code of a file call and the directories after it.\<close>

definition call_result :: "('p \<Rightarrow> ata) \<Rightarrow> InterruptFrame \<Rightarrow> 'p kernel_state \<Rightarrow> int" where
  "call_result view frame k =
     (let r = call_request frame k; D = kernel_disk view k; t = parent_table D r in
      if call_number frame = 0 then read_code r t
      else if call_number frame = 1 then (if buffer_size r = of_nat CLUSTER_SIZE then read_directory_code r t else -1)
      else if call_number frame = 2 then write_code r (fat_table (storage k)) t
      else delete_code r D t)"

definition call_dirs :: "('p \<Rightarrow> ata) \<Rightarrow> InterruptFrame \<Rightarrow> 'p kernel_state \<Rightarrow> nat set \<Rightarrow> nat set" where
  "call_dirs view frame k S =
     (if call_number frame = 2 \<and> call_result view frame k = 0 then grown (call_request frame k) (fat_table (storage k)) S
      else if call_number frame = 3 \<and> call_result view frame k = 0 then S - {deleted_head (call_request frame k) (kernel_disk view k)}
      else S)"

text \<open>The invariant.\<close>

definition kernel_ok :: "('p \<Rightarrow> ata) \<Rightarrow> 'p kernel_state \<Rightarrow> nat set \<Rightarrow> bool" where
  "kernel_ok view k S \<longleftrightarrow> disk_ready (view (dev (storage k))) \<and> tree_ok (fat_table (storage k)) (kernel_disk view k) S
     \<and> on_screen (screen k)"

context machine
begin

lemma interrupt_ok: "kernel_ok view k S \<Longrightarrow> kernel_ok view (interrupt io frame k) S"
  using interrupt_view [of frame k] by (simp add: kernel_ok_def) (simp add: interrupt_def Let_def split: prod.split)

text \<open>A file call: the operation returns, its code is stored and the invariant carries over.\<close>

lemma file_call_ok:
  assumes run: "operation (call_request frame k) (storage k) = Some (c, s')"
    and out: "disk_ready (view (dev s'))" "tree_ok (fat_table s') (cluster_of (sectors (view (dev s')))) S'"
    and k: "kernel_ok view k S"
  shows "\<exists>k'. file_call operation (general (cpu frame)) k = Some k' \<and> kernel_ok view k' S'
    \<and> kernel_mem k' (ecx (general (cpu frame))) = of_int c \<and> keyboard k' = keyboard k \<and> screen k' = screen k"
  using assms by (simp add: file_call_def kernel_ok_def)

lemma file_number:
  assumes "(n :: u32) < 4"
  shows "n \<in> {0, 1, 2, 3}"
proof -
  have "unat n < 4" using assms by (simp add: word_less_nat_alt)
  then have "unat n = unat (0 :: u32) \<or> unat n = unat (1 :: u32) \<or> unat n = unat (2 :: u32) \<or> unat n = unat (3 :: u32)" by auto
  then show ?thesis by (simp only: word_unat_eq_iff insert_iff empty_iff simp_thms)
qed

lemma call_returns:
  assumes k: "kernel_ok view k S" and a: "allowed view frame k S"
  shows "\<exists>k'. syscall (ata_ops io) frame k = Some k' \<and> kernel_ok view k' (call_dirs view frame k S)
    \<and> (call_number frame < 4 \<longrightarrow> kernel_mem k' (ecx (general (cpu frame))) = of_int (call_result view frame k))"
proof -
  let ?r = "call_request frame k" and ?s = "storage k" and ?n = "call_number frame"
  note v = k [unfolded kernel_ok_def, THEN conjunct1]
  note tree = k [unfolded kernel_ok_def, THEN conjunct2, THEN conjunct1]
  have p: "unat (parent_cluster_number ?r) \<in> S" if "?n < 4" using a that by (simp add: allowed_def)
  consider "?n = 0" | "?n = 1" | "?n = 2" | "?n = 3" | "?n = 4" | "?n = 5" | "?n = 6" | "?n \<notin> {0, 1, 2, 3, 4, 5, 6}" "\<not> ?n < 4"
    using file_number by blast
  then show ?thesis
  proof cases
    case 1
    then have "unat (parent_cluster_number ?r) \<in> S" by (intro p) simp
    from drive.tree_read [OF v tree this decode_request_ok] obtain s' where
      s': "read_fat32 (ata_ops io) ?r ?s = Some (read_code ?r (parent_table (kernel_disk view k) ?r), s')"
        "disk_ready (view (dev s'))" "tree_ok (fat_table s') (cluster_of (sectors (view (dev s')))) S"
      using tree_ok_cong [OF tree] by auto
    from file_call_ok [where operation = "read_fat32 (ata_ops io)" and frame = frame and k = k, OF s' k] 1 show ?thesis by (auto simp: syscall_def call_dirs_def call_result_def Let_def)
  next
    case 2
    then have "unat (parent_cluster_number ?r) \<in> S" by (intro p) simp
    from drive.tree_read_directory [OF v tree this decode_request_ok] 2 obtain s' where
      s': "read_directory (ata_ops io) ?r ?s = Some (call_result view frame k, s')"
        "disk_ready (view (dev s'))" "tree_ok (fat_table s') (cluster_of (sectors (view (dev s')))) S"
      using tree_ok_cong [OF tree] by (auto simp: call_result_def Let_def)
    from file_call_ok [where operation = "read_directory (ata_ops io)" and frame = frame and k = k, OF s' k] 2 show ?thesis by (auto simp: syscall_def call_dirs_def Let_def)
  next
    case 3
    then have pin: "unat (parent_cluster_number ?r) \<in> S" by (intro p) simp
    have good: "good_write ?r (kernel_disk view k) (kernel_mem k)" using a 3 by (simp add: allowed_def)
    from 3 have res: "call_result view frame k = write_code ?r (fat_table ?s) (parent_table (kernel_disk view k) ?r)"
      "call_dirs view frame k S = (if call_result view frame k = 0 then grown ?r (fat_table ?s) S else S)"
      by (simp_all add: call_result_def call_dirs_def Let_def)
    from drive.tree_write [OF v tree pin decode_request_ok good, folded res(1), folded res(2)] obtain s' where
      s': "write_fat32 (ata_ops io) ?r ?s = Some (call_result view frame k, s')"
        "disk_ready (view (dev s'))" "tree_ok (fat_table s') (cluster_of (sectors (view (dev s')))) (call_dirs view frame k S)"
      by blast
    from file_call_ok [where operation = "write_fat32 (ata_ops io)" and frame = frame and k = k, OF s' k] 3 show ?thesis by (auto simp: syscall_def Let_def)
  next
    case 4
    then have pin: "unat (parent_cluster_number ?r) \<in> S" by (intro p) simp
    from 4 have res: "call_result view frame k = delete_code ?r (kernel_disk view k) (parent_table (kernel_disk view k) ?r)"
      "call_dirs view frame k S = (if call_result view frame k = 0 then S - {deleted_head ?r (kernel_disk view k)} else S)"
      by (simp_all add: call_result_def call_dirs_def Let_def)
    from drive.tree_delete [OF v tree pin decode_request_ok, folded res(1), folded res(2)] obtain s' where
      s': "delete_fat32 (ata_ops io) ?r ?s = Some (call_result view frame k, s')"
        "disk_ready (view (dev s'))" "tree_ok (fat_table s') (cluster_of (sectors (view (dev s')))) (call_dirs view frame k S)"
      by blast
    from file_call_ok [where operation = "delete_fat32 (ata_ops io)" and frame = frame and k = k, OF s' k] 4 show ?thesis by (auto simp: syscall_def Let_def)
  next
    case 5
    with k show ?thesis by (auto simp: syscall_def call_dirs_def kernel_ok_def with_mem_def Let_def split: prod.split)
  next
    case 6
    with k show ?thesis
      using putc_position [of "screen k" "ucast (ebx (general (cpu frame)))" "ecx (general (cpu frame))" "kernel_mem k"]
      by (auto simp: syscall_def call_dirs_def kernel_ok_def with_mem_def Let_def split: prod.split)
  next
    case 7
    with k show ?thesis
      using puts_on_screen [of "screen k" "ebx (general (cpu frame))" "ecx (general (cpu frame))" "edx (general (cpu frame))" "kernel_mem k"]
      by (auto simp: syscall_def call_dirs_def kernel_ok_def with_mem_def Let_def split: prod.split)
  next
    case 8
    with k show ?thesis by (auto simp: syscall_def call_dirs_def kernel_ok_def Let_def)
  qed
qed

end

text \<open>A disk of zeros.\<close>

definition zero_disk :: slow_disk where
  "zero_disk = \<lparr>drive_state = \<lparr>sel = 0, count = 0, lba_lo = 0, lba_mid = 0, lba_hi = 0,
     sectors = (\<lambda>_. replicate 512 0), phase = Idle\<rparr>, busy = 0\<rparr>"

end
