(* ===== verification/Framebuffer.thy ===== *)
theory Framebuffer imports Text_Screen Port_IO begin

text \<open>
  The framebuffer driver, \<open>src/ch1/framebuffer\<close>: the cells of the text screen in memory and the
  cursor of the display controller behind two ports.
\<close>

definition FRAMEBUFFER_MEMORY_OFFSET :: u32 where "FRAMEBUFFER_MEMORY_OFFSET = 0xC00B8000"
definition CURSOR_PORT_CMD :: u16 where [kernel_defs]: "CURSOR_PORT_CMD = 0x03D4"
definition CURSOR_PORT_DATA :: u16 where [kernel_defs]: "CURSOR_PORT_DATA = 0x03D5"
definition FRAMEBUFFER_HEIGHT :: nat where [kernel_defs]: "FRAMEBUFFER_HEIGHT = 25"
definition FRAMEBUFFER_WIDTH :: nat where [kernel_defs]: "FRAMEBUFFER_WIDTH = 80"

definition framebuffer_set_cursor :: "'p port_ops \<Rightarrow> u8 \<Rightarrow> u8 \<Rightarrow> 'p \<Rightarrow> 'p" where
  "framebuffer_set_cursor io r c p =
     (let position = of_nat (unat r * FRAMEBUFFER_WIDTH + unat c) :: u16;
          p = out_op io CURSOR_PORT_CMD 0x0F p;
          p = out_op io CURSOR_PORT_DATA (ucast (position AND 0xFF)) p;
          p = out_op io CURSOR_PORT_CMD 0x0E p
      in out_op io CURSOR_PORT_DATA (ucast (drop_bit 8 position AND 0xFF)) p)"

definition framebuffer_write :: "u8 \<Rightarrow> u8 \<Rightarrow> u8 \<Rightarrow> u8 \<Rightarrow> u8 \<Rightarrow> memory \<Rightarrow> memory" where
  "framebuffer_write row col c fg bg m =
     (if FRAMEBUFFER_HEIGHT \<le> unat row \<or> FRAMEBUFFER_WIDTH \<le> unat col then m
      else let index = of_nat ((unat row * FRAMEBUFFER_WIDTH + unat col) * 2) :: u16;
               m = m(FRAMEBUFFER_MEMORY_OFFSET + ucast index := c)
           in m(FRAMEBUFFER_MEMORY_OFFSET + ucast index + 1 := (push_bit 4 bg AND 0xF0) OR (fg AND 0x0F)))"

definition framebuffer_clear :: "memory \<Rightarrow> memory" where
  "framebuffer_clear = fold (\<lambda>i. fold (\<lambda>j. framebuffer_write (of_nat i) (of_nat j) 32 0x07 0x00)
     [0..<FRAMEBUFFER_WIDTH]) [0..<FRAMEBUFFER_HEIGHT]"

section \<open>The screen\<close>

definition colours :: "u8 \<Rightarrow> u8 \<Rightarrow> u8" where
  "colours fg bg = (push_bit 4 bg AND 0xF0) OR (fg AND 0x0F)"

lemma low_nibble: "(0x0F :: u8) = mask 4" and high_nibble: "(0xF0 :: u8) = push_bit 4 (mask 4)"
  by (simp_all add: mask_eq_exp_minus_1 push_bit_eq_mult)

lemma colours_read:
  "colours fg bg AND 0x0F = fg AND 0x0F" "drop_bit 4 (colours fg bg) = bg AND 0x0F"
  by (rule bit_word_eqI; auto simp: colours_def low_nibble high_nibble bit_simps)+

lemma colours_split: "colours at (drop_bit 4 at) = at"
  by (rule bit_word_eqI) (auto simp: colours_def low_nibble high_nibble bit_simps)

lemma framebuffer_write_out:
  "25 \<le> unat row \<or> 80 \<le> unat col \<Longrightarrow> framebuffer_write row col c fg bg m = m"
  by (simp add: framebuffer_write_def kernel_defs)

lemma framebuffer_write_in:
  assumes "unat row < 25" and "unat col < 80"
  shows "framebuffer_write row col c fg bg m =
    mem_write m (FRAMEBUFFER_MEMORY_OFFSET + of_nat (2 * (80 * unat row + unat col))) [c, colours fg bg]"
proof -
  let ?i = "(unat row * 80 + unat col) * 2"
  have i: "?i < 4000" using assms by presburger
  have "unat (of_nat ?i :: u16) = ?i" using i by (simp only: unat_of_nat) (simp add: take_bit_nat_eq_self)
  then have cast: "(ucast (of_nat ?i :: u16) :: u32) = of_nat ?i" by (metis of_nat_unat)
  have eq: "(unat row * 80 + unat col) * 2 = 2 * (80 * unat row + unat col)" by simp
  have "mem_write m (FRAMEBUFFER_MEMORY_OFFSET + of_nat ?i) [c, colours fg bg]
      = mem_write (mem_write m (FRAMEBUFFER_MEMORY_OFFSET + of_nat ?i) [c])
          (FRAMEBUFFER_MEMORY_OFFSET + of_nat ?i + of_nat (length [c])) [colours fg bg]"
    by (subst mem_write_append) simp_all
  then have w: "mem_write m (FRAMEBUFFER_MEMORY_OFFSET + of_nat ?i) [c, colours fg bg]
      = m(FRAMEBUFFER_MEMORY_OFFSET + of_nat ?i := c, FRAMEBUFFER_MEMORY_OFFSET + of_nat ?i + 1 := colours fg bg)"
    by (simp only: mem_write_single) simp
  have "\<not> (25 \<le> unat row \<or> 80 \<le> unat col)" using assms by simp
  then show ?thesis
    unfolding framebuffer_write_def FRAMEBUFFER_HEIGHT_def FRAMEBUFFER_WIDTH_def Let_def cast
      eq [symmetric] w by (simp only: if_False colours_def)
qed

interpretation fb: text_screen FRAMEBUFFER_MEMORY_OFFSET
  "\<lambda>r c v. framebuffer_write (of_nat r) (of_nat c) (fst v) (snd v) (drop_bit 4 (snd v))"
proof
  fix r c :: nat and ch at m
  assume "r < 25" and "c < 80"
  then have "unat (of_nat r :: u8) = r" and "unat (of_nat c :: u8) = c"
    by (simp_all add: unat_of_nat take_bit_nat_eq_self)
  with \<open>r < 25\<close> \<open>c < 80\<close> show "framebuffer_write (of_nat r) (of_nat c) (fst (ch, at)) (snd (ch, at)) (drop_bit 4 (snd (ch, at))) m
      = mem_write m (FRAMEBUFFER_MEMORY_OFFSET + of_nat (2 * (80 * r + c))) [ch, at]"
    by (subst framebuffer_write_in) (simp_all add: colours_split)
qed

lemma two_bytes: "256 * unat (ucast (drop_bit 8 w AND 0xFF) :: u8) + unat (ucast (w AND 0xFF) :: u8) = unat (w :: u16)"
proof -
  have m: "(0xFF :: u16) = mask 8" by (simp add: mask_eq_exp_minus_1)
  have lo: "unat (ucast (v AND 0xFF) :: u8) = unat v mod 256" for v :: u16
    unfolding m take_bit_eq_mask [symmetric] by (simp add: unsigned_ucast_eq unsigned_take_bit_eq) (simp add: take_bit_eq_mod)
  have "unat w < 65536" using unsigned_less [of w, where ?'a = nat] by simp
  then have "unat (drop_bit 8 w) mod 256 = unat w div 256"
    unfolding unsigned_drop_bit_eq by (simp add: drop_bit_eq_div take_bit_nat_eq_self)
  then show ?thesis by (simp only: lo) simp
qed

section \<open>Properties\<close>

text \<open>
  C40. framebuffer_write changes exactly one cell of the screen, to the character with the foreground
  colour in the low and the background colour in the high half of its second byte; a position outside
  the 25 rows and 80 columns changes nothing, and no byte outside the 4000 bytes of the screen changes.
\<close>

theorem framebuffer_write_cell:
  assumes "q < 2000"
  shows "screen_cell FRAMEBUFFER_MEMORY_OFFSET (framebuffer_write row col c fg bg m) q =
      (if unat row < 25 \<and> unat col < 80 \<and> q = 80 * unat row + unat col
       then (c, colours fg bg) else screen_cell FRAMEBUFFER_MEMORY_OFFSET m q)
    \<and> same_outside FRAMEBUFFER_MEMORY_OFFSET m (framebuffer_write row col c fg bg m)
    \<and> colours fg bg AND 0x0F = fg AND 0x0F \<and> drop_bit 4 (colours fg bg) = bg AND 0x0F"
proof (cases "unat row < 25 \<and> unat col < 80")
  case True
  then have "80 * unat row + unat col < 2000" by linarith
  then show ?thesis
    using True assms by (simp only: framebuffer_write_in screen_cell_store same_outside_store colours_read) auto
next
  case False
  then show ?thesis by (auto simp: framebuffer_write_out colours_read)
qed

theorem framebuffer_write_cell_witness:
  "screen_cell FRAMEBUFFER_MEMORY_OFFSET (framebuffer_write 1 2 0x41 0x0F 0x01 (\<lambda>_. 0)) 82 = (0x41, colours 0x0F 0x01)
   \<and> colours 0x0F 0x01 AND 0x0F = 0x0F"
proof -
  have "(82 :: nat) < 2000" by simp
  from framebuffer_write_cell [OF this, where row = 1 and col = 2 and c = "0x41" and fg = "0x0F" and bg = "0x01" and m = "\<lambda>_. 0"] show ?thesis by simp
qed

text \<open>
  framebuffer_clear makes every cell of the screen a light grey space on black and changes no byte
  outside the screen.
\<close>

theorem framebuffer_clear_blank:
  "(\<forall>q\<in>{..<2000}. screen_cell FRAMEBUFFER_MEMORY_OFFSET (framebuffer_clear m) q = (32, 7))
   \<and> same_outside FRAMEBUFFER_MEMORY_OFFSET m (framebuffer_clear m)"
  using fb.fill_cells [of _ "(32, 7)" m] fb.fill_outside [of m "(32, 7)"]
  by (auto simp: framebuffer_clear_def FRAMEBUFFER_HEIGHT_def FRAMEBUFFER_WIDTH_def)

theorem framebuffer_clear_blank_witness:
  "screen_cell FRAMEBUFFER_MEMORY_OFFSET (framebuffer_clear (\<lambda>_. 0)) 1999 = (32, 7)"
  using framebuffer_clear_blank [of "\<lambda>_. 0"] by simp

text \<open>
  The cursor location register of the display controller: an index written to the command port selects
  the register the next byte of the data port goes to; registers 0x0E and 0x0F hold the location.
\<close>

fun cursor_registers :: "(u16 \<times> u8) list \<Rightarrow> u8 \<times> (u8 \<Rightarrow> u8) \<Rightarrow> u8 \<times> (u8 \<Rightarrow> u8)" where
  "cursor_registers [] r = r"
| "cursor_registers ((port, b) # es) (sel, regs) =
     (if port = 0x03D4 then cursor_registers es (b, regs)
      else if port = 0x03D5 then cursor_registers es (sel, regs(sel := b))
      else cursor_registers es (sel, regs))"

text \<open>
  framebuffer_set_cursor leaves row * 80 + column in the location register of the display
  controller, whatever the controller held, and changes no other register of it.
\<close>

theorem set_cursor_location:
  "\<exists>lo hi. snd (cursor_registers (sent (framebuffer_set_cursor log_ops r c \<lparr>queued = q, sent = []\<rparr>)) (sel, regs))
        = regs(0x0F := lo, 0x0E := hi)
     \<and> 256 * unat hi + unat lo = unat r * 80 + unat c"
proof -
  let ?p = "unat r * 80 + unat c" and ?w = "of_nat (unat r * 80 + unat c) :: u16"
  have "?p < 2 ^ 16" using unsigned_less [of r, where ?'a = nat] unsigned_less [of c, where ?'a = nat] by simp
  then have p: "unat ?w = ?p" by (simp only: unat_of_nat) (simp add: take_bit_nat_eq_self)
  have "256 * unat (ucast (drop_bit 8 ?w AND 0xFF) :: u8) + unat (ucast (?w AND 0xFF) :: u8) = unat ?w"
    by (rule two_bytes)
  then show ?thesis
    unfolding p
    by (intro exI [of _ "ucast (?w AND 0xFF)"] exI [of _ "ucast (drop_bit 8 ?w AND 0xFF)"] conjI)
      (simp_all add: framebuffer_set_cursor_def kernel_defs Let_def del: of_nat_add of_nat_mult)
qed

end
