(* ===== verification/Boot.thy ===== *)
theory Boot imports Kernel_System Fat_Example Framebuffer Page_Allocator Idt begin

text \<open>
  The boot sequence, \<open>kernel_setup\<close> of \<open>src/kernel.c\<close>, after the assembly entry point has removed the
  identity mapping: descriptor tables, interrupt controllers, screen, file system, the first user page
  and the files the kernel writes for itself.
\<close>

text \<open>
  What the linker, the stack and the memory contribute: the addresses of the interrupt stubs, of the
  TSS, of the buffer on the stack and of the two string literals, the base of the stack frame, the
  uninitialised bits of a flag variable, and the contents of the frame that becomes the user page.
\<close>

record boot_env =
  stubs :: "nat \<Rightarrow> u32"
  tss_address :: u32
  cbuf_address :: u32
  lol_address :: u32
  text_address :: u32
  frame_base :: u32
  flag_junk :: PageDirectoryEntryFlag
  user_page :: memory

record 'p boot_state =
  kern :: "'p kernel_state"
  gdt :: gdt_table
  gdt_loaded :: bool
  task_register :: u16
  idt :: idt_state
  page_dir :: page_directory
  frames :: PageManagerState
  tss :: TSSEntry

text \<open>\<open>loader_virtual\<close> of the entry point: entry 0 of the directory is overwritten by a zero word.\<close>

definition loader_virtual :: "page_directory \<Rightarrow> page_directory" where
  "loader_virtual dir = dir[0 := zero_pde]"

definition boot_start :: "'p fs_state \<Rightarrow> 'p boot_state" where
  "boot_start s = \<lparr>kern = \<lparr>storage = s, keyboard = keyboard_at_start, screen = screen_at_start\<rparr>,
     gdt = global_descriptor_table, gdt_loaded = False, task_register = 0, idt = idt_at_start,
     page_dir = loader_virtual paging_kernel_page_directory, frames = page_manager_state, tss = interrupt_tss_entry\<rparr>"

section \<open>The steps\<close>

definition on_storage :: "('p fs_state \<Rightarrow> 'p fs_state) \<Rightarrow> 'p boot_state \<Rightarrow> 'p boot_state" where
  "on_storage f b = b\<lparr>kern := (kern b)\<lparr>storage := f (storage (kern b))\<rparr>\<rparr>"

definition on_ports :: "('p \<Rightarrow> 'p) \<Rightarrow> 'p boot_state \<Rightarrow> 'p boot_state" where
  "on_ports f = on_storage (\<lambda>s. s\<lparr>dev := f (dev s)\<rparr>)"

definition on_memory :: "(memory \<Rightarrow> memory) \<Rightarrow> 'p boot_state \<Rightarrow> 'p boot_state" where
  "on_memory f = on_storage (\<lambda>s. s\<lparr>mem := f (mem s)\<rparr>)"

text \<open>A file operation whose return code the kernel ignores.\<close>

definition file_step :: "('p fs_state \<Rightarrow> (int \<times> 'p fs_state) option) \<Rightarrow> 'p boot_state \<Rightarrow> 'p boot_state option" where
  "file_step operation b = map_option (\<lambda>(c, s). on_storage (\<lambda>_. s) b) (operation (storage (kern b)))"

text \<open>After the allocation the page of address 0 reads as the frame it was mapped to.\<close>

definition allocate_first_page :: "boot_env \<Rightarrow> 'p boot_state \<Rightarrow> 'p boot_state" where
  "allocate_first_page env b =
     (let (ok, dir, st) = paging_allocate_user_page_frame (flag_junk env) (page_dir b) 0 (frames b);
          b = b\<lparr>page_dir := dir, frames := st\<rparr>
      in if ok then on_memory (\<lambda>m x. if page_index x = page_index 0 then user_page env x else m x) b else b)"

definition shell_request :: FAT32DriverRequest where
  "shell_request = \<lparr>buf = 0, req_name = ascii ''shell'' @ [0, 0, 0], req_ext = [0, 0, 0],
     parent_cluster_number = ROOT_CLUSTER_NUMBER, buffer_size = 0x100000\<rparr>"

definition kaikai_request :: "boot_env \<Rightarrow> FAT32DriverRequest" where
  "kaikai_request env = shell_request\<lparr>buf := cbuf_address env, req_name := ascii ''kaikai'' @ [0, 0],
     req_ext := ascii ''txt'', buffer_size := of_nat CLUSTER_SIZE\<rparr>"

definition lain_request :: "boot_env \<Rightarrow> FAT32DriverRequest" where
  "lain_request env = (kaikai_request env)\<lparr>req_name := ascii ''lain'' @ [0, 0, 0, 0]\<rparr>"

text \<open>Up to the formatted file system; then the user page and the files; then the stack for the TSS.\<close>

definition setup_devices :: "boot_env \<Rightarrow> 'p port_ops \<Rightarrow> 'p boot_state \<Rightarrow> 'p boot_state" where
  "setup_devices env io b =
     (let b = b\<lparr>gdt_loaded := True\<rparr>;
          b = on_ports (pic_remap io) b;
          b = b\<lparr>idt := initialize_idt (stubs env) (idt b)\<rparr>;
          b = on_ports (activate_keyboard_interrupt io) b;
          b = on_memory framebuffer_clear b
      in on_ports (framebuffer_set_cursor io 0 0) b)"

definition setup_files :: "boot_env \<Rightarrow> 'p port_ops \<Rightarrow> 'p boot_state \<Rightarrow> 'p boot_state option" where
  "setup_files env io b = do {
     b \<leftarrow> file_step (read_fat32 (ata_ops io) shell_request) b;
     let b = on_memory (\<lambda>m. memcpy m (cbuf_address env) (lol_address env) 132) b;
     b \<leftarrow> file_step (write_fat32 (ata_ops io) (kaikai_request env)) b;
     let b = on_memory (\<lambda>m. memcpy m (cbuf_address env) (text_address env) 20) b;
     file_step (write_fat32 (ata_ops io) (lain_request env)) b }"

definition kernel_setup :: "boot_env \<Rightarrow> 'p port_ops \<Rightarrow> 'p boot_state \<Rightarrow> 'p boot_state option" where
  "kernel_setup env io b = do {
     let b = setup_devices env io b;
     s \<leftarrow> initialize_filesystem_fat32 (ata_ops io) (storage (kern b));
     let b = on_storage (\<lambda>_. s) b;
     let b = b\<lparr>gdt := gdt_install_tss (tss_address env) (gdt b), task_register := GDT_TSS_SELECTOR\<rparr>;
     let b = allocate_first_page env b;
     b \<leftarrow> setup_files env io b;
     Some (b\<lparr>tss := set_tss_kernel_current_stack (frame_base env) (tss b)\<rparr>) }"

section \<open>What the steps leave alone\<close>

lemma on_storage_simps [simp]:
  "storage (kern (on_storage f b)) = f (storage (kern b))" "keyboard (kern (on_storage f b)) = keyboard (kern b)"
  "screen (kern (on_storage f b)) = screen (kern b)" "gdt (on_storage f b) = gdt b" "gdt_loaded (on_storage f b) = gdt_loaded b"
  "idt (on_storage f b) = idt b" "page_dir (on_storage f b) = page_dir b" "frames (on_storage f b) = frames b"
  "tss (on_storage f b) = tss b" "task_register (on_storage f b) = task_register b"
  by (simp_all add: on_storage_def)

text \<open>The parts outside the kernel state, as one tuple.\<close>

definition tables :: "'p boot_state \<Rightarrow> gdt_table \<times> bool \<times> u16 \<times> idt_state \<times> page_directory \<times> PageManagerState \<times> TSSEntry" where
  "tables b = (gdt b, gdt_loaded b, task_register b, idt b, page_dir b, frames b, tss b)"

lemma tables_on_storage [simp]: "tables (on_storage f b) = tables b"
  by (simp add: tables_def)

lemma setup_devices_tables:
  "tables (setup_devices env io b) = (gdt b, True, task_register b, initialize_idt (stubs env) (idt b), page_dir b, frames b, tss b)"
  by (simp add: setup_devices_def on_ports_def on_memory_def Let_def tables_def)

lemma setup_devices_kernel:
  "keyboard (kern (setup_devices env io b)) = keyboard (kern b)" "screen (kern (setup_devices env io b)) = screen (kern b)"
  "mem (storage (kern (setup_devices env io b))) = framebuffer_clear (mem (storage (kern b)))"
  "dev (storage (kern (setup_devices env io b)))
    = framebuffer_set_cursor io 0 0 (activate_keyboard_interrupt io (pic_remap io (dev (storage (kern b)))))"
  by (simp_all add: setup_devices_def on_ports_def on_memory_def Let_def)

lemma file_step_Some:
  "operation (storage (kern b)) = Some (c, s) \<Longrightarrow> file_step operation b = Some (on_storage (\<lambda>_. s) b)"
  by (simp add: file_step_def)

section \<open>The first page\<close>

lemma boot_mapped:
  "mapped_page (loader_virtual paging_kernel_page_directory) i = (if i = 0x300 then Some (False, 0) else None)"
  by (auto simp: loader_virtual_def mapped_page_def paging_kernel_page_directory_def PAGE_ENTRY_COUNT_def nth_list_update
      kernel_pde_def zero_pde_def zero_flag_def)

lemma boot_paging: "paging_inv (loader_virtual paging_kernel_page_directory) page_manager_state"
  using boot_good boot_mapped free_frames_boot
  by (auto simp: pm_good_def paging_inv_def PAGE_FRAME_MAX_COUNT_eq loader_virtual_def split: if_splits)

lemma page_index_0: "page_index 0 = 0"
  by (simp add: page_index_def)

text \<open>The two entries in use are entries of 4 MiB pages.\<close>

definition large_pages :: "page_directory \<Rightarrow> bool" where
  "large_pages dir \<longleftrightarrow> page_size (flag (dir ! 0)) \<and> page_size (flag (dir ! 0x300))"

lemma first_page:
  assumes "page_dir b = loader_virtual paging_kernel_page_directory" and "frames b = page_manager_state"
  shows "paging_inv (page_dir (allocate_first_page env b)) (frames (allocate_first_page env b))"
    and "mapped_page (page_dir (allocate_first_page env b)) = [0 \<mapsto> (True, 1), 0x300 \<mapsto> (False, 0)]"
    and "mem (storage (kern (allocate_first_page env b)))
      = (\<lambda>x. if page_index x = 0 then user_page env x else mem (storage (kern b)) x)"
    and "storage (kern (allocate_first_page env b)) = (storage (kern b))\<lparr>mem := mem (storage (kern (allocate_first_page env b)))\<rparr>"
    and "large_pages (page_dir (allocate_first_page env b))"
proof -
  have "free_frames page_manager_state \<noteq> {}" "Min (free_frames page_manager_state) = 1"
    unfolding free_frames_boot by (auto intro: Min_eqI)
  with allocate_effect [OF boot_paging, of "flag_junk env" 0] obtain dir' st' where
    r: "paging_allocate_user_page_frame (flag_junk env) (page_dir b) 0 (frames b) = (True, dir', st')"
    and m: "mapped_page dir' = (mapped_page (loader_virtual paging_kernel_page_directory))(0 \<mapsto> (True, 1))"
    using assms by (auto simp: page_index_0)
  have "large_pages dir'"
    using r assms by (auto simp: paging_allocate_user_page_frame_def scan_free_frames update_page_directory_entry_def Let_def
        page_index_0 large_pages_def user_flag_def loader_virtual_def paging_kernel_page_directory_def PAGE_ENTRY_COUNT_def
        kernel_pde_def split: if_splits)
  then show "large_pages (page_dir (allocate_first_page env b))" by (simp add: allocate_first_page_def r on_memory_def)
  have inv: "paging_inv dir' st'"
    using paging_inv_allocate [OF boot_paging, of 0 "flag_junk env" True dir' st'] r assms by (simp add: boot_mapped page_index_0)
  show "paging_inv (page_dir (allocate_first_page env b)) (frames (allocate_first_page env b))"
    using inv by (simp add: allocate_first_page_def r on_memory_def)
  show "mapped_page (page_dir (allocate_first_page env b)) = [0 \<mapsto> (True, 1), 0x300 \<mapsto> (False, 0)]"
    by (auto simp: allocate_first_page_def r on_memory_def m boot_mapped)
  show "mem (storage (kern (allocate_first_page env b)))
      = (\<lambda>x. if page_index x = 0 then user_page env x else mem (storage (kern b)) x)"
    "storage (kern (allocate_first_page env b)) = (storage (kern b))\<lparr>mem := mem (storage (kern (allocate_first_page env b)))\<rparr>"
    by (simp_all add: allocate_first_page_def r on_memory_def on_storage_def page_index_0 Let_def cong: if_cong)
qed

section \<open>Two files in a fresh root directory\<close>

text \<open>The slot, the clusters and the code of a second file of two chunks, after a first one.\<close>

lemma first_slot:
  assumes "request_ok r" and "clusters_written r = 2"
  shows "written_table r fresh_fat root_directory_table ! 2 = written_entry r fresh_fat 2 zero_entry"
    and "i \<noteq> 2 \<Longrightarrow> written_table r fresh_fat root_directory_table ! i = root_directory_table ! i"
  using written_table_slot [OF root_directory_table_ok, of r fresh_fat] assms
  by (simp_all add: root_write_code root_find root_slot written_table_def)

lemma second_slot:
  assumes r: "request_ok r" and n: "clusters_written r = 2" and q: "request_ok q" and other: "req_identifier q \<noteq> req_identifier r"
  shows "find_entry (req_identifier q) (written_table r fresh_fat root_directory_table) = None"
    and "find_empty_slot (written_table r fresh_fat root_directory_table) = Some 3"
proof -
  let ?t = "written_table r fresh_fat root_directory_table"
  have two: "name (?t ! 2) @ ext (?t ! 2) = req_identifier r" "user_attribute (?t ! 2) = UATTR_NOT_EMPTY"
    by (simp_all add: first_slot(1) [OF r n] req_identifier_def)
  have "\<not> entry_matches (req_identifier q) (?t ! i)" if "2 \<le> i" "i < DIR_ENTRIES" for i
  proof (cases "i = 2")
    case True
    then show ?thesis
      using two other entry_matches_iff [OF length_req_identifier [OF q], of "?t ! 2"] first_slot(1) [OF r n] written_entry_ok [OF r]
      by simp
  next
    case False
    with that show ?thesis using root_no_match first_slot(2) [OF r n, of i] by simp
  qed
  then show "find_entry (req_identifier q) ?t = None" by (simp add: find_entry_def scan_None_iff)
  have "user_attribute (?t ! j) = UATTR_NOT_EMPTY" if "2 \<le> j" "j < 3" for j
  proof -
    have "j = 2" using that by simp
    then show ?thesis by (simp add: two)
  qed
  then show "find_empty_slot ?t = Some 3"
    by (auto simp: find_empty_slot_def scan_Some_iff first_slot(2) [OF r n] root_entry_unused UATTR_NOT_EMPTY_def DIR_ENTRIES_def)
qed

lemma clusters_left: "2 \<le> length (free_clusters (linked_fat fresh_fat 2))"
proof -
  have "x \<in> set (free_clusters (linked_fat fresh_fat 2))" if "x \<in> {4, 5}" for x
    using that linked_fat_other [of x fresh_fat 2]
    by (auto simp: free_clusters_set written_chain_def fresh_free fresh_fat_nth CLUSTER_MAP_SIZE_def)
  then have "card {4, 5 :: nat} \<le> card (set (free_clusters (linked_fat fresh_fat 2)))"
    by (intro card_mono) auto
  also have "\<dots> \<le> length (free_clusters (linked_fat fresh_fat 2))" by (rule card_length)
  finally show ?thesis by simp
qed

lemma second_code:
  assumes "request_ok r" and "clusters_written r = 2" and "request_ok q" and "req_identifier q \<noteq> req_identifier r"
    and "clusters_written q = 2"
  shows "write_code q (linked_fat fresh_fat 2) (written_table r fresh_fat root_directory_table) = 0"
  using second_slot [OF assms(1-4)] clusters_left assms(5) by (simp add: write_code_def)

section \<open>The file system during the boot\<close>

lemma boot_requests:
  "request_ok shell_request" "request_ok (kaikai_request env)" "request_ok (lain_request env)"
  "parent_cluster_number shell_request = 2" "parent_cluster_number (kaikai_request env) = 2" "parent_cluster_number (lain_request env) = 2"
  "clusters_written (kaikai_request env) = 2" "clusters_written (lain_request env) = 2"
  "buffer_size (kaikai_request env) = 2048" "buffer_size (lain_request env) = 2048" "buf (lain_request env) = cbuf_address env"
  "req_identifier (lain_request env) \<noteq> req_identifier (kaikai_request env)"
  by (simp_all add: lain_request_def kaikai_request_def shell_request_def request_ok_def ascii_def ROOT_CLUSTER_NUMBER_def
      CLUSTER_SIZE_def clusters_written_def req_identifier_def)

text \<open>The state of a file system that was just formatted.\<close>

definition fresh_storage :: "fat_map \<Rightarrow> (nat \<Rightarrow> u8 list) \<Rightarrow> bool" where
  "fresh_storage fat D \<longleftrightarrow> fat = fresh_fat \<and> D 1 = encode_fat fresh_fat \<and> D 2 = encode_table root_directory_table"

lemma fresh_tree: "fresh_storage fat D \<Longrightarrow> tree_ok fat D {2}"
  using tree_ok_formatted by (simp add: fresh_storage_def)

lemma fresh_parent: "fresh_storage fat D \<Longrightarrow> parent_cluster_number r = 2 \<Longrightarrow> parent_table D r = root_directory_table"
  by (simp add: fresh_storage_def parent_table_def root_directory_table_ok)

context block_device
begin

lemma read_nothing:
  assumes v: "valid (dev s)" and f: "fresh_storage (fat_table s) (cluster_of (blocks (dev s)))" and r: "parent_cluster_number r = 2"
  shows "\<exists>s'. read_fat32 ops r s = Some (3, s') \<and> valid (dev s') \<and> mem s' = mem s
    \<and> fresh_storage (fat_table s') (cluster_of (blocks (dev s')))"
proof -
  have ok: "parent_ok (fat_table s) (cluster_of (blocks (dev s))) (parent_cluster_number r)"
    by (rule tree_parent_ok [OF fresh_tree [OF f]]) (simp add: r)
  have "read_code r (parent_table (cluster_of (blocks (dev s))) r) = 3" by (simp add: fresh_parent [OF f r] read_code_def root_find)
  with read_fails [OF v ok] f show ?thesis by (auto simp: fresh_storage_def)
qed

text \<open>The first file, of two chunks.\<close>

lemma write_first:
  assumes v: "valid (dev s)" and f: "fresh_storage (fat_table s) (cluster_of (blocks (dev s)))"
    and r: "request_ok r" "parent_cluster_number r = 2" "clusters_written r = 2" "buffer_size r \<noteq> 0"
  shows "\<exists>s'. write_fat32 ops r s = Some (0, s') \<and> valid (dev s') \<and> mem s' = mem s
    \<and> fat_table s' = linked_fat fresh_fat 2 \<and> tree_ok (fat_table s') (cluster_of (blocks (dev s'))) {2}
    \<and> (\<forall>q. parent_cluster_number q = 2 \<longrightarrow>
        parent_table (cluster_of (blocks (dev s'))) q = written_table r fresh_fat root_directory_table)"
proof -
  let ?D = "cluster_of (blocks (dev s))"
  have pin: "unat (parent_cluster_number r) \<in> {2}" by (simp add: r)
  note tree = fresh_tree [OF f] and t = fresh_parent [OF f r(2)]
  have fat: "fat_table s = fresh_fat" using f by (simp add: fresh_storage_def)
  have code: "write_code r (fat_table s) (parent_table ?D r) = 0" by (simp add: t fat root_write_code r)
  have "good_write r ?D (mem s)" using r(4) by (simp add: good_write_def t root_find root_slot zero_entry_def ATTR_SUBDIRECTORY_def)
  from tree_write [OF v tree pin r(1) this] code obtain s' where
    s': "write_fat32 ops r s = Some (0, s')" "tree_ok (fat_table s') (cluster_of (blocks (dev s'))) (grown r (fat_table s) {2})" by auto
  from write_succeeds [OF v tree_parent_ok [OF tree pin] _ r(1) code] s'(1) have
    w: "valid (dev s')" "mem s' = mem s" "fat_table s' = linked_fat fresh_fat 2"
      "\<forall>k<2048. cluster_of (blocks (dev s')) k = written_disk r fresh_fat (mem s) ?D k"
    by (auto simp: fat length_fresh_fat r(3))
  have "cluster_of (blocks (dev s')) 2 = encode_table (written_table r fresh_fat root_directory_table)"
    using w(4) by (simp add: written_disk_def r(2) t)
  then have "parent_table (cluster_of (blocks (dev s'))) q = written_table r fresh_fat root_directory_table"
    if "parent_cluster_number q = 2" for q
    using that table_ok_written [OF r(1) root_directory_table_ok] by (simp add: parent_table_def)
  with s' w r(4) show ?thesis by (simp add: grown_def)
qed

text \<open>The second file: it is written, and reading it back yields its second chunk only.\<close>

lemma write_second:
  assumes v: "valid (dev s)" and tree: "tree_ok (fat_table s) (cluster_of (blocks (dev s))) {2}"
    and fat: "fat_table s = linked_fat fresh_fat 2"
    and t: "\<And>q. parent_cluster_number q = 2 \<Longrightarrow>
      parent_table (cluster_of (blocks (dev s))) q = written_table p fresh_fat root_directory_table"
    and p: "request_ok p" "clusters_written p = 2"
    and r: "request_ok r" "parent_cluster_number r = 2" "clusters_written r = 2" "buffer_size r \<noteq> 0" "req_identifier r \<noteq> req_identifier p"
    and n: "4096 \<le> n"
  shows "\<exists>s' s2. write_fat32 ops r s = Some (0, s') \<and> valid (dev s') \<and> mem s' = mem s
    \<and> tree_ok (fat_table s') (cluster_of (blocks (dev s'))) {2}
    \<and> read_fat32 ops (r\<lparr>buf := a, buffer_size := n\<rparr>) s' = Some (0, s2)
    \<and> mem s2 = mem_write (mem s) a (mem_read (mem s) (buf r + 2048) 2048)"
proof -
  let ?D = "cluster_of (blocks (dev s))"
  have pin: "unat (parent_cluster_number r) \<in> {2}" by (simp add: r)
  note tr = t [OF r(2)]
  have code: "write_code r (fat_table s) (parent_table ?D r) = 0"
    using second_code [OF p r(1,5,3)] by (simp add: tr fat)
  have slot: "find_empty_slot (parent_table ?D r) = Some 3" using second_slot(2) [OF p r(1,5)] by (simp add: tr)
  have "root_directory_table ! 3 = zero_entry" by (simp add: root_directory_table_def)
  then have attr: "attribute (parent_table ?D r ! the (find_empty_slot (parent_table ?D r))) \<noteq> ATTR_SUBDIRECTORY"
    by (simp add: slot [unfolded tr] tr first_slot(2) [OF p] zero_entry_def ATTR_SUBDIRECTORY_def)
  then have "good_write r ?D (mem s)" using r(4) by (simp add: good_write_def)
  from tree_write [OF v tree pin r(1) this] code r(4) obtain s' where
    s': "write_fat32 ops r s = Some (0, s')" "valid (dev s')" "mem s' = mem s"
      "tree_ok (fat_table s') (cluster_of (blocks (dev s'))) {2}" by (auto simp: grown_def)
  have res: "write_result r (fat_table s) ?D = 0" using code tree_parent_ok [OF tree pin] by (simp add: write_result_def)
  have size: "of_nat (clusters_written r * CLUSTER_SIZE) \<le> n" using n by (simp add: r(3) CLUSTER_SIZE_def)
  from read_after_write [OF v r(1) tree_fs_ok [OF tree] res r(4) attr size, of a] s'(1) obtain s2 where
    s2: "read_fat32 ops (r\<lparr>buf := a, buffer_size := n\<rparr>) s' = Some (0, s2)" "mem s2 = mem_write (mem s) a (stored_bytes r (mem s))"
    by auto
  have "stored_bytes r (mem s) = mem_read (mem s) (buf r + 2048) 2048"
    by (simp add: stored_bytes_def r(3) buffer_chunk_def CLUSTER_SIZE_def)
  with s' s2 show ?thesis by auto
qed

end

section \<open>The whole boot\<close>

text \<open>The memory when the first page is mapped, and after the two copies into the buffer.\<close>

definition paged_memory :: "boot_env \<Rightarrow> memory \<Rightarrow> memory" where
  "paged_memory env m = (\<lambda>x. if page_index x = 0 then user_page env x else framebuffer_clear m x)"

definition boot_memory :: "boot_env \<Rightarrow> memory \<Rightarrow> memory" where
  "boot_memory env m = memcpy (memcpy m (cbuf_address env) (lol_address env) 132) (cbuf_address env) (text_address env) 20"

context machine
begin

lemma devices_view: "view (dev (storage (kern (setup_devices env io b)))) = view (dev (storage (kern b)))"
proof -
  have "view (pic_remap io p) = view p" for p
    by (simp add: pic_remap_def io_wait_def Let_def other_out kernel_defs)
  moreover have "view (activate_keyboard_interrupt io p) = view p" for p
    by (simp add: activate_keyboard_interrupt_def Let_def case_prod_beta other_in other_out kernel_defs)
  moreover have "view (framebuffer_set_cursor io r c p) = view p" for r c p
    by (simp add: framebuffer_set_cursor_def Let_def other_out CURSOR_PORT_CMD_def CURSOR_PORT_DATA_def)
  ultimately show ?thesis by (simp add: setup_devices_kernel)
qed

lemma setup_files_run:
  assumes v: "disk_ready (view (dev (storage (kern b))))"
    and f: "fresh_storage (fat_table (storage (kern b))) (kernel_disk view (kern b))" and n: "4096 \<le> n"
  shows "\<exists>b' s2. setup_files env io b = Some b' \<and> tables b' = tables b
    \<and> keyboard (kern b') = keyboard (kern b) \<and> screen (kern b') = screen (kern b)
    \<and> disk_ready (view (dev (storage (kern b')))) \<and> tree_ok (fat_table (storage (kern b'))) (kernel_disk view (kern b')) {2}
    \<and> kernel_mem (kern b') = (boot_memory env (kernel_mem (kern b)))
    \<and> read_fat32 (ata_ops io) ((lain_request env)\<lparr>buf := a, buffer_size := n\<rparr>) (storage (kern b')) = Some (0, s2)
    \<and> mem s2 = mem_write (boot_memory env (kernel_mem (kern b))) a (mem_read (boot_memory env (kernel_mem (kern b))) (cbuf_address env + 2048) 2048)"
proof -
  note q = boot_requests
  obtain s1 where s1: "read_fat32 (ata_ops io) shell_request (storage (kern b)) = Some (3, s1)" "disk_ready (view (dev s1))"
    "mem s1 = kernel_mem (kern b)" "fresh_storage (fat_table s1) (cluster_of (sectors (view (dev s1))))"
    using drive.read_nothing [OF v f q(4)] by blast
  let ?m2 = "boot_memory env (kernel_mem (kern b))"
  let ?s1 = "s1\<lparr>mem := memcpy (mem s1) (cbuf_address env) (lol_address env) 132\<rparr>"
  obtain s2 where s2: "write_fat32 (ata_ops io) (kaikai_request env) ?s1 = Some (0, s2)" "disk_ready (view (dev s2))"
    "mem s2 = mem ?s1" "fat_table s2 = linked_fat fresh_fat 2" "tree_ok (fat_table s2) (cluster_of (sectors (view (dev s2)))) {2}"
    "\<And>r. parent_cluster_number r = 2 \<Longrightarrow>
       parent_table (cluster_of (sectors (view (dev s2)))) r = written_table (kaikai_request env) fresh_fat root_directory_table"
    using drive.write_first [of ?s1 "kaikai_request env"] s1 q by auto
  let ?s2 = "s2\<lparr>mem := memcpy (mem s2) (cbuf_address env) (text_address env) 20\<rparr>"
  have m2: "mem ?s2 = ?m2" by (simp add: boot_memory_def s2(3) s1(3))
  obtain s3 s4 where s3: "write_fat32 (ata_ops io) (lain_request env) ?s2 = Some (0, s3)" "disk_ready (view (dev s3))" "mem s3 = ?m2"
    "tree_ok (fat_table s3) (cluster_of (sectors (view (dev s3)))) {2}"
    "read_fat32 (ata_ops io) ((lain_request env)\<lparr>buf := a, buffer_size := n\<rparr>) s3 = Some (0, s4)"
    "mem s4 = mem_write ?m2 a (mem_read ?m2 (cbuf_address env + 2048) 2048)"
    using drive.write_second [of ?s2 "kaikai_request env" "lain_request env" n a] s2 q n unfolding m2 [symmetric] by auto
  let ?b1 = "on_memory (\<lambda>m. memcpy m (cbuf_address env) (lol_address env) 132) (on_storage (\<lambda>_. s1) b)"
  let ?b2 = "on_memory (\<lambda>m. memcpy m (cbuf_address env) (text_address env) 20) (on_storage (\<lambda>_. s2) ?b1)"
  have e: "storage (kern ?b1) = ?s1" "storage (kern ?b2) = ?s2" by (simp_all add: on_memory_def)
  have "file_step (read_fat32 (ata_ops io) shell_request) b = Some (on_storage (\<lambda>_. s1) b)"
    by (rule file_step_Some) (rule s1(1))
  moreover have "file_step (write_fat32 (ata_ops io) (kaikai_request env)) ?b1 = Some (on_storage (\<lambda>_. s2) ?b1)"
    by (rule file_step_Some) (simp only: e s2(1))
  moreover have "file_step (write_fat32 (ata_ops io) (lain_request env)) ?b2 = Some (on_storage (\<lambda>_. s3) ?b2)"
    by (rule file_step_Some) (simp only: e s3(1))
  ultimately have "setup_files env io b = Some (on_storage (\<lambda>_. s3) ?b2)"
    unfolding setup_files_def Let_def by simp
  with s3 show ?thesis by (auto simp: on_memory_def)
qed

lemma kernel_setup_run:
  assumes v: "disk_ready (view (dev s0))" and new: "sectors (view (dev s0)) 0 \<noteq> fs_signature" and n: "4096 \<le> n"
  shows "\<exists>b' s2. kernel_setup env io (boot_start s0) = Some b' \<and> kernel_ok view (kern b') {2}
    \<and> gdt b' = gdt_install_tss (tss_address env) global_descriptor_table \<and> gdt_loaded b' \<and> task_register b' = GDT_TSS_SELECTOR
    \<and> idt b' = initialize_idt (stubs env) idt_at_start
    \<and> paging_inv (page_dir b') (frames b') \<and> mapped_page (page_dir b') = [0 \<mapsto> (True, 1), 0x300 \<mapsto> (False, 0)]
    \<and> large_pages (page_dir b') \<and> esp0 (tss b') = frame_base env + 8
    \<and> kernel_mem (kern b') = boot_memory env (paged_memory env (mem s0))
    \<and> read_fat32 (ata_ops io) ((lain_request env)\<lparr>buf := a, buffer_size := n\<rparr>) (storage (kern b')) = Some (0, s2)
    \<and> mem s2 = mem_write (kernel_mem (kern b')) a (mem_read (kernel_mem (kern b')) (cbuf_address env + 2048) 2048)"
proof -
  let ?b0 = "setup_devices env io (boot_start s0)"
  have t0: "tables ?b0 = (global_descriptor_table, True, 0, initialize_idt (stubs env) idt_at_start,
      loader_virtual paging_kernel_page_directory, page_manager_state, interrupt_tss_entry)"
    by (simp add: setup_devices_tables boot_start_def)
  have view0: "view (dev (storage (kern ?b0))) = view (dev s0)" by (simp add: devices_view) (simp add: boot_start_def)
  have mem0: "kernel_mem (kern ?b0) = framebuffer_clear (mem s0)" by (simp add: setup_devices_kernel) (simp add: boot_start_def)
  obtain s1 where s1: "initialize_filesystem_fat32 (ata_ops io) (storage (kern ?b0)) = Some s1" "disk_ready (view (dev s1))"
    "mem s1 = framebuffer_clear (mem s0)" "fresh_storage (fat_table s1) (cluster_of (sectors (view (dev s1))))"
    using drive.initialize_ok [of "storage (kern ?b0)"] v new by (auto simp: view0 mem0 fresh_storage_def)
  let ?b1 = "on_storage (\<lambda>_. s1) ?b0"
  let ?b2 = "?b1\<lparr>gdt := gdt_install_tss (tss_address env) (gdt ?b1), task_register := GDT_TSS_SELECTOR\<rparr>"
  have p: "page_dir ?b2 = loader_virtual paging_kernel_page_directory" "frames ?b2 = page_manager_state"
    using t0 by (simp_all add: tables_def)
  note page = first_page [where env = env and b = ?b2, OF p]
  let ?b3 = "allocate_first_page env ?b2"
  have st3: "dev (storage (kern ?b3)) = dev s1" "fat_table (storage (kern ?b3)) = fat_table s1"
    using arg_cong [OF page(4), of dev] arg_cong [OF page(4), of fat_table] by simp_all
  have mem3: "kernel_mem (kern ?b3) = paged_memory env (mem s0)"
    unfolding page(3) by (simp add: s1(3) paged_memory_def cong: if_cong)
  have t3: "gdt ?b3 = gdt_install_tss (tss_address env) global_descriptor_table" "gdt_loaded ?b3" "task_register ?b3 = GDT_TSS_SELECTOR"
    "idt ?b3 = initialize_idt (stubs env) idt_at_start" "screen (kern ?b3) = screen_at_start"
    using t0 by (simp_all add: allocate_first_page_def Let_def on_memory_def case_prod_beta tables_def setup_devices_kernel boot_start_def)
  have "disk_ready (view (dev (storage (kern ?b3))))" "fresh_storage (fat_table (storage (kern ?b3))) (kernel_disk view (kern ?b3))"
    by (simp_all only: st3 s1(2,4))
  from setup_files_run [OF this n, of env a] obtain b' s2 where
    b': "setup_files env io ?b3 = Some b'" "tables b' = tables ?b3" "screen (kern b') = screen (kern ?b3)"
      "disk_ready (view (dev (storage (kern b'))))" "tree_ok (fat_table (storage (kern b'))) (kernel_disk view (kern b')) {2}"
      "kernel_mem (kern b') = boot_memory env (kernel_mem (kern ?b3))"
      "read_fat32 (ata_ops io) ((lain_request env)\<lparr>buf := a, buffer_size := n\<rparr>) (storage (kern b')) = Some (0, s2)"
      "mem s2 = mem_write (boot_memory env (kernel_mem (kern ?b3))) a (mem_read (boot_memory env (kernel_mem (kern ?b3))) (cbuf_address env + 2048) 2048)"
    by blast
  have "kernel_setup env io (boot_start s0) = Some (b'\<lparr>tss := set_tss_kernel_current_stack (frame_base env) (tss b')\<rparr>)"
    unfolding kernel_setup_def Let_def by (simp only: s1(1) Option.bind_lunit b'(1))
  moreover have "kernel_ok view (kern b') {2}"
    using b'(3-5) t3(5) by (simp add: kernel_ok_def on_screen_def screen_at_start_def)
  ultimately show ?thesis
    using b' t3 page(1,2,5) mem3
    by (intro exI [of _ "b'\<lparr>tss := set_tss_kernel_current_stack (frame_base env) (tss b')\<rparr>"] exI [of _ s2])
      (simp add: tables_def set_tss_kernel_current_stack_def)
qed

end

text \<open>An address in a 4 MiB page that is mapped to frame \<open>f\<close>.\<close>

lemma translate_large:
  assumes "mapped_page dir (page_index v) = Some (u, f)" and "page_size (flag (dir ! page_index v))"
  shows "\<exists>p. mmu_translate (directory_bits dir) v = Some p \<and> unat p = 4194304 * f + unat v mod 4194304"
  using assms by (auto simp: mapped_page_def translate_mapped unat_frame_address split: if_splits)

lemma window_address:
  assumes "k < 4000"
  shows "unat (TEXT_BUFFER + of_nat k) = 0xB8000 + k" "unat (FRAMEBUFFER_MEMORY_OFFSET + of_nat k) = 0xC00B8000 + k"
  using unat_region [of TEXT_BUFFER 4000 k] unat_region [of FRAMEBUFFER_MEMORY_OFFSET 4000 k] assms
  by (simp_all add: TEXT_BUFFER_def FRAMEBUFFER_MEMORY_OFFSET_def)

section \<open>Properties\<close>

text \<open>
  C9. On a machine with an unformatted disk \<open>kernel_setup\<close> returns from all its steps: the file system is
  formatted and well-formed, the screen is blank, the descriptor tables, the task register and the kernel
  stack are installed, and exactly two pages are mapped: address 0 to user frame 1 and the kernel's
  higher half to frame 0.
\<close>

theorem kernel_setup_boots:
  assumes "machine io view data_request patience" and "disk_ready (view (dev s0))" and "sectors (view (dev s0)) 0 \<noteq> fs_signature"
  shows "\<exists>b. kernel_setup env io (boot_start s0) = Some b \<and> kernel_ok view (kern b) {2}
    \<and> gdt b = gdt_install_tss (tss_address env) global_descriptor_table \<and> gdt_loaded b \<and> task_register b = GDT_TSS_SELECTOR
    \<and> idt b = initialize_idt (stubs env) idt_at_start
    \<and> paging_inv (page_dir b) (frames b) \<and> mapped_page (page_dir b) = [0 \<mapsto> (True, 1), 0x300 \<mapsto> (False, 0)]
    \<and> esp0 (tss b) = frame_base env + 8
    \<and> kernel_mem (kern b) = boot_memory env (paged_memory env (mem s0))"
proof -
  have "(4096 :: u32) \<le> 4096" by simp
  from machine.kernel_setup_run [OF assms this] show ?thesis by blast
qed

text \<open>
  The text the kernel writes into its second file is lost: reading \<open>lain.txt\<close> back after the boot
  answers 0 and yields the 2048 bytes behind the text's cluster on the stack, which the boot never wrote.
\<close>

theorem boot_text_lost:
  assumes "machine io view data_request patience" and "disk_ready (view (dev s0))" and "sectors (view (dev s0)) 0 \<noteq> fs_signature"
    and "4096 \<le> n"
  shows "\<exists>b s. kernel_setup env io (boot_start s0) = Some b
    \<and> read_fat32 (ata_ops io) ((lain_request env)\<lparr>buf := a, buffer_size := n\<rparr>) (storage (kern b)) = Some (0, s)
    \<and> mem s = mem_write (kernel_mem (kern b)) a (mem_read (paged_memory env (mem s0)) (cbuf_address env + 2048) 2048)"
proof -
  let ?m = "paged_memory env (mem s0)"
  have same: "boot_memory env m' (cbuf_address env + 2048 + of_nat i) = m' (cbuf_address env + 2048 + of_nat i)" if "i < 2048" for i m'
  proof -
    have "cbuf_address env + 2048 + of_nat i - cbuf_address env = of_nat (2048 + i)" by simp
    moreover have "unat (of_nat (2048 + i) :: u32) = 2048 + i" by (rule unat_of_nat_u32) (use that in simp)
    ultimately have "unat (cbuf_address env + 2048 + of_nat i - cbuf_address env) = 2048 + i" by (simp only:)
    then show ?thesis by (simp add: boot_memory_def memcpy_outside)
  qed
  have "mem_read (boot_memory env ?m) (cbuf_address env + 2048) 2048 = mem_read ?m (cbuf_address env + 2048) 2048"
    by (rule nth_equalityI) (simp_all add: same)
  with machine.kernel_setup_run [OF assms(1-4), of env a] show ?thesis by metis
qed

text \<open>
  C22. After the boot \<open>putc\<close> does not write to the screen. It still fills the cells of its buffer at 0xB8000 as if
  they were shown, and changes no other byte; but every byte it changes is translated by the processor into
  the user frame at 4 MiB, at the same offset, while the addresses that reach the 4000 bytes of video memory are those
  of the framebuffer driver at 0xC00B8000, which \<open>putc\<close> leaves as they are. The disk is not formatted before.
\<close>

theorem text_output_misses_screen:
  assumes "machine io view data_request patience" and "disk_ready (view (dev s0))" and "sectors (view (dev s0)) 0 \<noteq> fs_signature"
    and "on_screen t"
  shows "\<exists>b. kernel_setup env io (boot_start s0) = Some b
    \<and> (\<forall>q<2000. screen_cell TEXT_BUFFER (snd (putc c color (t, m))) q = typed c color (position t) (screen_cell TEXT_BUFFER m) q)
    \<and> (\<forall>x. snd (putc c color (t, m)) x \<noteq> m x \<longrightarrow>
         (\<exists>p. mmu_translate (directory_bits (page_dir b)) x = Some p \<and> unat p = 0x400000 + unat x
            \<and> 0xB8000 \<le> unat x \<and> unat x < 0xB8000 + 4000))
    \<and> (\<forall>k<4000. \<exists>q. mmu_translate (directory_bits (page_dir b)) (FRAMEBUFFER_MEMORY_OFFSET + of_nat k) = Some q
         \<and> unat q = 0xB8000 + k \<and> snd (putc c color (t, m)) (FRAMEBUFFER_MEMORY_OFFSET + of_nat k) = m (FRAMEBUFFER_MEMORY_OFFSET + of_nat k))"
proof -
  have "(4096 :: u32) \<le> 4096" by simp
  from machine.kernel_setup_run [OF assms(1-3) this] obtain b where
    b: "kernel_setup env io (boot_start s0) = Some b" "mapped_page (page_dir b) = [0 \<mapsto> (True, 1), 0x300 \<mapsto> (False, 0)]"
      "large_pages (page_dir b)" by blast
  let ?tr = "mmu_translate (directory_bits (page_dir b))" and ?m = "snd (putc c color (t, m))"
  have low: "\<exists>p. ?tr (TEXT_BUFFER + of_nat k) = Some p \<and> unat p = 0x400000 + 0xB8000 + k"
    and high: "\<exists>q. ?tr (FRAMEBUFFER_MEMORY_OFFSET + of_nat k) = Some q \<and> unat q = 0xB8000 + k"
    and at: "unat (TEXT_BUFFER + of_nat k) = 0xB8000 + k" "unat (FRAMEBUFFER_MEMORY_OFFSET + of_nat k) = 0xC00B8000 + k"
    if "k < 4000" for k
  proof -
    note w = window_address [OF that]
    show "unat (TEXT_BUFFER + of_nat k) = 0xB8000 + k" "unat (FRAMEBUFFER_MEMORY_OFFSET + of_nat k) = 0xC00B8000 + k"
      using w by simp_all
    have i: "page_index (TEXT_BUFFER + of_nat k) = 0" "page_index (FRAMEBUFFER_MEMORY_OFFSET + of_nat k) = 0x300"
      using that by (simp_all only: page_index_div w)
    have "(3221979136 + k) mod 4194304 = (753664 + k + 768 * 4194304) mod 4194304" by simp
    also have "\<dots> = 753664 + k" unfolding mod_mult_self1 by (rule mod_less) (use that in simp)
    finally have r: "(3221979136 + k) mod 4194304 = 753664 + k" .
    from translate_large [of "page_dir b" "TEXT_BUFFER + of_nat k" True 1]
      translate_large [of "page_dir b" "FRAMEBUFFER_MEMORY_OFFSET + of_nat k" False 0] b i w that
    show "\<exists>p. ?tr (TEXT_BUFFER + of_nat k) = Some p \<and> unat p = 0x400000 + 0xB8000 + k"
      "\<exists>q. ?tr (FRAMEBUFFER_MEMORY_OFFSET + of_nat k) = Some q \<and> unat q = 0xB8000 + k"
      by (auto simp: large_pages_def r)
  qed
  note out = putc_outside [OF assms(4), of m c color, unfolded same_outside_def]
  have changed: "\<exists>p. ?tr x = Some p \<and> unat p = 0x400000 + unat x \<and> 0xB8000 \<le> unat x \<and> unat x < 0xB8000 + 4000"
    if "?m x \<noteq> m x" for x
  proof -
    have k: "unat (x - TEXT_BUFFER) < 4000" using out that by (metis not_le)
    have x: "x = TEXT_BUFFER + of_nat (unat (x - TEXT_BUFFER))" by simp
    show ?thesis using low [OF k] at(1) [OF k] k by (subst (asm) (1 2) x [symmetric]) auto
  qed
  have kept: "?m (FRAMEBUFFER_MEMORY_OFFSET + of_nat k) = m (FRAMEBUFFER_MEMORY_OFFSET + of_nat k)" if "k < 4000" for k
  proof (rule ccontr)
    assume "?m (FRAMEBUFFER_MEMORY_OFFSET + of_nat k) \<noteq> m (FRAMEBUFFER_MEMORY_OFFSET + of_nat k)"
    from changed [OF this] at(2) [OF that] show False by auto
  qed
  show ?thesis
    using b(1) changed high kept putc_cells [OF assms(4), of _ c color m] by (intro exI [of _ b]) simp
qed

text \<open>An environment and the machine with a disk of zeros.\<close>

definition example_env :: boot_env where
  "example_env = \<lparr>stubs = (\<lambda>i. 0xC0100000 + of_nat (16 * i)), tss_address = 0xC0105000, cbuf_address = 0xC0200000,
     lol_address = 0xC0106000, text_address = 0xC0106010, frame_base = 0xC0201100, flag_junk = zero_flag, user_page = (\<lambda>_. 0)\<rparr>"

definition zero_storage :: "slow_disk fs_state" where
  "zero_storage = \<lparr>fat_table = [], dir_table_buf = [], cluster_buf = [], mem = (\<lambda>_. 0), dev = zero_disk\<rparr>"

lemma zero_storage_ready: "disk_ready (drive_state (dev zero_storage))" "sectors (drive_state (dev zero_storage)) 0 \<noteq> fs_signature"
proof -
  show "disk_ready (drive_state (dev zero_storage))" by (simp add: zero_storage_def zero_disk_def disk_ready_def)
  have "fs_signature ! 0 \<noteq> sectors (drive_state (dev zero_storage)) 0 ! 0"
    by (simp add: zero_storage_def zero_disk_def fs_signature_def ascii_def)
  then show "sectors (drive_state (dev zero_storage)) 0 \<noteq> fs_signature" by auto
qed

theorem kernel_setup_boots_witness:
  "\<exists>b. kernel_setup example_env slow_io (boot_start zero_storage) = Some b \<and> kernel_ok drive_state (kern b) {2}"
  using kernel_setup_boots [OF slow_machine.machine_axioms zero_storage_ready, of example_env] by blast

theorem boot_text_lost_witness:
  "\<exists>b s. kernel_setup example_env slow_io (boot_start zero_storage) = Some b
    \<and> read_fat32 (ata_ops slow_io) ((lain_request example_env)\<lparr>buf := 0x1000, buffer_size := 4096\<rparr>) (storage (kern b)) = Some (0, s)"
  using boot_text_lost [OF slow_machine.machine_axioms zero_storage_ready, of 4096 example_env "0x1000"] by auto

text \<open>The letter A typed on the booted kernel: it stands at 0xB8000, which is the physical address 0x4B8000.\<close>

theorem text_output_misses_screen_witness:
  "\<exists>b p. kernel_setup example_env slow_io (boot_start zero_storage) = Some b
    \<and> snd (putc 0x41 7 (screen_at_start, \<lambda>_. 0)) 0xB8000 = 0x41
    \<and> mmu_translate (directory_bits (page_dir b)) 0xB8000 = Some p \<and> unat p = 0x4B8000"
proof -
  have t: "on_screen screen_at_start" "position screen_at_start = 0" by (simp_all add: screen_at_start_def on_screen_def position_def)
  let ?b = "\<lambda>b. mmu_translate (directory_bits (page_dir b))" and ?m = "snd (putc 0x41 7 (screen_at_start, \<lambda>_. 0))"
  from text_output_misses_screen [OF slow_machine.machine_axioms zero_storage_ready t(1), of example_env "0x41" 7 "\<lambda>_. 0"]
  obtain b where b: "kernel_setup example_env slow_io (boot_start zero_storage) = Some b"
    and cells: "\<forall>q<2000. screen_cell TEXT_BUFFER ?m q = typed 0x41 7 (position screen_at_start) (screen_cell TEXT_BUFFER (\<lambda>_. 0)) q"
    and tr: "\<forall>x. ?m x \<noteq> 0 \<longrightarrow> (\<exists>p. ?b b x = Some p \<and> unat p = 0x400000 + unat x \<and> 0xB8000 \<le> unat x \<and> unat x < 0xB8000 + 4000)"
    by blast
  have "screen_cell TEXT_BUFFER ?m 0 = typed 0x41 7 (position screen_at_start) (screen_cell TEXT_BUFFER (\<lambda>_. 0)) 0"
    using cells by simp
  then have "screen_cell TEXT_BUFFER ?m 0 = (0x41, 7)" by (simp add: t(2) typed_def next_position_def shown_colour_def)
  then have cell: "?m 0xB8000 = 0x41" by (simp add: screen_cell_def TEXT_BUFFER_def)
  have "?m 0xB8000 \<noteq> 0" unfolding cell by simp
  with tr obtain p where "?b b 0xB8000 = Some p" "unat p = 0x400000 + unat (0xB8000 :: u32)" by blast
  with b cell show ?thesis by auto
qed

end
