(* ===== verification/Inserter_Main.thy ===== *)
theory Inserter_Main imports Boot begin

text \<open>
  The program of the external inserter, \<open>main\<close> of \<open>src/ch2/external-inserter\<close>, and the way of the shell
  from a host file through the disk image into the memory of the kernel.
\<close>

section \<open>The tool\<close>

text \<open>The conversions \<open>%8s\<close> and \<open>%u\<close> of \<open>sscanf\<close>: white space is skipped, \<open>None\<close> is a matching failure.\<close>

definition is_space :: "u8 \<Rightarrow> bool" where
  "is_space b \<longleftrightarrow> b \<in> {32, 9, 10, 11, 12, 13}"

definition is_digit :: "u8 \<Rightarrow> bool" where
  "is_digit b \<longleftrightarrow> 48 \<le> b \<and> b \<le> 57"

definition scan_word :: "u8 list \<Rightarrow> u8 list" where
  "scan_word s = take 8 (takeWhile (\<lambda>b. \<not> is_space b) (dropWhile is_space s))"

definition scan_unsigned :: "u8 list \<Rightarrow> u32 option" where
  "scan_unsigned s =
     (let s = dropWhile is_space s;
          (negative, ds) = (case s of [] \<Rightarrow> (False, s)
            | b # r \<Rightarrow> if b = 45 then (True, r) else if b = 43 then (False, r) else (False, s));
          ds = takeWhile is_digit ds;
          n = foldl (\<lambda>n d. 10 * n + (unat d - 48)) 0 ds
      in if ds = [] then None
         else if 2 ^ 64 \<le> n then Some (- 1)
         else Some (if negative then - of_nat n else of_nat n))"

text \<open>What the allocations return: the address of the file buffer, and the contents of both buffers.\<close>

record inserter_env =
  buffer_address :: u32
  host_memory :: memory
  image_junk :: image

datatype inserter_outcome = Usage | Crash | Finished string "u8 list"

definition inserter_message :: "int \<Rightarrow> string" where
  "inserter_message retcode =
     (if retcode = 0 then ''Write success''
      else if retcode = 1 then ''Error: File/folder name already exist''
      else if retcode = 2 then ''Error: Invalid parent cluster''
      else ''Error: Unknown error'')"

definition inserter_request :: "inserter_env \<Rightarrow> nat \<Rightarrow> u8 list \<Rightarrow> u8 list \<Rightarrow> FAT32DriverRequest" where
  "inserter_request env n file_arg parent_arg =
     \<lparr>buf = buffer_address env, req_name = scan_word file_arg @ replicate (8 - length (scan_word file_arg)) 0,
      req_ext = [0, 0, 0], parent_cluster_number = (case scan_unsigned parent_arg of None \<Rightarrow> 0 | Some c \<Rightarrow> c),
      buffer_size = of_nat n\<rparr>"

text \<open>\<open>driver_state\<close> is static, all zero; the first 4 MiB of both files are read.\<close>

definition inserter_start :: "inserter_env \<Rightarrow> u8 list \<Rightarrow> u8 list option \<Rightarrow> image fs_state" where
  "inserter_start env stored target =
     \<lparr>fat_table = replicate CLUSTER_MAP_SIZE 0, dir_table_buf = replicate DIR_ENTRIES zero_entry,
      cluster_buf = replicate CLUSTER_SIZE 0,
      mem = (case target of None \<Rightarrow> host_memory env
        | Some bs \<Rightarrow> mem_write (host_memory env) (buffer_address env) (take IMAGE_BYTES bs)),
      dev = (\<lambda>i. if i < length stored \<and> i < IMAGE_BYTES then stored ! i else image_junk env i)\<rparr>"

text \<open>
  \<open>files\<close> is the host's file system. A storage that cannot be opened, or a fault of the file system code,
  is a crash; a target that cannot be opened has size 0.
\<close>

definition inserter_main :: "inserter_env \<Rightarrow> (u8 list \<Rightarrow> u8 list option) \<Rightarrow> u8 list list \<Rightarrow> inserter_outcome" where
  "inserter_main env files argv =
     (if length argv < 4 then Usage
      else case files (argv ! 3) of
        None \<Rightarrow> Crash
      | Some stored \<Rightarrow>
          let target = files (argv ! 1);
              n = (case target of None \<Rightarrow> 0 | Some bs \<Rightarrow> length bs);
              request = inserter_request env n (argv ! 1) (argv ! 2)
          in case initialize_filesystem_fat32 image_ops (inserter_start env stored target) of
               None \<Rightarrow> Crash
             | Some s \<Rightarrow>
                 (case write_fat32 image_ops request s of
                    None \<Rightarrow> Crash
                  | Some (retcode, s) \<Rightarrow> Finished (inserter_message retcode) (slice (dev s) 0 IMAGE_BYTES)))"

section \<open>From the image to the kernel\<close>

text \<open>A device that holds the clusters of a storage with a written file, signature included, can be initialised and read.\<close>

context block_device
begin

lemma initialize_and_read:
  assumes v: "valid (dev s)" and sig: "blocks (dev s) 0 = fs_signature"
    and fs: "fs_ok fat D" and r: "request_ok r" and res: "write_result r fat D = 0" and t: "table_ok (parent_table D r)"
    and fresh: "buffer_size r \<noteq> 0" "attribute (parent_table D r ! the (find_empty_slot (parent_table D r))) \<noteq> ATTR_SUBDIRECTORY"
    and D': "\<forall>k<2048. cluster_of (blocks (dev s)) k = written_disk r fat m0 D k"
    and q: "parent_cluster_number q = parent_cluster_number r" "req_identifier q = req_identifier r"
      "of_nat (clusters_written r * CLUSTER_SIZE) \<le> buffer_size q"
  shows "\<exists>s1 s2. initialize_filesystem_fat32 ops s = Some s1 \<and> mem s1 = mem s
    \<and> read_fat32 ops q (s1\<lparr>mem := m\<rparr>) = Some (0, s2) \<and> mem s2 = mem_write m (buf q) (stored_bytes r m0)"
proof -
  let ?fat = "linked_fat fat (clusters_written r)"
  from initialize_ok [OF v] sig obtain s1 where
    s1: "initialize_filesystem_fat32 ops s = Some s1" "valid (dev s1)" "mem s1 = mem s"
      "fat_table s1 = decode_fat (cluster_of (blocks (dev s1)) 1)"
      "\<forall>k<2048. cluster_of (blocks (dev s1)) k = cluster_of (blocks (dev s)) k" by auto
  have D1: "\<forall>k<2048. cluster_of (blocks (dev (s1\<lparr>mem := m\<rparr>))) k = written_disk r fat m0 D k" using s1(5) D' by simp
  have ok: "parent_ok fat D (parent_cluster_number r)" and code: "write_code r fat (parent_table D r) = 0"
    using res by (simp_all add: write_result_def split: if_splits)
  have "fs_ok ?fat (written_disk r fat m0 D)" by (rule fs_ok_written [OF fs ok r code t])
  then have "written_disk r fat m0 D 1 = encode_fat ?fat" by (simp add: fs_ok_def)
  moreover have "length fat = CLUSTER_MAP_SIZE" using fs fat_wfD(1) by (simp add: fs_ok_def)
  ultimately have fat: "fat_table (s1\<lparr>mem := m\<rparr>) = ?fat" using s1(4) D1 by simp
  note w = written_readable [OF fs r res t fresh D1 q]
  have "valid (dev (s1\<lparr>mem := m\<rparr>))" using s1(2) by simp
  from read_succeeds [OF this w(1) [folded fat] w(2,3) w(4) [folded fat]] s1 w(5) show ?thesis by auto
qed

end

section \<open>Inserting the shell\<close>

lemma scan_shell:
  "scan_word (ascii ''shell'') = ascii ''shell''" "scan_unsigned (ascii ''2'') = Some 2"
  by (simp_all add: scan_word_def scan_unsigned_def ascii_def is_space_def is_digit_def)

text \<open>The run of the tool on a storage that is not formatted: the shell is its first file.\<close>

lemma insert_shell_run:
  assumes args: "length argv = 4" "argv ! 1 = ascii ''shell''" "argv ! 2 = ascii ''2''"
    and host: "files (argv ! 3) = Some img" "512 \<le> length img" "take 512 img \<noteq> fs_signature" "files (argv ! 1) = Some bs"
    and size: "0 < length bs" "length bs < 2048"
  shows "\<exists>s1 s2. inserter_main env files argv = Finished ''Write success'' (slice (dev s2) 0 IMAGE_BYTES)
    \<and> mem s1 = mem_write (host_memory env) (buffer_address env) bs \<and> fresh_storage (fat_table s1) (disk s1)
    \<and> image_block (dev s2) 0 = fs_signature
    \<and> (\<forall>k<2048. disk s2 k = written_disk (inserter_request env (length bs) (ascii ''shell'') (ascii ''2'')) fresh_fat (mem s1) (disk s1) k)"
proof -
  let ?r = "inserter_request env (length bs) (ascii ''shell'') (ascii ''2'')"
  let ?s0 = "inserter_start env img (Some bs)"
  have "image_block (dev ?s0) 0 = take 512 img"
    by (rule nth_equalityI) (use host(2) in \<open>simp_all add: image_block_def inserter_start_def IMAGE_BYTES_def\<close>)
  with host(3) have "image_block (dev ?s0) 0 \<noteq> fs_signature" by simp
  moreover have "mem ?s0 = mem_write (host_memory env) (buffer_address env) bs"
    using size by (simp add: inserter_start_def IMAGE_BYTES_def)
  ultimately obtain s1 where s1: "initialize_filesystem_fat32 image_ops ?s0 = Some s1"
    "mem s1 = mem_write (host_memory env) (buffer_address env) bs" "fresh_storage (fat_table s1) (disk s1)"
    "image_block (dev s1) 0 = fs_signature"
    using img.initialize_ok [OF TrueI, of ?s0] by (auto simp: fresh_storage_def)
  have r: "request_ok ?r" "parent_cluster_number ?r = 2" "clusters_written ?r = 1"
    using size by (simp_all add: inserter_request_def request_ok_def scan_shell clusters_written_def CLUSTER_SIZE_def
        unat_of_nat_u32)
  note tree = fresh_tree [OF s1(3)] and t = fresh_parent [OF s1(3) r(2)]
  have fat: "fat_table s1 = fresh_fat" using s1(3) by (simp add: fresh_storage_def)
  have code: "write_code ?r (fat_table s1) (parent_table (disk s1) ?r) = 0" by (simp add: t fat root_write_code r)
  have "parent_ok (fat_table s1) (disk s1) (parent_cluster_number ?r)" by (rule tree_parent_ok [OF tree]) (simp add: r)
  from img.write_succeeds [OF TrueI this _ r(1) code] obtain s2 where
    s2: "write_fat32 image_ops ?r s1 = Some (0, s2)"
      "\<forall>k<2048. disk s2 k = written_disk ?r fresh_fat (mem s1) (disk s1) k"
    by (auto simp: fat length_fresh_fat)
  have "image_block (dev s2) 0 = take 512 (disk s2 0)" by (rule block_device.block_0_of_cluster [OF img.block_device_axioms]) simp
  also have "disk s2 0 = disk s1 0"
    using s2(2) by (simp add: written_disk_def r fresh_free)
  also have "take 512 \<dots> = image_block (dev s1) 0"
    by (rule block_device.block_0_of_cluster [OF img.block_device_axioms, symmetric]) simp
  finally have "image_block (dev s2) 0 = fs_signature" using s1(4) by simp
  moreover have "inserter_main env files argv = Finished ''Write success'' (slice (dev s2) 0 IMAGE_BYTES)"
    using args host s1(1) s2(1) by (simp add: inserter_main_def Let_def inserter_message_def)
  ultimately show ?thesis using s1 s2 by blast
qed

lemma slice_block: "i < DISK_BLOCKS \<Longrightarrow> take 512 (drop (512 * i) (slice img 0 IMAGE_BYTES)) = image_block img i"
  by (rule nth_equalityI) (auto simp: image_block_def IMAGE_BYTES_def DISK_BLOCKS_def)

lemma read_back:
  assumes "length bs < 2048"
  shows "\<exists>rest. mem_read (mem_write m a bs) a 2048 = bs @ rest \<and> length (bs @ rest) = 2048"
proof -
  have "mem_read (mem_write m a bs) a (length bs + (2048 - length bs))
      = bs @ mem_read (mem_write m a bs) (a + of_nat (length bs)) (2048 - length bs)"
    unfolding mem_read_add using assms by (simp add: mem_read_write_same)
  with assms show ?thesis by auto
qed

lemma shell_names_agree:
  "parent_cluster_number shell_request = parent_cluster_number (inserter_request env n (ascii ''shell'') (ascii ''2''))"
  "req_identifier shell_request = req_identifier (inserter_request env n (ascii ''shell'') (ascii ''2''))"
  by (simp_all add: shell_request_def inserter_request_def scan_shell req_identifier_def ROOT_CLUSTER_NUMBER_def
      numeral_3_eq_3)

section \<open>Property\<close>

text \<open>
  C14. A shell of fewer than 2048 bytes gets from the host to the program memory: the inserter, run as the
  makefile runs it on a storage that is not formatted, reports success; and on any ATA disk that holds the
  image it wrote, the kernel's file system finds the formatted storage and reading \<open>shell\<close>, as
  \<open>kernel_setup\<close> does, stores the bytes of the host file at address 0.
\<close>

theorem inserted_shell_loads:
  assumes "ata_disk io view data_request patience" and "disk_ready (view (dev s0))"
    and "length argv = 4" "argv ! 1 = ascii ''shell''" "argv ! 2 = ascii ''2''"
    and "files (argv ! 3) = Some img" "512 \<le> length img" "take 512 img \<noteq> fs_signature"
    and "files (argv ! 1) = Some bs" "0 < length bs" "length bs < 2048"
    and "inserter_main env files argv = Finished msg out"
    and "\<forall>i<DISK_BLOCKS. sectors (view (dev s0)) i = take 512 (drop (512 * i) out)"
  shows "msg = ''Write success'' \<and> length out = IMAGE_BYTES
    \<and> (\<exists>s s' rest. initialize_filesystem_fat32 (ata_ops io) s0 = Some s
        \<and> read_fat32 (ata_ops io) shell_request (s\<lparr>mem := m\<rparr>) = Some (0, s')
        \<and> mem s' = mem_write m 0 (bs @ rest) \<and> length (bs @ rest) = CLUSTER_SIZE)"
proof -
  let ?r = "inserter_request env (length bs) (ascii ''shell'') (ascii ''2'')"
  note bd = ata_disk.provides_blocks [OF assms(1)]
  from insert_shell_run [OF assms(3-11), of env] assms(12) obtain s1 s2 where
    out: "msg = ''Write success''" "out = slice (dev s2) 0 IMAGE_BYTES"
    and m1: "mem s1 = mem_write (host_memory env) (buffer_address env) bs" and f: "fresh_storage (fat_table s1) (disk s1)"
    and sig: "image_block (dev s2) 0 = fs_signature"
    and D2: "\<forall>k<2048. disk s2 k = written_disk ?r fresh_fat (mem s1) (disk s1) k" by auto
  have sec: "sectors (view (dev s0)) i = image_block (dev s2) i" if "i < DISK_BLOCKS" for i
    using assms(13) that slice_block [OF that, of "dev s2"] by (simp add: out(2))
  have "cluster_of (sectors (view (dev s0))) k = disk s2 k" if "k < 2048" for k
    by (rule cluster_of_cong) (use that in \<open>simp add: sec DISK_BLOCKS_def\<close>)
  with D2 have D0: "\<forall>k<2048. cluster_of (sectors (view (dev s0))) k = written_disk ?r fresh_fat (mem s1) (disk s1) k" by simp
  have sig0: "sectors (view (dev s0)) 0 = fs_signature" using sec [of 0] sig by (simp add: DISK_BLOCKS_def)
  have r: "request_ok ?r" "parent_cluster_number ?r = 2" "clusters_written ?r = 1" "buffer_size ?r \<noteq> 0" "buf ?r = buffer_address env"
    using assms(10,11) by (simp_all add: inserter_request_def request_ok_def scan_shell clusters_written_def CLUSTER_SIZE_def
        unat_of_nat_u32 word_unat_eq_iff)
  note tree = fresh_tree [OF f] and t = fresh_parent [OF f r(2)]
  have fat: "fat_table s1 = fresh_fat" using f by (simp add: fresh_storage_def)
  have fs: "fs_ok fresh_fat (disk s1)" using tree_fs_ok [OF tree] by (simp add: fat)
  have "write_code ?r fresh_fat (parent_table (disk s1) ?r) = 0" by (simp add: t root_write_code r)
  moreover have "parent_ok fresh_fat (disk s1) (parent_cluster_number ?r)"
    using tree_parent_ok [OF tree, of "parent_cluster_number ?r"] by (simp add: r fat)
  ultimately have res: "write_result ?r fresh_fat (disk s1) = 0" by (simp add: write_result_def)
  have tok: "table_ok (parent_table (disk s1) ?r)" by (simp add: t root_directory_table_ok)
  have attr: "attribute (parent_table (disk s1) ?r ! the (find_empty_slot (parent_table (disk s1) ?r))) \<noteq> ATTR_SUBDIRECTORY"
    by (simp add: t root_find root_slot zero_entry_def ATTR_SUBDIRECTORY_def)
  have size: "of_nat (clusters_written ?r * CLUSTER_SIZE) \<le> buffer_size shell_request"
    by (simp add: r(3) CLUSTER_SIZE_def shell_request_def)
  from block_device.initialize_and_read [OF bd assms(2) sig0 fs r(1) res tok r(4) attr D0 shell_names_agree size, of m]
  obtain s s' where s: "initialize_filesystem_fat32 (ata_ops io) s0 = Some s"
    "read_fat32 (ata_ops io) shell_request (s\<lparr>mem := m\<rparr>) = Some (0, s')"
    "mem s' = mem_write m (buf shell_request) (stored_bytes ?r (mem s1))" by blast
  have "stored_bytes ?r (mem s1) = mem_read (mem s1) (buffer_address env) 2048"
    by (simp add: stored_bytes_single r CLUSTER_SIZE_def)
  with read_back [OF assms(11), of "host_memory env" "buffer_address env"] m1 obtain rest where
    "stored_bytes ?r (mem s1) = bs @ rest" "length (bs @ rest) = 2048" by auto
  with s out show ?thesis by (auto simp: shell_request_def CLUSTER_SIZE_def)
qed

text \<open>A shell of two bytes, inserted into 512 zero bytes.\<close>

definition host_files :: "u8 list \<Rightarrow> u8 list option" where
  "host_files f = Some (if f = ascii ''shell'' then [0x90, 0xC3] else replicate 512 0)"

definition host_args :: "u8 list list" where
  "host_args = map ascii [''inserter'', ''shell'', ''2'', ''storage.bin'']"

definition host_env :: inserter_env where
  "host_env = \<lparr>buffer_address = 0x10000, host_memory = (\<lambda>_. 0), image_junk = (\<lambda>_. 0)\<rparr>"

lemma host_example:
  "length host_args = 4" "host_args ! 1 = ascii ''shell''" "host_args ! 2 = ascii ''2''"
  "host_files (host_args ! 3) = Some (replicate 512 0)" "512 \<le> length (replicate 512 (0 :: u8))"
  "take 512 (replicate 512 0) \<noteq> fs_signature" "host_files (host_args ! 1) = Some [0x90, 0xC3]"
  "0 < length [0x90, 0xC3 :: u8]" "length [0x90, 0xC3 :: u8] < 2048"
proof -
  have "fs_signature ! 0 \<noteq> 0" by (simp add: fs_signature_def ascii_def)
  then have "fs_signature \<noteq> replicate 512 0" by (auto dest: arg_cong [where f = "\<lambda>l. l ! 0"])
  then show "take 512 (replicate 512 0) \<noteq> fs_signature" by auto
qed (simp_all add: host_args_def host_files_def ascii_def)

theorem inserted_shell_loads_witness:
  "\<exists>out p s s' rest. inserter_main host_env host_files host_args = Finished ''Write success'' out
    \<and> initialize_filesystem_fat32 (ata_ops slow_io) (zero_storage\<lparr>dev := p\<rparr>) = Some s
    \<and> read_fat32 (ata_ops slow_io) shell_request s = Some (0, s')
    \<and> mem s' = mem_write (mem s) 0 ([0x90, 0xC3] @ rest)"
proof -
  from insert_shell_run [OF host_example, of host_env] obtain t :: "image fs_state" where
    run: "inserter_main host_env host_files host_args = Finished ''Write success'' (slice (dev t) 0 IMAGE_BYTES)" by blast
  let ?out = "slice (dev (t :: image fs_state)) 0 IMAGE_BYTES"
  let ?p = "zero_disk\<lparr>drive_state := (drive_state zero_disk)\<lparr>sectors := (\<lambda>i. take 512 (drop (512 * i) ?out))\<rparr>\<rparr>"
  let ?s = "zero_storage\<lparr>dev := ?p\<rparr>"
  have "length (take 512 (drop (512 * i) ?out)) = 512" if "i < DISK_BLOCKS" for i
    using that by (simp add: slice_block image_block_def)
  then have ready: "disk_ready (drive_state (dev ?s))" by (simp add: disk_ready_def zero_disk_def)
  have "\<forall>i<DISK_BLOCKS. sectors (drive_state (dev ?s)) i = take 512 (drop (512 * i) ?out)" by simp
  note loads = inserted_shell_loads [where env = host_env, OF slow.ata_disk_axioms ready host_example run this]
  from loads [of "\<lambda>_. 0"] obtain s where s: "initialize_filesystem_fat32 (ata_ops slow_io) ?s = Some s" by blast
  from loads [of "mem s"] s obtain s' rest where
    "read_fat32 (ata_ops slow_io) shell_request s = Some (0, s')" "mem s' = mem_write (mem s) 0 ([0x90, 0xC3] @ rest)" by auto
  with run s show ?thesis by blast
qed

end
