(* ===== verification/Kernel_Runs.thy ===== *)
theory Kernel_Runs imports Boot begin

text \<open>
  The running kernel as a transition system: \<open>kernel_setup\<close> on an unformatted disk, then any sequence of
  interrupts, system calls and changes of the user's memory.
\<close>

inductive kernel_reach :: "'p port_ops \<Rightarrow> ('p \<Rightarrow> ata) \<Rightarrow> 'p kernel_state \<Rightarrow> nat set \<Rightarrow> bool" for io view where
  boot: "disk_ready (view (dev s0)) \<Longrightarrow> sectors (view (dev s0)) 0 \<noteq> fs_signature \<Longrightarrow>
    kernel_setup env io (boot_start s0) = Some b \<Longrightarrow> kernel_reach io view (kern b) {2}"
| user: "kernel_reach io view k S \<Longrightarrow> kernel_reach io view (with_mem m k) S"
| interrupted: "kernel_reach io view k S \<Longrightarrow> kernel_reach io view (interrupt io frame k) S"
| called: "kernel_reach io view k S \<Longrightarrow> allowed view frame k S \<Longrightarrow> syscall (ata_ops io) frame k = Some k' \<Longrightarrow>
    kernel_reach io view k' (call_dirs view frame k S)"

context machine
begin

lemma reach_ok: "kernel_reach io view k S \<Longrightarrow> kernel_ok view k S"
proof (induction rule: kernel_reach.induct)
  case (boot s0 env b)
  have "(4096 :: u32) \<le> 4096" by simp
  from kernel_setup_run [OF boot(1,2) this] boot(3) show ?case by (metis option.inject)
next
  case (user k S m)
  then show ?case by (simp add: kernel_ok_def with_mem_def)
next
  case (called k S frame k')
  with call_returns [of k S frame] show ?case by auto
qed (rule interrupt_ok)

end

section \<open>Properties\<close>

text \<open>
  C2. After \<open>kernel_setup\<close> on an unformatted disk and any sequence of keyboard interrupts, other interrupts,
  changes of the user's memory and allowed system calls, the file system on the kernel's own disk is
  well-formed, the disk is ready for the next command, and the cursor is on the screen.
\<close>

theorem kernel_runs_well_formed:
  assumes "machine io view data_request patience" and "kernel_reach io view k S"
  shows "kernel_ok view k S"
  using machine.reach_ok [OF assms] .

text \<open>The kernel booted on a disk of zeros.\<close>

definition booted :: "slow_disk kernel_state" where
  "booted = kern (the (kernel_setup example_env slow_io (boot_start zero_storage)))"

lemma booted_setup:
  "kernel_setup example_env slow_io (boot_start zero_storage) = Some (the (kernel_setup example_env slow_io (boot_start zero_storage)))"
proof -
  have "(4096 :: u32) \<le> 4096" by simp
  from machine.kernel_setup_run [OF slow_machine.machine_axioms zero_storage_ready this, of example_env]
  obtain b where "kernel_setup example_env slow_io (boot_start zero_storage) = Some b" by blast
  then show ?thesis by simp
qed

lemma booted_reach: "kernel_reach slow_io drive_state booted {2}"
  unfolding booted_def by (rule boot) (rule zero_storage_ready booted_setup)+

theorem kernel_runs_well_formed_witness: "kernel_ok drive_state booted {2}"
  using kernel_runs_well_formed [OF slow_machine.machine_axioms booted_reach] .

text \<open>
  C20. In every state of such a run every allowed system call returns, and the four file calls, \<open>read\<close>,
  \<open>read_directory\<close>, \<open>write\<close> and \<open>delete\<close>, store the code computed from the parent directory at the address in
  \<open>ecx\<close>. A file call is allowed when it names a directory of the tree, and a \<open>write\<close> when it follows the caller
  protocol \<open>good_write\<close>; every other call is allowed.
\<close>

theorem system_calls_return:
  assumes "machine io view data_request patience" and "kernel_reach io view k S" and "allowed view frame k S"
  shows "\<exists>k'. syscall (ata_ops io) frame k = Some k' \<and> kernel_ok view k' (call_dirs view frame k S)
    \<and> (call_number frame < 4 \<longrightarrow> kernel_mem k' (ecx (general (cpu frame))) = of_int (call_result view frame k))"
  using machine.call_returns [OF assms(1) machine.reach_ok [OF assms(1,2)] assms(3)] .

text \<open>A program asks for a listing with a buffer of 100 bytes: -1 is stored at 0x9100.\<close>

theorem system_calls_return_witness:
  "\<exists>k'. syscall (ata_ops slow_io) (call_frame 1 0x9000 0x9100 0)
      (with_mem (mem_write (\<lambda>_. 0) 0x9000 (encode_request hello)) booted) = Some k'
    \<and> kernel_ok drive_state k' {2} \<and> kernel_mem k' 0x9100 = 255"
proof -
  let ?f = "call_frame 1 0x9000 0x9100 0" and ?k = "with_mem (mem_write (\<lambda>_. 0) 0x9000 (encode_request hello)) booted"
  have r: "call_request ?f ?k = hello"
    by (simp add: call_frame_def with_mem_def decode_encode_request hello_ok)
  have "allowed drive_state ?f ?k {2}" unfolding allowed_def r by (simp add: call_frame_def hello_ok)
  note run = system_calls_return [OF slow_machine.machine_axioms user [OF booted_reach] this]
  have "buffer_size hello \<noteq> of_nat CLUSTER_SIZE" by (simp add: hello_ok CLUSTER_SIZE_def)
  then have c: "call_result drive_state ?f ?k = -1" "call_dirs drive_state ?f ?k {2} = {2}"
    unfolding call_result_def call_dirs_def r by (simp_all add: call_frame_def Let_def)
  from run show ?thesis unfolding c by (auto simp: call_frame_def)
qed

end
