(* ===== verification/Fat_Types.thy ===== *)
theory Fat_Types imports Fat_Driver begin

text \<open>
  The types of the driver's state. The C structures have fixed sizes: the cached FAT holds 512 words and
  the directory table buffer 64 entries with names of 8 and extensions of 3 bytes. The model's lists
  keep these sizes through every operation, on any device that satisfies \<open>sized_device\<close> and whatever
  is stored on it: a corrupted disk can change what the driver does, not the shape of its state.
\<close>

definition driver_typed :: "'d fs_state \<Rightarrow> bool" where
  "driver_typed s \<longleftrightarrow> length (fat_table s) = CLUSTER_MAP_SIZE \<and> table_ok (dir_table_buf s)"

lemma driver_typed_upd [simp]:
  "driver_typed (s\<lparr>mem := m\<rparr>) = driver_typed s" "driver_typed (s\<lparr>dev := d\<rparr>) = driver_typed s"
  "driver_typed (s\<lparr>cluster_buf := b\<rparr>) = driver_typed s"
  by (simp_all add: driver_typed_def)

lemma driver_typed_fat: "driver_typed s \<Longrightarrow> length f = CLUSTER_MAP_SIZE \<Longrightarrow> driver_typed (s\<lparr>fat_table := f\<rparr>)"
  by (simp add: driver_typed_def)

lemma driver_typed_dir: "driver_typed s \<Longrightarrow> table_ok t \<Longrightarrow> driver_typed (s\<lparr>dir_table_buf := t\<rparr>)"
  by (simp add: driver_typed_def)

lemma driver_typedD: "driver_typed s \<Longrightarrow> length (fat_table s) = CLUSTER_MAP_SIZE" "driver_typed s \<Longrightarrow> table_ok (dir_table_buf s)"
  by (simp_all add: driver_typed_def)

text \<open>Updates of one entry.\<close>

lemma table_ok_upd: "table_ok t \<Longrightarrow> (i < DIR_ENTRIES \<Longrightarrow> entry_ok (t ! i) \<Longrightarrow> entry_ok e) \<Longrightarrow> table_ok (t[i := e])"
  by (cases "i < DIR_ENTRIES") (auto simp: table_ok_def list_update_beyond dest!: set_update_subset_insert [THEN subsetD])

lemma entry_ok_upd [simp]:
  "entry_ok (e\<lparr>filesize := n\<rparr>) = entry_ok e" "entry_ok (e\<lparr>user_attribute := u\<rparr>) = entry_ok e"
  "entry_ok (set_entry_cluster c e) = entry_ok e"
  by (simp_all add: entry_ok_def)

lemma entry_ok_add: "request_ok r \<Longrightarrow> entry_ok (add_entry r e)"
  by (simp add: entry_ok_def add_entry_def request_ok_def Let_def)

text \<open>
  The write loop changes the state in three ways: the first cluster of the new entry, a link of the
  FAT, and the device. Whatever these keep, the loop keeps.
\<close>

lemma write_loop_keeps:
  assumes "write_loop ops r slot count i f p s = Some (j, f', s')" and "P s"
    and dir: "\<And>s g. P s \<Longrightarrow> P (s\<lparr>dir_table_buf := (dir_table_buf s)[slot := set_entry_cluster (of_nat g) (dir_table_buf s ! slot)]\<rparr>)"
    and fat: "\<And>s p g. P s \<Longrightarrow> P (s\<lparr>fat_table := (fat_table s)[p := of_nat g]\<rparr>)" and dev: "\<And>s d. P s \<Longrightarrow> P (s\<lparr>dev := d\<rparr>)"
  shows "P s'"
  using assms(1,2)
proof (induction "count - i" arbitrary: i f p s)
  case (0 i f p s)
  then show ?case
    by (subst (asm) write_loop.simps) (auto simp: Let_def intro!: dir fat dev split: bind_splits if_splits)
next
  case (Suc n i f p s)
  from Suc.prems(1) obtain g d where g: "next_free (fat_table s) f = Some g"
    and w: "write_clusters ops (mem_read (mem s) (buf r + of_nat (i * CLUSTER_SIZE)) CLUSTER_SIZE) (of_nat g) 1 (dev s) = Some d"
    by (subst (asm) write_loop.simps) (auto simp: Let_def split: bind_splits if_splits)
  let ?t = "if i = 0
    then s\<lparr>dir_table_buf := (dir_table_buf s)[slot := set_entry_cluster (of_nat g) (dir_table_buf s ! slot)]\<rparr>
    else s\<lparr>fat_table := (fat_table s)[p := of_nat g]\<rparr>"
  have step: "write_loop ops r slot count i f p s
      = (if Suc i < count then write_loop ops r slot count (Suc i) g g (?t\<lparr>dev := d\<rparr>) else Some (Suc i, g, ?t\<lparr>dev := d\<rparr>))"
    using g w by (subst write_loop.simps) (auto simp: Let_def)
  have P: "P (?t\<lparr>dev := d\<rparr>)" using Suc.prems(2) by (auto intro: dir fat dev)
  show ?case
  proof (cases "Suc i < count")
    case True
    with step Suc.prems(1) have "write_loop ops r slot count (Suc i) g g (?t\<lparr>dev := d\<rparr>) = Some (j, f', s')" by simp
    moreover have "n = count - Suc i" using Suc.hyps(2) by simp
    ultimately show ?thesis using Suc.hyps(1) P by blast
  qed (use step Suc.prems(1) P in auto)
qed

lemma write_loop_typed: "write_loop ops r slot count i f p s = Some (j, f', s') \<Longrightarrow> driver_typed s \<Longrightarrow> driver_typed s'"
  by (rule write_loop_keeps [where P = driver_typed])
    (auto simp: driver_typedD intro!: driver_typed_dir driver_typed_fat table_ok_upd)

text \<open>Writing a file reads the caller's memory and does not change it.\<close>

lemma write_fat32_memory: "write_fat32 ops r s = Some (c, s') \<Longrightarrow> mem s' = mem s"
proof -
  have "mem s' = m" if "write_loop ops r slot count i f p s = Some (j, f', s')" and "mem s = m" for slot count i f p s j f' s' m
    by (rule write_loop_keeps [where P = "\<lambda>s. mem s = m", OF that]) simp_all
  then show "write_fat32 ops r s = Some (c, s') \<Longrightarrow> mem s' = mem s"
    by (auto simp: write_fat32_def open_parent_def load_directory_table_def Let_def split: bind_splits if_splits option.splits)
qed

lemma write_fat32_codes: "write_fat32 ops r s = Some (c, s') \<Longrightarrow> c = -1 \<or> c = 0 \<or> c = 1 \<or> c = 2"
  by (auto simp: write_fat32_def Let_def split: bind_splits if_splits option.splits)

lemma free_chain_length: "free_chain fat c n = Some fat' \<Longrightarrow> length fat' = length fat"
  by (rule free_chain.raw_induct [where P = "\<lambda>fat c n fat'. length fat' = length fat"])
    (auto simp: Let_def split: if_splits bind_splits)

context sized_device
begin

lemma read_cluster_full:
  assumes "read_clusters ops c 1 d = Some (bs, d')"
  shows "length bs = CLUSTER_SIZE"
proof -
  from assms obtain b where "read_blocks_op ops (cluster_to_lba c) 4 d = Some (b, d')" and "bs = take CLUSTER_SIZE b"
    by (auto simp: read_clusters_def CLUSTER_BLOCK_COUNT_def split: bind_splits)
  with read_full [of "cluster_to_lba c" 4 d b d'] show ?thesis by (simp add: CLUSTER_SIZE_def)
qed

lemma load_directory_typed: "load_directory_table ops c s = Some s' \<Longrightarrow> driver_typed s \<Longrightarrow> driver_typed s'"
  by (auto simp: load_directory_table_def split: bind_splits
      intro!: driver_typed_dir table_ok_decode dest: read_cluster_full)

lemma open_parent_typed: "open_parent ops c s = Some (b, s') \<Longrightarrow> driver_typed s \<Longrightarrow> driver_typed s'"
  by (auto simp: open_parent_def split: bind_splits if_splits dest: load_directory_typed)

lemma initialize_typed: "initialize_filesystem_fat32 ops s = Some s' \<Longrightarrow> driver_typed s'"
  by (auto simp: initialize_filesystem_fat32_def load_fat_def load_directory_table_def driver_typed_def
      split: bind_splits intro!: table_ok_decode dest!: read_cluster_full)

lemma read_chain_typed: "read_chain ops p c s = Some s' \<Longrightarrow> driver_typed s \<Longrightarrow> driver_typed s'"
  by (rule read_chain.raw_induct [where P = "\<lambda>ops p c s s'. driver_typed s \<longrightarrow> driver_typed s'", THEN mp])
    (auto simp: Let_def split: bind_splits if_splits)

lemma occupied_typed: "directory_occupied ops i s = Some (b, s') \<Longrightarrow> driver_typed s \<Longrightarrow> driver_typed s'"
  by (auto simp: directory_occupied_def split: bind_splits if_splits dest: load_directory_typed)

text \<open>The four operations: the state keeps its type, and the code is one of those documented.\<close>

lemma read_typed:
  assumes "read_fat32 ops r s = Some (c, s')" and "driver_typed s"
  shows "driver_typed s' \<and> c \<in> {-1, 0, 1, 2, 3}"
  using assms by (auto simp: read_fat32_def split: bind_splits if_splits option.splits
      dest!: open_parent_typed read_chain_typed)

lemma read_directory_typed:
  assumes "read_directory ops r s = Some (c, s')" and "driver_typed s"
  shows "driver_typed s' \<and> c \<in> {-1, 0, 1, 2}"
  using assms by (auto simp: read_directory_def split: bind_splits if_splits option.splits dest!: open_parent_typed)

lemma write_typed:
  assumes "write_fat32 ops r s = Some (c, s')" and "driver_typed s" and "request_ok r"
  shows "driver_typed s' \<and> c \<in> {-1, 0, 1, 2}"
  using assms
  by (auto simp: write_fat32_def Let_def split: bind_splits if_splits option.splits
      dest!: open_parent_typed write_loop_typed
      intro!: driver_typed_dir driver_typed_fat table_ok_upd entry_ok_add simp: driver_typedD)

lemma delete_typed:
  assumes "delete_fat32 ops r s = Some (c, s')" and "driver_typed s"
  shows "driver_typed s' \<and> c \<in> {-1, 0, 1, 2}"
  using assms
  by (auto simp: delete_fat32_def Let_def split: bind_splits if_splits option.splits
      dest!: open_parent_typed occupied_typed load_directory_typed free_chain_length
      intro!: driver_typed_dir driver_typed_fat table_ok_upd simp: driver_typedD)

end

end
