(* ===== verification/Kernel_Types.thy ===== *)
theory Kernel_Types imports Kernel_Runs Fat_Types begin

text \<open>
  Type safety of the kernel's state on arbitrary hardware: no law of the disk is assumed, the contents of
  the disk and of the memory may change at any moment, and any system call may be made with any request.
\<close>

inductive hardware_reach :: "'p port_ops \<Rightarrow> 'p kernel_state \<Rightarrow> bool" for io where
  power_on: "kernel_setup env io (boot_start s0) = Some b \<Longrightarrow> hardware_reach io (kern b)"
| memory_change: "hardware_reach io k \<Longrightarrow> hardware_reach io (with_mem m k)"
| device_change: "hardware_reach io k \<Longrightarrow> hardware_reach io (k\<lparr>storage := (storage k)\<lparr>dev := p\<rparr>\<rparr>)"
| interrupted: "hardware_reach io k \<Longrightarrow> hardware_reach io (interrupt io frame k)"
| called: "hardware_reach io k \<Longrightarrow> syscall (ata_ops io) frame k = Some k' \<Longrightarrow> hardware_reach io k'"

definition kernel_typed :: "'p kernel_state \<Rightarrow> bool" where
  "kernel_typed k \<longleftrightarrow> driver_typed (storage k) \<and> on_screen (screen k)"

lemma kernel_typed_upd [simp]:
  "kernel_typed (with_mem m k) = kernel_typed k" "kernel_typed (k\<lparr>keyboard := kb\<rparr>) = kernel_typed k"
  "kernel_typed (k\<lparr>storage := (storage k)\<lparr>dev := p\<rparr>\<rparr>) = kernel_typed k"
  "kernel_typed (interrupt io frame k) = kernel_typed k"
  by (simp_all add: kernel_typed_def with_mem_def interrupt_def Let_def split: prod.split)

text \<open>The operations on the ATA driver, with any devices behind the ports.\<close>

lemmas ata_typed =
  sized_device.read_typed [OF ata_sized.sized_device_axioms]
  sized_device.read_directory_typed [OF ata_sized.sized_device_axioms]
  sized_device.write_typed [OF ata_sized.sized_device_axioms]
  sized_device.delete_typed [OF ata_sized.sized_device_axioms]

lemma file_call_typed:
  assumes "file_call operation g k = Some k'" and "kernel_typed k"
    and "\<And>r c s'. request_ok r \<Longrightarrow> operation r (storage k) = Some (c, s') \<Longrightarrow> driver_typed s' \<and> c \<in> {-1, 0, 1, 2, 3}"
  shows "kernel_typed k' \<and> sint (kernel_mem k' (ecx g)) \<in> {-1, 0, 1, 2, 3}"
proof -
  from assms(1) obtain c s' where "operation (decode_request (kernel_mem k) (ebx g)) (storage k) = Some (c, s')"
    and k': "k' = k\<lparr>storage := s'\<lparr>mem := (mem s')(ecx g := of_int c)\<rparr>\<rparr>"
    by (auto simp: file_call_def split: bind_splits)
  with assms(3) decode_request_ok have "driver_typed s'" "c \<in> {-1, 0, 1, 2, 3}" by blast+
  with k' assms(2) show ?thesis by (auto simp: kernel_typed_def)
qed

lemma syscall_typed:
  assumes call: "syscall (ata_ops io) frame k = Some k'" and k: "kernel_typed k"
  shows "kernel_typed k' \<and> (call_number frame < 4 \<longrightarrow> sint (kernel_mem k' (ecx (general (cpu frame)))) \<in> {-1, 0, 1, 2, 3})"
proof -
  let ?g = "general (cpu frame)"
  note s = k [unfolded kernel_typed_def, THEN conjunct1] and t = k [unfolded kernel_typed_def, THEN conjunct2]
  have file_op: "kernel_typed k' \<and> sint (kernel_mem k' (ecx ?g)) \<in> {-1, 0, 1, 2, 3}"
    if "file_call operation ?g k = Some k'"
      and "operation \<in> {read_fat32 (ata_ops io), read_directory (ata_ops io), write_fat32 (ata_ops io), delete_fat32 (ata_ops io)}"
    for operation
    by (rule file_call_typed [OF that(1) k]) (use that(2) s in \<open>auto dest: ata_typed\<close>)
  consider "eax ?g = 0" | "eax ?g = 1" | "eax ?g = 2" | "eax ?g = 3" | "eax ?g = 4" | "eax ?g = 5" | "eax ?g = 6"
    | "eax ?g \<notin> {0, 1, 2, 3, 4, 5, 6}" by auto
  then show ?thesis
  proof cases
    case 6
    with call k putc_position [OF t, of "ucast (ebx ?g)" "ecx ?g" "kernel_mem k"] show ?thesis
      by (auto simp: syscall_def kernel_typed_def with_mem_def Let_def split: prod.splits)
  next
    case 7
    with call k puts_on_screen [OF t, of "ebx ?g" "ecx ?g" "edx ?g" "kernel_mem k"] show ?thesis
      by (auto simp: syscall_def kernel_typed_def with_mem_def Let_def split: prod.splits)
  next
    case 8
    then have "\<not> eax ?g < 4"
    proof -
      have "x = 0 \<or> x = 1 \<or> x = 2 \<or> x = 3" if "x < 4" for x :: u32
      proof -
        from that have "unat x < 4" by (simp add: word_less_nat_alt)
        then have "unat x = 0 \<or> unat x = 1 \<or> unat x = 2 \<or> unat x = 3" by linarith
        then show ?thesis by (simp add: word_unat_eq_iff)
      qed
      with 8 show ?thesis by auto
    qed
    with 8 call k show ?thesis by (auto simp: syscall_def Let_def split: if_splits)
  qed (use call k file_op in \<open>auto simp: syscall_def Let_def split: prod.splits\<close>)
qed

text \<open>The boot: the first load of the FAT and of the root directory gives the driver's state its type.\<close>

lemma storage_on [simp]:
  "driver_typed (storage (kern (on_memory f b))) = driver_typed (storage (kern b))"
  "screen (kern (on_memory f b)) = screen (kern b)"
  "driver_typed (storage (kern (on_ports g b))) = driver_typed (storage (kern b))"
  "screen (kern (on_ports g b)) = screen (kern b)"
  by (simp_all add: on_memory_def on_ports_def)

lemma first_page_typed [simp]:
  "driver_typed (storage (kern (allocate_first_page env b))) = driver_typed (storage (kern b))"
  "screen (kern (allocate_first_page env b)) = screen (kern b)"
  by (simp_all add: allocate_first_page_def Let_def split: prod.split)

lemma file_step_typed:
  assumes "file_step operation b = Some b'" and "driver_typed (storage (kern b))"
    and "\<And>c s'. operation (storage (kern b)) = Some (c, s') \<Longrightarrow> driver_typed s'"
  shows "driver_typed (storage (kern b')) \<and> screen (kern b') = screen (kern b)"
  using assms by (auto simp: file_step_def)

lemma setup_files_typed:
  assumes "setup_files env io b = Some b'" and b: "driver_typed (storage (kern b))"
  shows "driver_typed (storage (kern b')) \<and> screen (kern b') = screen (kern b)"
proof -
  let ?w = "\<lambda>r. write_fat32 (ata_ops io) r"
  have req: "request_ok (kaikai_request env)" "request_ok (lain_request env)"
    by (simp_all add: request_ok_def kaikai_request_def lain_request_def shell_request_def ascii_def)
  from assms(1) obtain b1 b2 where
    1: "file_step (read_fat32 (ata_ops io) shell_request) b = Some b1"
    and 2: "file_step (?w (kaikai_request env)) (on_memory (\<lambda>m. memcpy m (cbuf_address env) (lol_address env) 132) b1) = Some b2"
    and 3: "file_step (?w (lain_request env)) (on_memory (\<lambda>m. memcpy m (cbuf_address env) (text_address env) 20) b2) = Some b'"
    by (auto simp: setup_files_def Let_def split: bind_splits)
  have t1: "driver_typed (storage (kern b1)) \<and> screen (kern b1) = screen (kern b)"
    by (rule file_step_typed [OF 1 b]) (use b in \<open>auto dest: ata_typed\<close>)
  then have t2: "driver_typed (storage (kern b2)) \<and> screen (kern b2) = screen (kern b)"
    using file_step_typed [OF 2] req ata_typed(3) by force
  then show ?thesis using file_step_typed [OF 3] req ata_typed(3) by force
qed

lemma kernel_setup_typed:
  assumes "kernel_setup env io (boot_start s0) = Some b"
  shows "kernel_typed (kern b)"
proof -
  let ?b = "setup_devices env io (boot_start s0)"
  have scr: "screen (kern ?b) = screen_at_start" by (simp add: setup_devices_def Let_def boot_start_def)
  from assms obtain s b1 where i: "initialize_filesystem_fat32 (ata_ops io) (storage (kern ?b)) = Some s"
    and f: "setup_files env io (allocate_first_page env ((on_storage (\<lambda>_. s) ?b)
       \<lparr>gdt := gdt_install_tss (tss_address env) (gdt ?b), task_register := GDT_TSS_SELECTOR\<rparr>)) = Some b1"
    and b: "kern b = kern b1"
    by (auto simp: kernel_setup_def Let_def split: bind_splits)
  have "driver_typed s" using sized_device.initialize_typed [OF ata_sized.sized_device_axioms i] .
  with setup_files_typed [OF f] scr b show ?thesis
    by (simp add: kernel_typed_def screen_at_start_def on_screen_def)
qed

lemma hardware_reach_typed: "hardware_reach io k \<Longrightarrow> kernel_typed k"
  by (induction rule: hardware_reach.induct) (auto dest: kernel_setup_typed syscall_typed)

text \<open>
  C7. The state keeps its type on any hardware: after \<open>kernel_setup\<close> and any sequence of interrupts, system calls
  with any registers and requests, changes of the memory and changes of the devices and of the disk,
  the cached FAT has 512 words, the directory buffer 64 entries with names of 8 and extensions of 3
  bytes, and the cursor is on the screen. A file call that returns stores one of the codes -1, 0, 1, 2, 3.
\<close>

theorem kernel_state_typed:
  assumes "hardware_reach io k"
  shows "length (fat_table (storage k)) = CLUSTER_MAP_SIZE \<and> table_ok (dir_table_buf (storage k)) \<and> on_screen (screen k)
    \<and> (\<forall>frame k'. syscall (ata_ops io) frame k = Some k' \<longrightarrow> call_number frame < 4
         \<longrightarrow> sint (kernel_mem k' (ecx (general (cpu frame)))) \<in> {-1, 0, 1, 2, 3})"
  using hardware_reach_typed [OF assms] syscall_typed [of io _ k]
  by (auto simp: kernel_typed_def driver_typed_def)

text \<open>The kernel booted on a disk of zeros, after the disk's contents were replaced.\<close>

theorem kernel_state_typed_witness:
  "length (fat_table (storage (booted\<lparr>storage := (storage booted)\<lparr>dev := zero_disk\<rparr>\<rparr>))) = CLUSTER_MAP_SIZE"
proof -
  have "hardware_reach slow_io booted" unfolding booted_def
    by (rule hardware_reach.power_on) (rule booted_setup)
  from kernel_state_typed [OF hardware_reach.device_change [OF this]] show ?thesis by blast
qed

end
