(* ===== verification/Shell_Calls.thy ===== *)
theory Shell_Calls imports Syscall Fat_Types begin

text \<open>
  What the shell commands of \<open>src/ch2/user-shell\<close> share: their surroundings, printing, and the system
  calls as their client sees them. The header \<open>user-shell.h\<close> and the functions of \<open>user-shell.c\<close> that
  the commands call are commented out in the repository: \<open>syscalls\<close>, \<open>findEntry\<close>,
  \<open>updateDirectoryTable\<close>, the colours, and the addresses of the globals and of the string literals are
  the parameters of \<open>shell_env\<close>. \<open>puts\<close> and \<open>putc\<close>, which \<open>cd.h\<close> and \<open>ls.h\<close> take from \<open>interrupt.h\<close>, are
  those of \<open>Terminal\<close>. The last section has the two readings of a system call: the interrupt \<open>int 0x30\<close> of the
  commented body, which the kernel ignores, and a call of the kernel's function \<open>syscall\<close>.
\<close>

record 'p shell_env =
  syscalls :: "u32 \<Rightarrow> u32 \<Rightarrow> u32 \<Rightarrow> u32 \<Rightarrow> 'p kernel_state \<Rightarrow> 'p kernel_state option"
  findEntry :: "u32 \<Rightarrow> 'p kernel_state \<Rightarrow> int"
  updateDirectoryTable :: "u32 \<Rightarrow> 'p kernel_state \<Rightarrow> 'p kernel_state option"
  literal :: "string \<Rightarrow> u32"
  current_directory :: u32
  shell_dir_table :: u32
  RED :: u32
  LIGHT_BLUE :: u32

text \<open>A store of bytes, and the reading of an \<open>int\<close>.\<close>

definition poke :: "u32 \<Rightarrow> u8 list \<Rightarrow> 'p kernel_state \<Rightarrow> 'p kernel_state" where
  "poke a bs k = with_mem (mem_write (kernel_mem k) a bs) k"

definition peek32 :: "u32 \<Rightarrow> 'p kernel_state \<Rightarrow> u32" where
  "peek32 a k = of_le32 (mem_read (kernel_mem k) a 4)"

text \<open>\<open>(*(args_info + i))[0]\<close> and \<open>(*(args_info + i))[1]\<close>: start and length of argument \<open>i\<close>.\<close>

definition arg_position :: "u32 \<Rightarrow> nat \<Rightarrow> 'p kernel_state \<Rightarrow> u32" where
  "arg_position args_info i = peek32 (args_info + 8 * of_nat i)"

definition arg_length :: "u32 \<Rightarrow> nat \<Rightarrow> 'p kernel_state \<Rightarrow> u32" where
  "arg_length args_info i = peek32 (args_info + 8 * of_nat i + 4)"

text \<open>A signed \<open>int\<close> below 2^31 is its unsigned value.\<close>

lemma sint_small:
  assumes "unat (w :: u32) < 2 ^ 31"
  shows "sint w = int (unat w)"
proof -
  have "unat w < 2147483648" using assms by simp
  then have i: "int (unat w) < 2147483648" by linarith
  have "sint (word_of_int (int (unat w)) :: u32) = (int (unat w) + 2147483648) mod 4294967296 - 2147483648"
    unfolding int_word_sint by simp
  also have "\<dots> = int (unat w)" using i by (subst mod_pos_pos_trivial) linarith+
  finally show ?thesis by simp
qed

lemma sint_bound: "unat (w :: u32) \<le> n \<Longrightarrow> n < 2 ^ 31 \<Longrightarrow> sint w \<le> int n"
  by (subst sint_small) (simp_all only: of_nat_le_iff order_le_less_trans)

text \<open>\<open>puts\<close> on the state of the kernel, and \<open>syscalls(6, message, strlen(message), RED)\<close>.\<close>

definition shell_puts :: "u32 \<Rightarrow> u32 \<Rightarrow> u32 \<Rightarrow> 'p kernel_state \<Rightarrow> 'p kernel_state" where
  "shell_puts str len color k = (let (t, m) = puts str len color (screen k, kernel_mem k) in with_mem m k\<lparr>screen := t\<rparr>)"

definition shell_putc :: "u8 \<Rightarrow> u32 \<Rightarrow> 'p kernel_state \<Rightarrow> 'p kernel_state" where
  "shell_putc c color k = (let (t, m) = putc c color (screen k, kernel_mem k) in with_mem m k\<lparr>screen := t\<rparr>)"

definition print_message :: "'p shell_env \<Rightarrow> string \<Rightarrow> 'p kernel_state \<Rightarrow> 'p kernel_state option" where
  "print_message env message k = do {
     n \<leftarrow> strlen (kernel_mem k) (literal env message);
     syscalls env 6 (literal env message) n (RED env) k }"

section \<open>Typed text\<close>

text \<open>Typing the bytes \<open>bs\<close>, one after the other.\<close>

definition say :: "u32 \<Rightarrow> u8 list \<Rightarrow> 'p kernel_state \<Rightarrow> 'p kernel_state" where
  "say color bs k = fold (\<lambda>c. shell_putc c color) bs k"

lemma say_Nil [simp]: "say color [] k = k"
  by (simp add: say_def)

lemma say_append: "say color ys (say color xs k) = say color (xs @ ys) k"
  by (simp add: say_def)

lemma with_mem_simps [simp]:
  "storage (with_mem m k) = (storage k)\<lparr>mem := m\<rparr>" "screen (with_mem m k) = screen k" "keyboard (with_mem m k) = keyboard k"
  "with_mem m' (with_mem m k) = with_mem m' k" "with_mem (kernel_mem k) k = k"
  by (simp_all add: with_mem_def)

lemma poke_simps [simp]:
  "kernel_mem (poke a bs k) = mem_write (kernel_mem k) a bs" "screen (poke a bs k) = screen k"
  "keyboard (poke a bs k) = keyboard k" "storage (poke a bs k) = (storage k)\<lparr>mem := mem_write (kernel_mem k) a bs\<rparr>"
  by (simp_all add: poke_def)

text \<open>The two states differ in nothing but the screen and the cursor.\<close>

definition only_screen :: "'p kernel_state \<Rightarrow> 'p kernel_state \<Rightarrow> bool" where
  "only_screen k k' \<longleftrightarrow> on_screen (screen k') \<and> same_outside TEXT_BUFFER (kernel_mem k) (kernel_mem k')
     \<and> k' = with_mem (kernel_mem k') k\<lparr>screen := screen k'\<rparr>"

lemma only_screenD:
  assumes "only_screen k k'"
  shows "on_screen (screen k')" "same_outside TEXT_BUFFER (kernel_mem k) (kernel_mem k')" "keyboard k' = keyboard k"
    "fat_table (storage k') = fat_table (storage k)" "dev (storage k') = dev (storage k)"
proof -
  from assms have *: "k' = with_mem (kernel_mem k') k\<lparr>screen := screen k'\<rparr>" by (simp add: only_screen_def)
  show "keyboard k' = keyboard k" using arg_cong [OF *, of keyboard] by simp
  show "fat_table (storage k') = fat_table (storage k)" using arg_cong [OF *, of "\<lambda>k. fat_table (storage k)"] by simp
  show "dev (storage k') = dev (storage k)" using arg_cong [OF *, of "\<lambda>k. dev (storage k)"] by simp
qed (use assms in \<open>auto simp: only_screen_def\<close>)

lemma only_screen_refl: "on_screen (screen k) \<Longrightarrow> only_screen k k"
  by (simp add: only_screen_def)

lemma only_screen_trans:
  assumes "only_screen k k'" and "only_screen k' k''"
  shows "only_screen k k''"
proof -
  have 1: "k' = with_mem (kernel_mem k') k\<lparr>screen := screen k'\<rparr>" using assms(1) by (simp add: only_screen_def)
  have "k'' = with_mem (kernel_mem k'') k'\<lparr>screen := screen k''\<rparr>" using assms(2) by (simp add: only_screen_def)
  also have "\<dots> = with_mem (kernel_mem k'') k\<lparr>screen := screen k''\<rparr>" by (subst 1) (simp add: with_mem_def)
  finally show ?thesis using assms unfolding only_screen_def by (blast intro: same_outside_trans)
qed

lemma putc_only_screen:
  assumes "on_screen (screen k)"
  shows "only_screen k (shell_putc c color k)"
proof -
  obtain t m where tm: "putc c color (screen k, kernel_mem k) = (t, m)" by fastforce
  with putc_position [OF assms, of c color "kernel_mem k"] putc_outside [OF assms, of "kernel_mem k" c color] show ?thesis
    by (simp add: shell_putc_def only_screen_def with_mem_def)
qed

lemma say_only_screen: "on_screen (screen k) \<Longrightarrow> only_screen k (say color bs k)"
proof (induction bs arbitrary: k)
  case (Cons c bs)
  note step = putc_only_screen [OF Cons.prems, of c color]
  from only_screen_trans [OF step Cons.IH [OF only_screenD(1) [OF step]]] show ?case by (simp add: say_def)
qed (simp add: only_screen_refl)

text \<open>Memory off the screen is not touched by typing.\<close>

lemma only_screen_read:
  assumes "only_screen k k'" and "off_screen a n"
  shows "mem_read (kernel_mem k') a n = mem_read (kernel_mem k) a n"
  by (rule mem_read_cong) (rule off_screen_kept [OF assms(2) only_screenD(2) [OF assms(1)]])

lemma off_screen_mono:
  assumes "off_screen a n" and "i + j \<le> n"
  shows "off_screen (a + of_nat i) j"
  unfolding off_screen_def separate_def
proof (intro allI impI)
  fix l assume "l < j"
  with assms have "4000 \<le> unat (a + of_nat (i + l) - TEXT_BUFFER)" by (simp add: off_screen_def separate_def del: of_nat_add)
  then show "4000 \<le> unat (a + of_nat i + of_nat l - TEXT_BUFFER)" by (simp add: add.assoc)
qed

text \<open>Printing a string that lies off the screen is typing its bytes.\<close>

lemma puts_says:
  assumes "on_screen (screen k)" and "off_screen str (unat len)"
  shows "shell_puts str len color k = say color (mem_read (kernel_mem k) str (unat len)) k"
proof -
  have "fold (\<lambda>i (t, m). putc (m (str + of_nat i)) color (t, m)) [i..<i + j] (screen k, kernel_mem k)
      = (let k' = say color (mem_read (kernel_mem k) (str + of_nat i) j) k in (screen k', kernel_mem k'))"
    if "i + j \<le> unat len" and "on_screen (screen k)" for i j and k :: "'a kernel_state"
    using that
  proof (induction j arbitrary: i k)
    case (Suc j)
    let ?c = "kernel_mem k (str + of_nat i)"
    let ?k = "shell_putc ?c color k"
    note step = putc_only_screen [OF Suc.prems(2), of ?c color]
    have "putc ?c color (screen k, kernel_mem k) = (screen ?k, kernel_mem ?k)"
      by (simp add: shell_putc_def Let_def with_mem_def split: prod.split)
    moreover have "[i..<i + Suc j] = i # [Suc i..<Suc i + j]" by (simp add: upt_conv_Cons del: upt_Suc)
    moreover have "mem_read (kernel_mem k) (str + of_nat i) (Suc j) = ?c # mem_read (kernel_mem ?k) (str + of_nat (Suc i)) j"
    proof -
      have off: "off_screen (str + of_nat (Suc i)) j" by (rule off_screen_mono [OF assms(2)]) (use Suc.prems(1) in simp)
      have "str + of_nat i + 1 = str + of_nat (Suc i)" by simp
      with mem_read_add [of "kernel_mem k" "str + of_nat i" 1 j] show ?thesis
        unfolding only_screen_read [OF step off] by (simp add: mem_read_def)
    qed
    ultimately show ?case
      using Suc.IH [of "Suc i" ?k] Suc.prems(1) only_screenD(1) [OF step] by (simp add: say_def)
  qed simp
  from this [of 0 "unat len" k] assms(1)
  have "puts str len color (screen k, kernel_mem k)
      = (screen (say color (mem_read (kernel_mem k) str (unat len)) k), kernel_mem (say color (mem_read (kernel_mem k) str (unat len)) k))"
    by (simp add: puts_def Let_def)
  then show ?thesis
    using say_only_screen [OF assms(1), of color "mem_read (kernel_mem k) str (unat len)"]
    unfolding only_screen_def by (simp add: shell_puts_def)
qed

section \<open>Regions of memory\<close>

text \<open>Two regions that do not wrap and do not meet; a list of regions that are pairwise apart.\<close>

definition clear_of :: "u32 \<times> nat \<Rightarrow> u32 \<times> nat \<Rightarrow> bool" where
  "clear_of = (\<lambda>(a, n) (b, k). unat a + n \<le> 2 ^ 32 \<and> unat b + k \<le> 2 ^ 32 \<and> (unat a + n \<le> unat b \<or> unat b + k \<le> unat a))"

primrec regions_apart :: "(u32 \<times> nat) list \<Rightarrow> bool" where
  "regions_apart [] = True"
| "regions_apart (r # rs) = ((\<forall>q\<in>set rs. clear_of r q) \<and> regions_apart rs)"

lemma clear_of_separate: "clear_of (a, n) (b, k) \<Longrightarrow> separate a n b k" "clear_of (a, n) (b, k) \<Longrightarrow> separate b k a n"
  by (auto simp: clear_of_def intro!: separate_disjoint)

lemma clear_of_sym: "clear_of r q = clear_of q r"
  by (auto simp: clear_of_def split: prod.splits)

lemma regions_apart_nth: "regions_apart rs \<Longrightarrow> i < length rs \<Longrightarrow> j < length rs \<Longrightarrow> i \<noteq> j \<Longrightarrow> clear_of (rs ! i) (rs ! j)"
proof (induction rs arbitrary: i j)
  case (Cons r rs)
  show ?case
  proof (cases i; cases j)
    fix i' assume "i = Suc i'" and "j = 0"
    with Cons.prems show ?thesis by (subst clear_of_sym) simp
  qed (use Cons in auto)
qed simp

lemma clear_of_less: "clear_of (a, n) (b, k) \<Longrightarrow> n' \<le> n \<Longrightarrow> k' \<le> k \<Longrightarrow> clear_of (a, n') (b, k')"
  by (auto simp: clear_of_def)

lemma clear_of_screen: "clear_of (a, n) (TEXT_BUFFER, 4000) \<Longrightarrow> off_screen a n"
  by (simp add: off_screen_def clear_of_separate(1))

lemma read_write_clear:
  assumes "clear_of (a, n) (b, length bs)"
  shows "mem_read (mem_write m b bs) a n = mem_read m a n"
  by (rule mem_read_write_separate) (rule clear_of_separate(1) [OF assms])

lemma c_string_iff: "c_string m a bs \<longleftrightarrow> length bs < 2 ^ 32 \<and> 0 \<notin> set bs \<and> mem_read m a (Suc (length bs)) = bs @ [0]"
  using mem_read_add [of m a "length bs" 1] by (auto simp: c_string_def mem_read_def)

lemma ascii_length [simp]: "length (ascii s) = length s"
  by (simp add: ascii_def)

lemma memcpy_clear:
  assumes "clear_of (d, n) (a, n)"
  shows "memcpy m d a n = mem_write m d (mem_read m a n)"
proof (rule memcpy_forward)
  show "n \<le> 2 ^ 32" using assms by (simp add: clear_of_def)
  show "forward_ok d a n" by (rule separate_forward_ok) (rule clear_of_separate(2) [OF assms])
qed

text \<open>Overwriting part of a block that was just written.\<close>

lemma mem_write_part:
  assumes "length ys' = length ys" and "length xs + length ys + length zs < 2 ^ 32"
  shows "mem_write (mem_write m a (xs @ ys @ zs)) (a + of_nat (length xs)) ys' = mem_write m a (xs @ ys' @ zs)"
proof
  fix x
  let ?o = "unat (x - a)" and ?n = "length xs"
  have n: "?n < 2 ^ 32" using assms(2) by simp
  have "unat (x - (a + of_nat ?n)) = (if ?n \<le> ?o then ?o - ?n else ?o + 2 ^ 32 - ?n)"
  proof -
    have "unat ((x - a) - of_nat ?n) = (if ?n \<le> ?o then ?o - ?n else ?o + 2 ^ 32 - ?n)"
      by (subst unat_sub_if') (simp only: unat_of_nat_u32 [OF n] len_of_numeral_defs len_num1, simp)
    then show ?thesis by (simp only: diff_diff_eq)
  qed
  with assms show "mem_write (mem_write m a (xs @ ys @ zs)) (a + of_nat ?n) ys' x = mem_write m a (xs @ ys' @ zs) x"
    by (auto simp: mem_write_def nth_append)
qed

lemma clear_of_part: "clear_of (a, n) q \<Longrightarrow> i < n \<Longrightarrow> i + j \<le> n \<Longrightarrow> clear_of (a + of_nat i, j) q"
  using unat_region [of a n i] by (auto simp: clear_of_def split: prod.splits)

lemma mem_read_write_prefix:
  assumes "length bs \<le> n" and "n \<le> 2 ^ 32"
  shows "mem_read (mem_write m a bs) a n = bs @ drop (length bs) (mem_read m a n)"
proof (rule nth_equalityI)
  fix i assume "i < length (mem_read (mem_write m a bs) a n)"
  with assms have "i < n" "unat (of_nat i :: u32) = i" by (simp_all add: unat_of_nat_u32)
  with assms(1) show "mem_read (mem_write m a bs) a n ! i = (bs @ drop (length bs) (mem_read m a n)) ! i"
    by (auto simp: mem_write_def nth_append)
qed (use assms in simp)

text \<open>A byte string padded with zeros.\<close>

definition pad :: "nat \<Rightarrow> u8 list \<Rightarrow> u8 list" where
  "pad n bs = bs @ replicate (n - length bs) 0"

lemma length_pad: "length bs \<le> n \<Longrightarrow> length (pad n bs) = n"
  by (simp add: pad_def)

text \<open>Two memories that agree on whatever does not meet the given regions.\<close>

definition same_beside :: "(u32 \<times> nat) list \<Rightarrow> memory \<Rightarrow> memory \<Rightarrow> bool" where
  "same_beside rs m m' \<longleftrightarrow> (\<forall>a j. (\<forall>r\<in>set rs. clear_of (a, j) r) \<longrightarrow> mem_read m' a j = mem_read m a j)"

lemma same_besideD: "same_beside rs m m' \<Longrightarrow> (\<And>r. r \<in> set rs \<Longrightarrow> clear_of (a, j) r) \<Longrightarrow> mem_read m' a j = mem_read m a j"
  by (simp add: same_beside_def)

lemma same_beside_trans: "same_beside rs m m' \<Longrightarrow> same_beside qs m' m'' \<Longrightarrow> same_beside (rs @ qs) m m''"
  by (simp add: same_beside_def)

lemma same_beside_write: "length bs \<le> n \<Longrightarrow> same_beside [(a, n)] m (mem_write m a bs)"
  by (auto simp: same_beside_def intro!: read_write_clear dest: clear_of_less)

lemma same_beside_write2:
  "length xs \<le> n \<Longrightarrow> length ys \<le> j \<Longrightarrow> same_beside [(a, n), (b, j)] m (mem_write (mem_write m a xs) b ys)"
  using same_beside_trans [OF same_beside_write same_beside_write] by fastforce

lemma same_beside_mono: "same_beside rs m m' \<Longrightarrow> set rs \<subseteq> set qs \<Longrightarrow> same_beside qs m m'"
  unfolding same_beside_def by blast

lemma peek32_beside:
  assumes "same_beside rs (kernel_mem k) (kernel_mem k')" and "\<And>r. r \<in> set rs \<Longrightarrow> clear_of (a, 4) r"
  shows "peek32 a k' = peek32 a k"
  using same_besideD [OF assms] by (simp add: peek32_def)

lemma args_beside:
  assumes "same_beside rs (kernel_mem k) (kernel_mem k')" and "\<And>r. r \<in> set rs \<Longrightarrow> clear_of (args_info + 8 * of_nat i, 8) r"
  shows "arg_position args_info i k' = arg_position args_info i k" "arg_length args_info i k' = arg_length args_info i k"
proof -
  have "clear_of (args_info + 8 * of_nat i, 4) r" "clear_of (args_info + 8 * of_nat i + 4, 4) r" if "r \<in> set rs" for r
    using clear_of_part [OF assms(2) [OF that], of 0 4] clear_of_part [OF assms(2) [OF that], of 4 4] by simp_all
  with peek32_beside [OF assms(1)] show "arg_position args_info i k' = arg_position args_info i k"
    "arg_length args_info i k' = arg_length args_info i k"
    by (simp_all add: arg_position_def arg_length_def)
qed

lemma same_beside_upd: "same_beside [(e, 4)] m (m(e := x))"
  using same_beside_write [of "[x]" 4 e m] by (simp add: mem_write_single)

text \<open>A memory built from blocks that do not meet holds each of them.\<close>

definition place :: "(u32 \<times> u8 list) list \<Rightarrow> memory \<Rightarrow> memory" where
  "place bs m = fold (\<lambda>(a, b) m. mem_write m a b) bs m"

definition blocks_apart :: "(u32 \<times> u8 list) list \<Rightarrow> bool" where
  "blocks_apart bs \<longleftrightarrow> regions_apart (map (\<lambda>(a, b). (a, length b)) bs)"

lemma place_other: "\<forall>(b, x)\<in>set bs. clear_of (a, n) (b, length x) \<Longrightarrow> mem_read (place bs m) a n = mem_read m a n"
  by (induction bs arbitrary: m) (auto simp: place_def read_write_clear)

lemma place_read:
  assumes "blocks_apart bs" and "(a, b) \<in> set bs" and "length b \<le> 2 ^ 32"
  shows "mem_read (place bs m) a (length b) = b"
  using assms
proof (induction bs arbitrary: m)
  case (Cons q bs)
  obtain c d where q: "q = (c, d)" by fastforce
  have apart: "\<forall>(b', x)\<in>set bs. clear_of (c, length d) (b', length x)" and rest: "blocks_apart bs"
    using Cons.prems(1) by (auto simp: blocks_apart_def q)
  show ?case
  proof (cases "(a, b) \<in> set bs")
    case True
    from Cons.IH [OF rest this Cons.prems(3)] show ?thesis by (simp add: place_def q)
  next
    case False
    with Cons.prems(2) q have "c = a" "d = b" by auto
    with place_other [OF apart, of "mem_write m c d"] mem_read_write_same [OF Cons.prems(3)] show ?thesis
      by (simp add: place_def q)
  qed
qed simp

section \<open>System calls as the commands see them\<close>

text \<open>A message is readable when its literal stands in memory, away from the screen.\<close>

definition readable :: "'p shell_env \<Rightarrow> 'p kernel_state \<Rightarrow> string \<Rightarrow> bool" where
  "readable env k s \<longleftrightarrow> c_string (kernel_mem k) (literal env s) (ascii s) \<and> off_screen (literal env s) (Suc (length s))"

lemma readable_cong:
  assumes "readable env k s" and "mem_read (kernel_mem k') (literal env s) (Suc (length s)) = mem_read (kernel_mem k) (literal env s) (Suc (length s))"
  shows "readable env k' s"
  using assms by (simp add: readable_def c_string_iff)

lemma readable_beside:
  assumes "readable env k s" and "same_beside rs (kernel_mem k) (kernel_mem k')" and "\<And>r. r \<in> set rs \<Longrightarrow> clear_of (literal env s, Suc (length s)) r"
  shows "readable env k' s"
  by (rule readable_cong [OF assms(1)], rule same_besideD [OF assms(2,3)])

lemma readable_only_screen: "only_screen k k' \<Longrightarrow> readable env k s \<Longrightarrow> readable env k' s"
  using only_screen_read [of k k' "literal env s" "Suc (length s)"] by (auto simp: readable_def c_string_iff)

lemma placed_readable:
  assumes "blocks_apart bs" and "(literal env s, ascii s @ [0]) \<in> set bs" and "kernel_mem k = place bs m"
    and "0 \<notin> set (ascii s)" and "length s < 1000" and "clear_of (literal env s, Suc (length s)) (TEXT_BUFFER, 4000)"
  shows "readable env k s"
  using place_read [OF assms(1,2), of m] assms(3-5) clear_of_screen [OF assms(6)]
  by (simp add: readable_def c_string_iff)

text \<open>
  The contract the commands are written for: call 6 prints, calls 0 and 2 run the file operation on the
  request at the address given and store its code, one byte, at the other address; writing a file does
  not change the caller's memory and answers with one of four codes.
\<close>

locale shell_calls =
  fixes env :: "'p shell_env"
    and fs_read fs_write :: "FAT32DriverRequest \<Rightarrow> 'p fs_state \<Rightarrow> (int \<times> 'p fs_state) option"
  assumes print_law: "syscalls env 6 a n c k = Some (shell_puts a n c k)"
    and read_law: "fs_read (decode_request (kernel_mem k) r) (storage k) = Some (code, s') \<Longrightarrow>
      syscalls env 0 r e x k = Some (k\<lparr>storage := s'\<lparr>mem := (mem s')(e := of_int code)\<rparr>\<rparr>)"
    and write_law: "fs_write (decode_request (kernel_mem k) r) (storage k) = Some (code, s') \<Longrightarrow>
      syscalls env 2 r e x k = Some (k\<lparr>storage := s'\<lparr>mem := (mem s')(e := of_int code)\<rparr>\<rparr>)"
    and write_memory: "fs_write q s = Some (code, s') \<Longrightarrow> mem s' = mem s \<and> code \<in> {-1, 0, 1, 2}"
begin

lemma print_message_says:
  assumes "on_screen (screen k)" and "readable env k s"
  shows "print_message env s k = Some (say (RED env) (ascii s) k)"
proof -
  have str: "c_string (kernel_mem k) (literal env s) (ascii s)" and off: "off_screen (literal env s) (Suc (length s))"
    using assms(2) by (simp_all add: readable_def)
  have u: "unat (of_nat (length s) :: u32) = length s"
    using str by (intro unat_of_nat_u32) (simp add: c_string_def)
  have "off_screen (literal env s) (unat (of_nat (length s) :: u32))"
    using off_screen_mono [OF off, of 0 "length s"] by (simp add: u)
  from puts_says [OF assms(1) this, of "RED env"] str show ?thesis
    by (simp add: print_message_def strlen_c_string [OF str] print_law u c_string_def)
qed

end

text \<open>The state after a file call that answered \<open>c\<close>.\<close>

definition after_call :: "u32 \<Rightarrow> int \<Rightarrow> 'p fs_state \<Rightarrow> 'p kernel_state \<Rightarrow> 'p kernel_state" where
  "after_call e c s' k = k\<lparr>storage := s'\<lparr>mem := (mem s')(e := of_int c)\<rparr>\<rparr>"

lemma after_call_simps [simp]:
  "kernel_mem (after_call e c s' k) = (mem s')(e := of_int c)" "screen (after_call e c s' k) = screen k"
  "keyboard (after_call e c s' k) = keyboard k" "fat_table (storage (after_call e c s' k)) = fat_table s'"
  "dev (storage (after_call e c s' k)) = dev s'"
  by (simp_all add: after_call_def)

text \<open>
  The \<open>int\<close> behind a one-byte store: its three other bytes are those that were there before.
\<close>

lemma upd_read_rest: "mem_read (m(e := x)) e 4 = x # mem_read m (e + 1) 3"
proof -
  have "e + 1 + of_nat i \<noteq> e" if "i < 3" for i
  proof -
    have "unat (of_nat (Suc i) :: u32) = Suc i" using that by (intro unat_of_nat_u32) simp
    then have "(of_nat (Suc i) :: u32) \<noteq> 0" by (metis nat.distinct(1) unat_0)
    then show ?thesis by (simp add: add.assoc)
  qed
  then have "mem_read (m(e := x)) (e + 1) 3 = mem_read m (e + 1) 3" by (intro mem_read_cong) simp
  with mem_read_add [of "m(e := x)" e 1 3] show ?thesis by (simp add: mem_read_def)
qed

lemma read4_Cons: "mem_read m e 4 = m e # mem_read m (e + 1) 3"
  using upd_read_rest [of m e "m e"] by simp

lemma of_le32_eq_0: "length bs = 4 \<Longrightarrow> of_le32 bs = 0 \<longleftrightarrow> bs = replicate 4 0"
proof -
  assume l: "length bs = 4"
  have z: "le32 0 = replicate 4 0" by (simp add: le32_def numeral_eq_Suc)
  show ?thesis using le32_of_le32 [OF l] of_le32_le32 [of 0] by (auto simp: z)
qed

lemma stored_code:
  fixes m :: memory
  assumes "mem_read m (a + 1) 3 = replicate 3 0"
  shows "of_le32 (mem_read (m(a := of_int c)) a 4) = ucast (of_int c :: u8)"
  unfolding upd_read_rest assms by (simp add: of_le32_def numeral_eq_Suc)

section \<open>Who performs a system call\<close>

text \<open>
  The body of \<open>syscalls\<close>, commented out in \<open>user-shell.c\<close>, loads the four registers and executes
  \<open>int 0x30\<close>. The processor enters the kernel through vector 0x30, and \<open>main_interrupt_handler\<close>, which serves the
  keyboard only, ignores it: the call has no effect. This is what the commands get at this commit.
\<close>

definition trapping :: "'p port_ops \<Rightarrow> 'p shell_env \<Rightarrow> 'p shell_env" where
  "trapping io env = env\<lparr>syscalls := \<lambda>a b c d k. Some (interrupt io (call_frame a b c d) k)\<rparr>"

lemma trap_ignored [simp]: "syscalls (trapping io env) a b c d k = Some k"
  by (simp add: trapping_def interrupt_def handler_cases call_frame_def)

lemma trapping_simps [simp]:
  "literal (trapping io env) = literal env" "current_directory (trapping io env) = current_directory env"
  "readable (trapping io env) k s = readable env k s"
  by (simp_all add: trapping_def readable_def)

lemma trapping_print:
  assumes "readable env k s"
  shows "print_message (trapping io env) s k = Some k"
proof -
  have "c_string (kernel_mem k) (literal env s) (ascii s)" using assms by (simp add: readable_def)
  then show ?thesis by (simp add: print_message_def strlen_c_string)
qed

text \<open>
  The function \<open>syscall\<close> of \<open>interrupt.c\<close> is written for the same registers, but nothing in the repository calls
  it. Called directly, as the handler of vector 0x30 would, it keeps the contract.
\<close>

definition direct_calls :: "'p block_ops \<Rightarrow> 'p shell_env \<Rightarrow> 'p shell_env" where
  "direct_calls ops env = env\<lparr>syscalls := \<lambda>a b c d. syscall ops (call_frame a b c d)\<rparr>"

interpretation direct: shell_calls "direct_calls ops env" "read_fat32 ops" "write_fat32 ops" for ops env
proof
  fix a n c and k :: "'a kernel_state"
  show "syscalls (direct_calls ops env) 6 a n c k = Some (shell_puts a n c k)"
    by (simp add: direct_calls_def syscall_def call_frame_def shell_puts_def Let_def split: prod.split)
next
  fix q c and s s' :: "'a fs_state"
  assume "write_fat32 ops q s = Some (c, s')"
  with write_fat32_memory write_fat32_codes show "mem s' = mem s \<and> c \<in> {-1, 0, 1, 2}" by blast
qed (auto simp: direct_calls_def syscall_def call_frame_def file_call_def Let_def)

lemma direct_calls_simps [simp]:
  "syscalls (direct_calls ops env) a b c d = syscall ops (call_frame a b c d)"
  "literal (direct_calls ops env) = literal env" "current_directory (direct_calls ops env) = current_directory env"
  "RED (direct_calls ops env) = RED env" "readable (direct_calls ops env) k s = readable env k s"
  "trapping io (direct_calls ops env) = trapping io env"
  by (simp_all add: direct_calls_def readable_def trapping_def)

lemmas syscall_reads = direct.read_law [unfolded direct_calls_simps]
lemmas syscall_writes = direct.write_law [unfolded direct_calls_simps]

end
