(* ===== verification/Shell_Mkdir.thy ===== *)
theory Shell_Mkdir imports Shell_Calls Fat_Example begin

text \<open>
  The command \<open>mkdir\<close> of \<open>src/ch2/user-shell/mkdir.c\<close>. The locals whose address is taken, \<open>request\<close> and
  \<open>errorCode\<close>, lie in the caller's memory at addresses chosen by the compiler.
\<close>

record mkdir_frame =
  md_request :: u32
  md_error :: u32

definition mkdir_arguments :: string where "mkdir_arguments = ''mkdir: too many arguments'' @ [CHR 0x0A]"
definition mkdir_long :: string where "mkdir_long = ''mkdir: directory name is too long'' @ [CHR 0x0A]"
definition mkdir_cannot :: string where "mkdir_cannot = ''mkdir: cannot create directory '' @ [CHR 0x27]"
definition mkdir_exists :: string where "mkdir_exists = CHR 0x27 # '': Folder exists'' @ [CHR 0x0A]"
definition mkdir_parent :: string where "mkdir_parent = CHR 0x27 # '': Invalid parent cluster'' @ [CHR 0x0A]"
definition mkdir_unknown :: string where "mkdir_unknown = CHR 0x27 # '': Unknown error occurred'' @ [CHR 0x0A]"
definition mkdir_invalid :: string where "mkdir_invalid = CHR 0x27 # '': Invalid error code'' @ [CHR 0x0A]"

text \<open>The \<open>switch\<close> on the signed \<open>errorCode\<close>.\<close>

definition mkdir_reason :: "u32 \<Rightarrow> string" where
  "mkdir_reason code =
     (if sint code = 1 then mkdir_exists
      else if sint code = 2 then mkdir_parent
      else if sint code = -1 then mkdir_unknown
      else mkdir_invalid)"

definition mkdir_request :: "u32 \<Rightarrow> FAT32DriverRequest" where
  "mkdir_request parent = \<lparr>buf = 0, req_name = replicate 8 0, req_ext = replicate 3 0, parent_cluster_number = parent, buffer_size = 0\<rparr>"

definition mkdir_finish :: "'p shell_env \<Rightarrow> mkdir_frame \<Rightarrow> u32 \<Rightarrow> u32 \<Rightarrow> 'p kernel_state \<Rightarrow> 'p kernel_state option" where
  "mkdir_finish env fr name_at name_length k =
     (if peek32 (md_error fr) k \<noteq> 0 then do {
        k \<leftarrow> print_message env mkdir_cannot k;
        k \<leftarrow> syscalls env 6 name_at name_length (RED env) k;
        print_message env (mkdir_reason (peek32 (md_error fr) k)) k }
      else Some k)"

definition mkdir :: "'p shell_env \<Rightarrow> mkdir_frame \<Rightarrow> u32 \<Rightarrow> u32 \<Rightarrow> u32 \<Rightarrow> 'p kernel_state \<Rightarrow> 'p kernel_state option" where
  "mkdir env fr args_value args_info args_count k =
     (if args_count \<noteq> 2 then print_message env mkdir_arguments k
      else let position = arg_position args_info 1 k; name_length = arg_length args_info 1 k in
      if 8 < sint name_length then print_message env mkdir_long k
      else do {
        let k = poke (md_request fr) (encode_request (mkdir_request (peek32 (current_directory env) k))) k;
        let k = with_mem (memcpy (kernel_mem k) (md_request fr + 4) (args_value + position) (unat name_length)) k;
        let k = poke (md_error fr) (le32 0) k;
        k \<leftarrow> syscalls env 2 (md_request fr) (md_error fr) 0 k;
        mkdir_finish env fr (args_value + position) name_length k })"

section \<open>What the command does\<close>

text \<open>The request it sends: the name padded with zeros, no extension, no buffer, size 0.\<close>

definition mkdir_sends :: "u32 \<Rightarrow> u8 list \<Rightarrow> FAT32DriverRequest" where
  "mkdir_sends parent nm = (mkdir_request parent)\<lparr>req_name := nm @ replicate (8 - length nm) 0\<rparr>"

lemma mkdir_sends_ok: "length nm \<le> 8 \<Longrightarrow> request_ok (mkdir_sends parent nm)"
  by (simp add: mkdir_sends_def mkdir_request_def request_ok_def)

text \<open>The message a code of the driver ends in; -1 arrives as 255 and is not recognised.\<close>

definition mkdir_says :: "int \<Rightarrow> string" where
  "mkdir_says c = (if c = 1 then mkdir_exists else if c = 2 then mkdir_parent else mkdir_invalid)"

text \<open>
  The regions the command works on: its two locals, the name, the screen and the literals do not meet.
\<close>

definition mkdir_layout :: "'p shell_env \<Rightarrow> mkdir_frame \<Rightarrow> u32 \<Rightarrow> nat \<Rightarrow> string list \<Rightarrow> bool" where
  "mkdir_layout env fr name_at n messages \<longleftrightarrow>
     regions_apart [(md_request fr, 23), (md_error fr, 4), (name_at, n), (TEXT_BUFFER, 4000)]
     \<and> (\<forall>s\<in>set messages. \<forall>r\<in>set [(md_request fr, 23), (md_error fr, 4), (TEXT_BUFFER, 4000)].
          clear_of (literal env s, Suc (length s)) r)"

lemma mkdir_code:
  assumes "c \<in> {-1, 0, 1, 2}"
  shows "(ucast (of_int c :: u8) :: u32) = 0 \<longleftrightarrow> c = 0" and "mkdir_reason (ucast (of_int c :: u8)) = mkdir_says c"
  using assms by (auto simp: mkdir_reason_def mkdir_says_def unsigned_minus_1_eq_mask mask_eq_exp_minus_1)

text \<open>The request in memory when the system call is made.\<close>

lemma mkdir_builds:
  fixes m :: memory and parent :: u32
  assumes lay: "regions_apart [(md_request fr, 23), (md_error fr, 4), (name_at, n), (TEXT_BUFFER, 4000)]" and n: "n \<le> 8"
  defines "m1 \<equiv> mem_write m (md_request fr) (encode_request (mkdir_request parent))"
  defines "m2 \<equiv> memcpy m1 (md_request fr + 4) name_at n"
  defines "m3 \<equiv> mem_write m2 (md_error fr) (le32 0)"
  shows "decode_request m3 (md_request fr) = mkdir_sends parent (mem_read m name_at n)"
    and "m3 = mem_write (mem_write m (md_request fr) (encode_request (mkdir_sends parent (mem_read m name_at n)))) (md_error fr) (le32 0)"
proof -
  let ?nm = "mem_read m name_at n" and ?r = "mkdir_sends parent (mem_read m name_at n)"
  note apart = regions_apart_nth [OF lay]
  have enc: "encode_request (mkdir_request parent)
      = le32 0 @ replicate n 0 @ (replicate (8 - n) 0 @ replicate 3 0 @ le32 parent @ le32 0)"
    "encode_request ?r = le32 0 @ ?nm @ (replicate (8 - n) 0 @ replicate 3 0 @ le32 parent @ le32 0)"
    using n by (simp_all add: encode_request_def mkdir_request_def mkdir_sends_def flip: replicate_add)
  have len: "length (encode_request (mkdir_request parent)) = 23" "length (encode_request ?r) = 23"
    using n by (simp_all add: enc)
  have src: "mem_read m1 name_at n = ?nm"
    unfolding m1_def by (rule read_write_clear) (use apart [of 2 0] len in simp)
  have "clear_of (md_request fr + 4, n) (name_at, n)"
    using apart [of 0 2] n by (auto simp: clear_of_def unat_word_ariths)
  then have "m2 = mem_write m1 (md_request fr + 4) ?nm" by (simp add: m2_def memcpy_clear src)
  also have "\<dots> = mem_write m (md_request fr) (encode_request ?r)"
    using mem_write_part [of ?nm "replicate n 0" "le32 0" "replicate (8 - n) 0 @ replicate 3 0 @ le32 parent @ le32 0" m "md_request fr"] n
    by (simp add: m1_def enc)
  finally have m2: "m2 = mem_write m (md_request fr) (encode_request ?r)" .
  then show "m3 = mem_write (mem_write m (md_request fr) (encode_request ?r)) (md_error fr) (le32 0)" by (simp add: m3_def)
  have "mem_read m3 (md_request fr) 23 = mem_read m2 (md_request fr) 23"
    unfolding m3_def by (rule read_write_clear) (use apart [of 0 1] in simp)
  then have "decode_request m3 (md_request fr) = decode_request m2 (md_request fr)" by (rule decode_request_cong)
  also have "\<dots> = ?r" unfolding m2 using decode_encode_request [OF mkdir_sends_ok, of ?nm] n by simp
  finally show "decode_request m3 (md_request fr) = ?r" .
qed

text \<open>The memory when the system call of \<open>mkdir\<close> is made.\<close>

definition mkdir_memory :: "mkdir_frame \<Rightarrow> FAT32DriverRequest \<Rightarrow> memory \<Rightarrow> memory" where
  "mkdir_memory fr r m = mem_write (mem_write m (md_request fr) (encode_request r)) (md_error fr) (le32 0)"

text \<open>One byte stored into an \<open>int\<close> that was 0.\<close>

lemma stored_on_zero:
  assumes "mem_read m e 4 = replicate 4 0"
  shows "of_le32 (mem_read (m(e := of_int c)) e 4) = ucast (of_int c :: u8)"
proof (rule stored_code)
  have "replicate 4 (0 :: u8) = 0 # replicate 3 0" by (simp add: numeral_eq_Suc)
  with assms have "m e # mem_read m (e + 1) 3 = 0 # replicate 3 0" by (simp only: read4_Cons)
  then show "mem_read m (e + 1) 3 = replicate 3 0" by (simp only: list.inject)
qed

text \<open>The command up to its file call, whatever performs the calls.\<close>

lemma mkdir_to_write:
  assumes args: "unat (arg_length args_info 1 k) \<le> 8"
    and regs: "regions_apart [(md_request fr, 23), (md_error fr, 4), (name_at, n), (TEXT_BUFFER, 4000)]"
    and name_at: "name_at = args_value + arg_position args_info 1 k" and n: "n = unat (arg_length args_info 1 k)"
    and r: "r = mkdir_sends (peek32 (current_directory env) k) (mem_read (kernel_mem k) name_at n)"
    and m: "m = mkdir_memory fr r (kernel_mem k)"
  shows "mkdir env fr args_value args_info 2 k = do {
      q \<leftarrow> syscalls env 2 (md_request fr) (md_error fr) 0 (with_mem m k);
      mkdir_finish env fr name_at (arg_length args_info 1 k) q }"
    and "decode_request m (md_request fr) = r" and "mem_read m (md_error fr) 4 = replicate 4 0"
    and "same_beside [(md_request fr, 23), (md_error fr, 4)] (kernel_mem k) m"
proof -
  have n8: "n \<le> 8" using args by (simp add: n)
  have short: "\<not> 8 < sint (arg_length args_info 1 k)" using sint_bound [OF args] by simp
  note built = mkdir_builds [OF regs n8, of "kernel_mem k" "peek32 (current_directory env) k", folded r, folded mkdir_memory_def m]
  show "mkdir env fr args_value args_info 2 k = do {
      q \<leftarrow> syscalls env 2 (md_request fr) (md_error fr) 0 (with_mem m k);
      mkdir_finish env fr name_at (arg_length args_info 1 k) q }"
    using short built(2) unfolding mkdir_def by (simp add: Let_def poke_def name_at n)
  show "decode_request m (md_request fr) = r" using built by simp
  have zero: "le32 0 = replicate 4 0" by (simp add: le32_def numeral_eq_Suc)
  show "mem_read m (md_error fr) 4 = replicate 4 0"
    using mem_read_write_same [of "le32 0" _ "md_error fr"] by (simp add: m mkdir_memory_def zero)
  have "length (encode_request r) = 23" unfolding r by (rule length_encode_request, rule mkdir_sends_ok) (simp add: n8)
  then show "same_beside [(md_request fr, 23), (md_error fr, 4)] (kernel_mem k) m"
    unfolding m mkdir_memory_def by (intro same_beside_write2) simp_all
qed

context shell_calls
begin

lemma mkdir_run:
  assumes args: "unat (arg_length args_info 1 k) \<le> 8"
    and lay: "mkdir_layout env fr name_at n [mkdir_cannot, mkdir_exists, mkdir_parent, mkdir_invalid]"
    and name_at: "name_at = args_value + arg_position args_info 1 k" and n: "n = unat (arg_length args_info 1 k)"
    and msgs: "\<forall>s\<in>{mkdir_cannot, mkdir_exists, mkdir_parent, mkdir_invalid}. readable env k s" and scr: "on_screen (screen k)"
    and r: "r = mkdir_sends (peek32 (current_directory env) k) (mem_read (kernel_mem k) name_at n)"
    and call: "fs_write r ((storage k)\<lparr>mem := mkdir_memory fr r (kernel_mem k)\<rparr>) = Some (c, s')"
  shows "mkdir env fr args_value args_info 2 k
    = Some (if c = 0 then after_call (md_error fr) c s' k
            else say (RED env) (ascii mkdir_cannot @ mem_read (kernel_mem k) name_at n @ ascii (mkdir_says c)) (after_call (md_error fr) c s' k))"
proof -
  let ?m = "kernel_mem k" and ?e = "md_error fr" and ?K = "after_call (md_error fr) c s' k" and ?nm = "mem_read (kernel_mem k) name_at n"
  have regs: "regions_apart [(md_request fr, 23), (?e, 4), (name_at, n), (TEXT_BUFFER, 4000)]"
    and lits: "\<And>s q. s \<in> {mkdir_cannot, mkdir_exists, mkdir_parent, mkdir_invalid} \<Longrightarrow>
      q \<in> {(md_request fr, 23), (?e, 4), (TEXT_BUFFER, 4000)} \<Longrightarrow> clear_of (literal env s, Suc (length s)) q"
    using lay by (auto simp: mkdir_layout_def)
  note apart = regions_apart_nth [OF regs]
  have n8: "n \<le> 8" using args by (simp add: n)
  note sent = mkdir_to_write [OF args regs name_at n r refl]
  have len: "length (encode_request r) = 23" unfolding r by (rule length_encode_request, rule mkdir_sends_ok) (simp add: n8)
  have mem: "mem s' = mkdir_memory fr r ?m" and code: "c \<in> {-1, 0, 1, 2}" using write_memory [OF call] by simp_all
  have K: "kernel_mem ?K = mem_write (mkdir_memory fr r ?m) ?e [of_int c]" by (simp add: mem mem_write_single)
  have kept: "mem_read (kernel_mem ?K) a j = mem_read ?m a j" if "clear_of (a, j) (md_request fr, 23)" "clear_of (a, j) (?e, 4)" for a j
  proof -
    have "clear_of (a, j) (?e, length [of_int c])" using clear_of_less [OF that(2)] by simp
    then show ?thesis unfolding K mkdir_memory_def using that len by (simp add: read_write_clear)
  qed
  have err: "peek32 ?e ?K = ucast (of_int c :: u8)" using stored_on_zero [OF sent(3), of c] by (simp add: peek32_def mem)
  have readable: "readable env k' s" if "s \<in> {mkdir_cannot, mkdir_exists, mkdir_parent, mkdir_invalid}" and "only_screen ?K k'" for s k'
  proof -
    have "readable env ?K s"
      by (rule readable_cong [where k = k]) (use msgs that(1) in blast, intro kept lits, use that(1) in auto)
    with that(2) show ?thesis by (rule readable_only_screen)
  qed
  let ?k3 = "with_mem (mkdir_memory fr r ?m) k"
  have sys: "syscalls env 2 (md_request fr) ?e 0 ?k3 = Some ?K"
    using write_law [of ?k3 "md_request fr" c s' ?e 0] call sent(2) by (simp add: after_call_def with_mem_def)
  have run: "mkdir env fr args_value args_info 2 k = mkdir_finish env fr name_at (arg_length args_info 1 k) ?K"
    using sent(1) sys by simp
  show ?thesis
  proof (cases "c = 0")
    case True
    with run err mkdir_code(1) [OF code] show ?thesis by (simp add: mkdir_finish_def)
  next
    case False
    let ?K1 = "say (RED env) (ascii mkdir_cannot) ?K"
    let ?K2 = "say (RED env) ?nm ?K1"
    have o0: "only_screen ?K ?K" using scr by (simp add: only_screen_refl)
    have o1: "only_screen ?K ?K1" using scr by (simp add: say_only_screen)
    have o2: "only_screen ?K ?K2" using only_screen_trans [OF o1 say_only_screen [OF only_screenD(1) [OF o1]]] .
    have off: "off_screen name_at n" "off_screen ?e 4" using apart [of 2 3] apart [of 1 3] by (auto intro: clear_of_screen)
    have p1: "print_message env mkdir_cannot ?K = Some ?K1"
      using scr by (intro print_message_says readable [OF _ o0]) simp_all
    have "mem_read (kernel_mem ?K1) name_at n = ?nm"
      using only_screen_read [OF o1 off(1)] kept [of name_at n] apart [of 2 0] apart [of 2 1] by simp
    then have p2: "syscalls env 6 name_at (arg_length args_info 1 k) (RED env) ?K1 = Some ?K2"
      using puts_says [OF only_screenD(1) [OF o1], of name_at "arg_length args_info 1 k" "RED env"] off(1) by (simp add: print_law n)
    have "peek32 ?e ?K2 = peek32 ?e ?K" using only_screen_read [OF o2 off(2)] by (simp add: peek32_def)
    then have reason: "mkdir_reason (peek32 ?e ?K2) = mkdir_says c" using mkdir_code(2) [OF code] err by simp
    have p3: "print_message env (mkdir_says c) ?K2 = Some (say (RED env) (ascii (mkdir_says c)) ?K2)"
      by (rule print_message_says [OF only_screenD(1) [OF o2]], rule readable [OF _ o2]) (simp add: mkdir_says_def)
    from run err mkdir_code(1) [OF code] False show ?thesis by (simp add: mkdir_finish_def p1 p2 p3 reason del: One_nat_def) (simp add: say_append)
  qed
qed

end

section \<open>Properties\<close>

text \<open>
  C16. \<open>mkdir\<close> with one argument of at most 8 characters builds in its local \<open>request\<close> a directory request with that
  name, padded with zeros, in the current directory, clears \<open>errorCode\<close>, changes no other memory, and makes
  system call 2 with it; this holds for every \<open>syscalls\<close>. At this commit the call is \<open>int 0x30\<close>, which the
  kernel ignores: \<open>errorCode\<close> stays 0 and the command returns silently, as if it had made the directory. For a
  \<open>syscalls\<close> that keeps the contract of the calls, an answer of 0 is silent too; otherwise the command types the
  message with the name and the reason: 1 and 2 are named, and -1 (the disk or the directory is full) is
  reported as an invalid error code, because only one byte of the code arrives; and any other number of
  arguments types the complaint and nothing else.
\<close>

theorem mkdir_reports:
  assumes "on_screen (screen k)" and "\<forall>s\<in>{mkdir_arguments, mkdir_cannot, mkdir_exists, mkdir_parent, mkdir_invalid}. readable env k s"
    and "unat (arg_length args_info 1 k) \<le> 8" and "name_at = args_value + arg_position args_info 1 k"
    and "n = unat (arg_length args_info 1 k)"
    and "mkdir_layout env fr name_at n [mkdir_cannot, mkdir_exists, mkdir_parent, mkdir_invalid]"
    and "r = mkdir_sends (peek32 (current_directory env) k) (mem_read (kernel_mem k) name_at n)"
    and "m = mkdir_memory fr r (kernel_mem k)"
  shows "mkdir env fr args_value args_info 2 k = do {
        q \<leftarrow> syscalls env 2 (md_request fr) (md_error fr) 0 (with_mem m k);
        mkdir_finish env fr name_at (arg_length args_info 1 k) q }
    \<and> decode_request m (md_request fr) = r \<and> mem_read m (md_error fr) 4 = replicate 4 0
    \<and> same_beside [(md_request fr, 23), (md_error fr, 4)] (kernel_mem k) m
    \<and> mkdir (trapping io env) fr args_value args_info 2 k = Some (with_mem m k)
    \<and> (shell_calls env (read_fat32 ops) (write_fat32 ops) \<longrightarrow>
        (\<forall>c s'. write_fat32 ops r ((storage k)\<lparr>mem := m\<rparr>) = Some (c, s') \<longrightarrow>
          mkdir env fr args_value args_info 2 k
          = Some (if c = 0 then after_call (md_error fr) c s' k
                  else say (RED env) (ascii mkdir_cannot @ mem_read (kernel_mem k) name_at n @ ascii (mkdir_says c)) (after_call (md_error fr) c s' k)))
        \<and> (\<forall>j. j \<noteq> 2 \<longrightarrow> mkdir env fr args_value args_info j k = Some (say (RED env) (ascii mkdir_arguments) k)))"
proof (intro conjI impI allI)
  have regs: "regions_apart [(md_request fr, 23), (md_error fr, 4), (name_at, n), (TEXT_BUFFER, 4000)]"
    using assms(6) by (simp add: mkdir_layout_def)
  note sent = mkdir_to_write [OF assms(3) regs assms(4,5,7,8)]
  show "mkdir env fr args_value args_info 2 k = do {
        q \<leftarrow> syscalls env 2 (md_request fr) (md_error fr) 0 (with_mem m k);
        mkdir_finish env fr name_at (arg_length args_info 1 k) q }"
    "decode_request m (md_request fr) = r" "mem_read m (md_error fr) 4 = replicate 4 0"
    "same_beside [(md_request fr, 23), (md_error fr, 4)] (kernel_mem k) m" by (fact sent)+
  have r: "r = mkdir_sends (peek32 (current_directory (trapping io env)) k) (mem_read (kernel_mem k) name_at n)" by (simp add: assms(7))
  from mkdir_to_write(1,3) [OF assms(3) regs assms(4,5) r assms(8)]
  show "mkdir (trapping io env) fr args_value args_info 2 k = Some (with_mem m k)"
    by (simp add: mkdir_finish_def peek32_def of_le32_eq_0)
next
  fix c s'
  assume "shell_calls env (read_fat32 ops) (write_fat32 ops)" and "write_fat32 ops r ((storage k)\<lparr>mem := m\<rparr>) = Some (c, s')"
  with shell_calls.mkdir_run [of env "read_fat32 ops" "write_fat32 ops" args_info k fr name_at n args_value r c s'] assms
  show "mkdir env fr args_value args_info 2 k
      = Some (if c = 0 then after_call (md_error fr) c s' k
              else say (RED env) (ascii mkdir_cannot @ mem_read (kernel_mem k) name_at n @ ascii (mkdir_says c)) (after_call (md_error fr) c s' k))"
    by (simp add: mkdir_layout_def)
next
  fix j :: u32
  assume "shell_calls env (read_fat32 ops) (write_fat32 ops)" and "j \<noteq> 2"
  then show "mkdir env fr args_value args_info j k = Some (say (RED env) (ascii mkdir_arguments) k)"
    using shell_calls.print_message_says [of env "read_fat32 ops" "write_fat32 ops" k mkdir_arguments] assms(1,2) by (simp add: mkdir_def)
qed

text \<open>A program that calls \<open>mkdir docs\<close> on the freshly formatted image, and its memory.\<close>

definition mkdir_texts :: "(string \<times> u32) list" where
  "mkdir_texts = [(mkdir_arguments, 0x4000), (mkdir_cannot, 0x4040), (mkdir_exists, 0x4080), (mkdir_parent, 0x40C0), (mkdir_invalid, 0x4100)]"

definition mkdir_env :: "image shell_env" where
  "mkdir_env = \<lparr>syscalls = \<lambda>_ _ _ _ _. None, findEntry = \<lambda>_ _. -1, updateDirectoryTable = \<lambda>_ _. None,
     literal = \<lambda>s. (case map_of mkdir_texts s of Some a \<Rightarrow> a | None \<Rightarrow> 0), current_directory = 0x3000, shell_dir_table = 0,
     RED = 12, LIGHT_BLUE = 9\<rparr>"

definition dead_ports :: "image port_ops" where
  "dead_ports = \<lparr>out_op = (\<lambda>_ _ d. d), in_op = (\<lambda>_ d. (0, d)),
     out16_op = (\<lambda>_ _ d. d), in16_op = (\<lambda>_ d. (0, d))\<rparr>"

definition mkdir_blocks :: "(u32 \<times> u8 list) list" where
  "mkdir_blocks = [(0x3000, le32 2), (0x3108, le32 0), (0x310C, le32 4), (0x3200, ascii ''docs'')]
     @ map (\<lambda>(s, a). (a, ascii s @ [0])) mkdir_texts"

definition mkdir_kernel :: "image kernel_state" where
  "mkdir_kernel = \<lparr>storage = formatted (place mkdir_blocks (\<lambda>_. 0)), keyboard = \<lparr>read_extended_mode = False, keyboard_input_on = True, keyboard_buffer = 0\<rparr>,
     screen = \<lparr>term_x = 0, term_y = 0\<rparr>\<rparr>"

definition mkdir_locals :: mkdir_frame where
  "mkdir_locals = \<lparr>md_request = 0x3300, md_error = 0x3340\<rparr>"

lemmas mkdir_texts_defs = mkdir_arguments_def mkdir_cannot_def mkdir_exists_def mkdir_parent_def mkdir_invalid_def

lemma mkdir_literals:
  "literal mkdir_env mkdir_arguments = 0x4000" "literal mkdir_env mkdir_cannot = 0x4040" "literal mkdir_env mkdir_exists = 0x4080"
  "literal mkdir_env mkdir_parent = 0x40C0" "literal mkdir_env mkdir_invalid = 0x4100"
  by (simp_all add: mkdir_env_def mkdir_texts_def mkdir_texts_defs)

lemma mkdir_text_lengths:
  "length mkdir_arguments = 26" "length mkdir_cannot = 32" "length mkdir_exists = 17" "length mkdir_parent = 26" "length mkdir_invalid = 22"
  by (simp_all add: mkdir_texts_defs)

lemma mkdir_blocks_apart: "blocks_apart mkdir_blocks"
  by (simp add: blocks_apart_def mkdir_blocks_def mkdir_texts_def clear_of_def mkdir_text_lengths)

lemma mkdir_text_bytes: "s \<in> {mkdir_arguments, mkdir_cannot, mkdir_exists, mkdir_parent, mkdir_invalid} \<Longrightarrow> 0 \<notin> set (ascii s)"
  by (auto simp: mkdir_texts_defs ascii_def)

lemma mkdir_kernel_mem: "kernel_mem mkdir_kernel = place mkdir_blocks (\<lambda>_. 0)"
  by (simp add: mkdir_kernel_def formatted_facts)

lemma mkdir_readable:
  assumes "s \<in> {mkdir_arguments, mkdir_cannot, mkdir_exists, mkdir_parent, mkdir_invalid}"
  shows "readable mkdir_env mkdir_kernel s"
  by (rule placed_readable [OF mkdir_blocks_apart _ mkdir_kernel_mem mkdir_text_bytes [OF assms]])
    (use assms in \<open>elim insertE emptyE; simp add: mkdir_blocks_def mkdir_texts_def mkdir_literals mkdir_text_lengths clear_of_def TEXT_BUFFER_def\<close>)+

lemma mkdir_args:
  "arg_position 0x3100 1 mkdir_kernel = 0" "arg_length 0x3100 1 mkdir_kernel = 4" "peek32 (current_directory mkdir_env) mkdir_kernel = 2"
  "mem_read (kernel_mem mkdir_kernel) 0x3200 4 = ascii ''docs''"
proof -
  note placed = place_read [OF mkdir_blocks_apart, of _ _ "\<lambda>_. 0"]
  have "mem_read (kernel_mem mkdir_kernel) 0x3108 4 = le32 0" "mem_read (kernel_mem mkdir_kernel) 0x310C 4 = le32 4"
    "mem_read (kernel_mem mkdir_kernel) 0x3000 4 = le32 2"
    using placed [of "0x3108" "le32 0"] placed [of "0x310C" "le32 4"] placed [of "0x3000" "le32 2"]
    by (simp_all add: mkdir_kernel_mem mkdir_blocks_def)
  then show "arg_position 0x3100 1 mkdir_kernel = 0" "arg_length 0x3100 1 mkdir_kernel = 4"
    "peek32 (current_directory mkdir_env) mkdir_kernel = 2"
    by (simp_all add: arg_position_def arg_length_def peek32_def mkdir_env_def)
  show "mem_read (kernel_mem mkdir_kernel) 0x3200 4 = ascii ''docs''"
  proof -
    have "mem_read (place mkdir_blocks (\<lambda>_. 0)) 0x3200 (length (ascii ''docs'')) = ascii ''docs''"
      by (rule placed) (simp_all add: mkdir_blocks_def)
    moreover have "length (ascii ''docs'') = 4" by simp
    ultimately show ?thesis by (simp only: mkdir_kernel_mem)
  qed
qed

lemma mkdir_layout_example: "mkdir_layout mkdir_env mkdir_locals 0x3200 4 [mkdir_cannot, mkdir_exists, mkdir_parent, mkdir_invalid]"
  by (simp add: mkdir_layout_def mkdir_locals_def clear_of_def TEXT_BUFFER_def mkdir_literals mkdir_text_lengths)

abbreviation mkdir_example_request :: FAT32DriverRequest where
  "mkdir_example_request \<equiv> mkdir_sends (peek32 (current_directory mkdir_env) mkdir_kernel) (mem_read (kernel_mem mkdir_kernel) 0x3200 4)"

lemma mkdir_example_call:
  "request_ok mkdir_example_request" "parent_cluster_number mkdir_example_request = 2"
  "fs_ok (fat_table (storage mkdir_kernel)) (disk (storage mkdir_kernel))"
  "write_result mkdir_example_request (fat_table (storage mkdir_kernel)) (disk (storage mkdir_kernel)) = 0"
proof -
  show r: "request_ok mkdir_example_request" "parent_cluster_number mkdir_example_request = 2"
    by (rule mkdir_sends_ok, simp) (simp add: mkdir_args mkdir_sends_def mkdir_request_def)
  have one: "clusters_written mkdir_example_request \<le> 509"
    by (simp add: mkdir_sends_def mkdir_request_def clusters_written_def)
  have s: "storage mkdir_kernel = formatted (place mkdir_blocks (\<lambda>_. 0))" by (simp add: mkdir_kernel_def)
  show "fs_ok (fat_table (storage mkdir_kernel)) (disk (storage mkdir_kernel))"
    using formatted_fs_ok by (simp add: s formatted_facts)
  show "write_result mkdir_example_request (fat_table (storage mkdir_kernel)) (disk (storage mkdir_kernel)) = 0"
    using formatted_write_result [OF r(2) one] by (simp add: s formatted_facts)
qed

lemma mkdir_example_ready:
  "on_screen (screen mkdir_kernel)" "(4 :: nat) = unat (arg_length 0x3100 1 mkdir_kernel)"
  "unat (arg_length 0x3100 1 mkdir_kernel) \<le> 8" "(0x3200 :: u32) = 0x3200 + arg_position 0x3100 1 mkdir_kernel"
  by (simp_all add: mkdir_args mkdir_kernel_def [THEN arg_cong, of screen] on_screen_def del: One_nat_def)

lemma mkdir_example_layout:
  "mkdir_layout (direct_calls image_ops mkdir_env) mkdir_locals 0x3200 4 [mkdir_cannot, mkdir_exists, mkdir_parent, mkdir_invalid]"
  using mkdir_layout_example by (simp add: mkdir_layout_def)

theorem mkdir_reports_witness:
  "(\<exists>s'. mkdir (direct_calls image_ops mkdir_env) mkdir_locals 0x3200 0x3100 2 mkdir_kernel = Some (after_call 0x3340 0 s' mkdir_kernel))
    \<and> mkdir (direct_calls image_ops mkdir_env) mkdir_locals 0x3200 0x3100 3 mkdir_kernel = Some (say 12 (ascii mkdir_arguments) mkdir_kernel)
    \<and> (\<exists>m. mkdir (trapping dead_ports mkdir_env) mkdir_locals 0x3200 0x3100 2 mkdir_kernel = Some (with_mem m mkdir_kernel))"
proof -
  let ?env = "direct_calls image_ops mkdir_env"
  let ?m = "mkdir_memory mkdir_locals mkdir_example_request (kernel_mem mkdir_kernel)"
  let ?s = "(storage mkdir_kernel)\<lparr>mem := ?m\<rparr>"
  obtain s' where w: "write_fat32 image_ops mkdir_example_request ?s = Some (0, s')"
    using img.write_run [OF TrueI _ mkdir_example_call(1), of ?s] mkdir_example_call(2-4) by (auto simp: CLUSTER_MAP_SIZE_def)
  have msgs: "\<forall>s\<in>{mkdir_arguments, mkdir_cannot, mkdir_exists, mkdir_parent, mkdir_invalid}. readable ?env mkdir_kernel s"
    using mkdir_readable by simp
  have r: "mkdir_example_request = mkdir_sends (peek32 (current_directory ?env) mkdir_kernel) (mem_read (kernel_mem mkdir_kernel) 0x3200 4)" by simp
  note rep = mkdir_reports [OF mkdir_example_ready(1) msgs mkdir_example_ready(3,4,2) mkdir_example_layout r refl]
  have two: "(3 :: u32) \<noteq> 2" by simp
  have "md_error mkdir_locals = 0x3340" "RED ?env = 12" by (simp_all add: mkdir_locals_def) (simp add: mkdir_env_def)
  note at = this
  note all = rep [of dead_ports image_ops, unfolded direct_calls_simps(6)]
  note law = all [THEN conjunct2, THEN conjunct2, THEN conjunct2, THEN conjunct2, THEN conjunct2, THEN mp, OF direct.shell_calls_axioms]
  have trap: "mkdir (trapping dead_ports mkdir_env) mkdir_locals 0x3200 0x3100 2 mkdir_kernel = Some (with_mem ?m mkdir_kernel)"
    using all by blast
  have calls: "mkdir ?env mkdir_locals 0x3200 0x3100 2 mkdir_kernel = Some (after_call (md_error mkdir_locals) 0 s' mkdir_kernel)"
    using law [THEN conjunct1, rule_format, OF w] by (simp only: if_True simp_thms)
  have three: "mkdir ?env mkdir_locals 0x3200 0x3100 3 mkdir_kernel = Some (say (RED ?env) (ascii mkdir_arguments) mkdir_kernel)"
    using law [THEN conjunct2, rule_format, OF two] .
  show ?thesis using trap three calls unfolding at by blast
qed

text \<open>
  C23. A directory made from the request of \<open>mkdir\<close> consists of whatever lies at address 0 of the program. The
  command asks for call 2 with the buffer address 0, whatever \<open>syscalls\<close> is; when the function \<open>syscall\<close> of the
  kernel performs that call in that memory and the driver can write, the name is entered as a directory
  whose only cluster holds the first 2048 bytes of the program's memory, and the command ends silently. The
  driver accepts the new directory as a parent exactly when byte 11 of the program happens to be the directory
  attribute. (At this commit \<open>int 0x30\<close> does not lead to \<open>syscall\<close>, so that \<open>mkdir\<close> makes nothing, as shown above:
  this is what the request asks for.)
\<close>

theorem mkdir_directory:
  assumes "block_device ops blocks valid" and "valid (dev (storage k))"
    and "fs_ok (fat_table (storage k)) (cluster_of (blocks (dev (storage k))))"
    and "unat (arg_length args_info 1 k) \<le> 8" and "name_at = args_value + arg_position args_info 1 k"
    and "n = unat (arg_length args_info 1 k)"
    and "mkdir_layout env fr name_at n [mkdir_cannot, mkdir_exists, mkdir_parent, mkdir_invalid]"
    and "clear_of (0, CLUSTER_SIZE) (md_request fr, 23)" and "clear_of (0, CLUSTER_SIZE) (md_error fr, 4)"
    and "r = mkdir_sends (peek32 (current_directory env) k) (mem_read (kernel_mem k) name_at n)"
    and "m = mkdir_memory fr r (kernel_mem k)"
    and "write_result r (fat_table (storage k)) (cluster_of (blocks (dev (storage k)))) = 0"
  shows "mkdir env fr args_value args_info 2 k = do {
        q \<leftarrow> syscalls env 2 (md_request fr) (md_error fr) 0 (with_mem m k);
        mkdir_finish env fr name_at (arg_length args_info 1 k) q }
    \<and> (\<exists>k' D' e. syscall ops (call_frame 2 (md_request fr) (md_error fr) 0) (with_mem m k) = Some k'
      \<and> mkdir_finish env fr name_at (arg_length args_info 1 k) k' = Some k' \<and> screen k' = screen k
      \<and> D' = cluster_of (blocks (dev (storage k'))) \<and> fs_ok (fat_table (storage k')) D'
      \<and> dir_view (parent_table D' r) (req_identifier r) = Some e \<and> in_use e \<and> attribute e = ATTR_SUBDIRECTORY
      \<and> D' (unat (entry_cluster e)) = mem_read (kernel_mem k) 0 CLUSTER_SIZE
      \<and> (parent_ok (fat_table (storage k')) D' (entry_cluster e) \<longleftrightarrow> kernel_mem k 11 = ATTR_SUBDIRECTORY))"
proof -
  have regs: "regions_apart [(md_request fr, 23), (md_error fr, 4), (name_at, n), (TEXT_BUFFER, 4000)]"
    using assms(7) by (simp add: mkdir_layout_def)
  note sent = mkdir_to_write [OF assms(4) regs assms(5,6,10,11)]
  let ?s = "(storage k)\<lparr>mem := m\<rparr>"
  have r: "request_ok r" "buffer_size r = 0" "buf r = 0"
    unfolding assms(10) using assms(4) by (simp_all add: mkdir_sends_ok assms(6)) (simp_all add: mkdir_sends_def mkdir_request_def)
  have low: "mem_read m 0 CLUSTER_SIZE = mem_read (kernel_mem k) 0 CLUSTER_SIZE"
    by (rule same_besideD [OF sent(4)]) (use assms(8,9) in auto)
  then have "mem_read m 0 CLUSTER_SIZE ! 11 = mem_read (kernel_mem k) 0 CLUSTER_SIZE ! 11" by (rule arg_cong)
  then have byte: "m 11 = kernel_mem k 11" by (simp add: CLUSTER_SIZE_def)
  from block_device.directory_written [OF assms(1), of ?s r] assms(2,3,12) r obtain s' e where
    w: "write_fat32 ops r ?s = Some (0, s')" "fs_ok (fat_table s') (cluster_of (blocks (dev s')))"
      "dir_view (parent_table (cluster_of (blocks (dev s'))) r) (req_identifier r) = Some e" "in_use e" "attribute e = ATTR_SUBDIRECTORY"
      "cluster_of (blocks (dev s')) (unat (entry_cluster e)) = mem_read m 0 CLUSTER_SIZE"
      "parent_ok (fat_table s') (cluster_of (blocks (dev s'))) (entry_cluster e) \<longleftrightarrow> m 11 = ATTR_SUBDIRECTORY"
    by auto
  let ?k' = "after_call (md_error fr) 0 s' k"
  have sys: "syscall ops (call_frame 2 (md_request fr) (md_error fr) 0) (with_mem m k) = Some ?k'"
    using syscall_writes [of ops "with_mem m k" "md_request fr" 0 s'] w(1) sent(2) by (simp add: after_call_def with_mem_def)
  have "mem s' = m" using write_fat32_memory [OF w(1)] by simp
  then have "peek32 (md_error fr) ?k' = 0" using stored_on_zero [OF sent(3), of 0] by (simp add: peek32_def)
  then have "mkdir_finish env fr name_at (arg_length args_info 1 k) ?k' = Some ?k'" by (simp add: mkdir_finish_def)
  with sent(1) sys w low byte show ?thesis by auto
qed

text \<open>In the example the program starts with zeros: the new directory cannot be used.\<close>

theorem mkdir_directory_witness:
  "\<exists>m k' e. syscall image_ops (call_frame 2 0x3300 0x3340 0) (with_mem m mkdir_kernel) = Some k'
    \<and> dir_view (parent_table (disk (storage k')) mkdir_example_request) (req_identifier mkdir_example_request) = Some e
    \<and> \<not> parent_ok (fat_table (storage k')) (disk (storage k')) (entry_cluster e)"
proof -
  have low: "clear_of (0, CLUSTER_SIZE) (md_request mkdir_locals, 23)" "clear_of (0, CLUSTER_SIZE) (md_error mkdir_locals, 4)"
    by (simp_all add: mkdir_locals_def clear_of_def CLUSTER_SIZE_def)
  have "mem_read (kernel_mem mkdir_kernel) 11 1 = mem_read (\<lambda>_. 0) 11 1"
    unfolding mkdir_kernel_mem by (rule place_other)
      (simp add: mkdir_blocks_def mkdir_texts_def clear_of_def mkdir_text_lengths)
  then have "kernel_mem mkdir_kernel 11 = 0" by (simp add: mem_read_def)
  then have "kernel_mem mkdir_kernel 11 \<noteq> ATTR_SUBDIRECTORY" by (simp add: ATTR_SUBDIRECTORY_def)
  moreover have "md_request mkdir_locals = 0x3300" "md_error mkdir_locals = 0x3340" by (simp_all add: mkdir_locals_def)
  ultimately show ?thesis
    using mkdir_directory [OF img.block_device_axioms TrueI mkdir_example_call(3)
      mkdir_example_ready(3,4,2) mkdir_layout_example low refl refl mkdir_example_call(4)] by metis
qed

end
