(* ===== verification/Shell_Cp.thy ===== *)
theory Shell_Cp imports Shell_Mkdir begin

text \<open>
  The command \<open>cp\<close> of \<open>src/ch2/user-shell/cp.c\<close>. All its locals but the loop counters are arrays or
  structures, or their address is taken: they lie in the caller's memory. \<open>error_code\<close> is not initialised
  in C, so its bytes are those the stack holds.
\<close>

record cp_frame =
  src_filename :: u32
  src_extension :: u32
  dest_filename :: u32
  dest_extension :: u32
  cluster_buffer :: u32
  src_request :: u32
  cp_error :: u32
  dest_request :: u32

definition cp_arguments :: string where "cp_arguments = ''cp: incorrect number of arguments'' @ [CHR 0x0A]"
definition cp_source :: string where "cp_source = ''cp: invalid source file name'' @ [CHR 0x0A]"
definition cp_destination :: string where "cp_destination = ''cp: invalid destination file name'' @ [CHR 0x0A]"
definition cp_cannot_read :: string where "cp_cannot_read = ''cp: cannot read from source file'' @ [CHR 0x0A]"
definition cp_cannot_write :: string where "cp_cannot_write = ''cp: cannot copy to destination file'' @ [CHR 0x0A]"

text \<open>The loop that looks for the first dot of a name, and the test of its position.\<close>

definition find_dot :: "memory \<Rightarrow> u32 \<Rightarrow> u32 \<Rightarrow> int" where
  "find_dot m start len = (case scan (\<lambda>i. m (start + of_nat i) = 46) 0 (nat (sint len)) of None \<Rightarrow> -1 | Some i \<Rightarrow> int i)"

definition invalid_name :: "int \<Rightarrow> u32 \<Rightarrow> bool" where
  "invalid_name dot_index len \<longleftrightarrow> dot_index = -1 \<or> 8 < dot_index \<or> 3 < sint len - 1 - dot_index"

text \<open>Extracting name and extension of argument \<open>i\<close>; the flag is false when the name is refused.\<close>

definition cp_parse :: "u32 \<Rightarrow> u32 \<Rightarrow> u32 \<Rightarrow> u32 \<Rightarrow> nat \<Rightarrow> 'p kernel_state \<Rightarrow> bool \<times> 'p kernel_state" where
  "cp_parse filename extension args_value args_info i k =
     (let k = poke extension (replicate 3 0) (poke filename (replicate 8 0) k);
          start = args_value + arg_position args_info i k;
          len = arg_length args_info i k;
          dot_index = find_dot (kernel_mem k) start len
      in if invalid_name dot_index len then (False, k)
         else let k = with_mem (memcpy (kernel_mem k) filename start (nat dot_index)) k
              in (True, with_mem (memcpy (kernel_mem k) extension (start + of_int dot_index + 1) (nat (sint len - dot_index - 1))) k))"

text \<open>Initialising a request and copying name and extension into it.\<close>

definition cp_request :: "u32 \<Rightarrow> u32 \<Rightarrow> FAT32DriverRequest" where
  "cp_request buffer parent = \<lparr>buf = buffer, req_name = replicate 8 0, req_ext = replicate 3 0,
     parent_cluster_number = parent, buffer_size = of_nat CLUSTER_SIZE\<rparr>"

definition cp_prepare :: "u32 \<Rightarrow> u32 \<Rightarrow> u32 \<Rightarrow> FAT32DriverRequest \<Rightarrow> 'p kernel_state \<Rightarrow> 'p kernel_state" where
  "cp_prepare request filename extension r k =
     (let k = poke request (encode_request r) k;
          k = with_mem (memcpy (kernel_mem k) (request + 4) filename 8) k
      in with_mem (memcpy (kernel_mem k) (request + 12) extension 3) k)"

text \<open>What follows the first system call; then the whole command.\<close>

definition cp_finish :: "'p shell_env \<Rightarrow> cp_frame \<Rightarrow> 'p kernel_state \<Rightarrow> 'p kernel_state option" where
  "cp_finish env fr k =
     (if peek32 (cp_error fr) k \<noteq> 0 then print_message env cp_cannot_read k
      else do {
        let parent = peek32 (current_directory env) k;
        let k = cp_prepare (dest_request fr) (dest_filename fr) (dest_extension fr) (cp_request (cluster_buffer fr) parent) k;
        k \<leftarrow> syscalls env 2 (dest_request fr) (cp_error fr) 0 k;
        if peek32 (cp_error fr) k \<noteq> 0 then print_message env cp_cannot_write k
        else Some k })"

definition cp :: "'p shell_env \<Rightarrow> cp_frame \<Rightarrow> u32 \<Rightarrow> u32 \<Rightarrow> u32 \<Rightarrow> 'p kernel_state \<Rightarrow> 'p kernel_state option" where
  "cp env fr args_value args_info args_count k =
     (if args_count \<noteq> 3 then print_message env cp_arguments k
      else let (ok, k) = cp_parse (src_filename fr) (src_extension fr) args_value args_info 1 k in
      if \<not> ok then print_message env cp_source k
      else let (ok, k) = cp_parse (dest_filename fr) (dest_extension fr) args_value args_info 2 k in
      if \<not> ok then print_message env cp_destination k
      else do {
        let parent = peek32 (current_directory env) k;
        let k = with_mem (memset (kernel_mem k) (cluster_buffer fr) 0 CLUSTER_SIZE) k;
        let k = cp_prepare (src_request fr) (src_filename fr) (src_extension fr) (cp_request (cluster_buffer fr) parent) k;
        k \<leftarrow> syscalls env 0 (src_request fr) (cp_error fr) 0 k;
        cp_finish env fr k })"

section \<open>File names\<close>

text \<open>The name and the extension of \<open>name.ext\<close>, when they fit.\<close>

definition split_name :: "u8 list \<Rightarrow> (u8 list \<times> u8 list) option" where
  "split_name s =
     (let nm = takeWhile (\<lambda>c. c \<noteq> 46) s; rest = dropWhile (\<lambda>c. c \<noteq> 46) s
      in if rest = [] \<or> 8 < length nm \<or> 4 < length rest then None else Some (nm, tl rest))"

lemma take_drop_length: "length (takeWhile P xs) + length (dropWhile P xs) = length xs"
  by (metis length_append takeWhile_dropWhile_id)

lemma scan_takeWhile:
  "scan (\<lambda>i. \<not> P (xs ! i)) 0 (length xs) = (if dropWhile P xs = [] then None else Some (length (takeWhile P xs)))"
proof (cases "dropWhile P xs = []")
  case True
  then show ?thesis by (auto simp: scan_None_iff)
next
  case False
  let ?w = "takeWhile P xs"
  have l: "length ?w < length xs" using take_drop_length [of P xs] False by (cases "dropWhile P xs") auto
  then have "\<not> P (xs ! length ?w)" by (rule nth_length_takeWhile)
  moreover have "P (xs ! j)" if "j < length ?w" for j
    using that by (metis nth_mem set_takeWhileD takeWhile_nth)
  ultimately have "scan (\<lambda>i. \<not> P (xs ! i)) 0 (length xs) = Some (length ?w)" using l by (simp add: scan_Some_iff)
  with False show ?thesis by simp
qed

lemma find_dot_list:
  assumes "unat len < 2 ^ 31"
  shows "find_dot m start len = (let s = mem_read m start (unat len)
     in if dropWhile (\<lambda>c. c \<noteq> 46) s = [] then -1 else int (length (takeWhile (\<lambda>c. c \<noteq> 46) s)))"
proof -
  let ?s = "mem_read m start (unat len)"
  have "nat (sint len) = length ?s" using assms by (simp add: sint_small)
  moreover have "scan (\<lambda>i. m (start + of_nat i) = 46) 0 (length ?s) = scan (\<lambda>i. \<not> (?s ! i \<noteq> 46)) 0 (length ?s)"
    by (rule scan_cong) simp
  ultimately show ?thesis
    using scan_takeWhile [of "\<lambda>c. c \<noteq> 46" ?s] by (simp add: find_dot_def Let_def del: dropWhile_eq_Nil_conv)
qed

lemma invalid_name_iff:
  assumes "unat len < 2 ^ 31"
  shows "invalid_name (find_dot m start len) len \<longleftrightarrow> split_name (mem_read m start (unat len)) = None"
proof -
  let ?s = "mem_read m start (unat len)"
  let ?nm = "takeWhile (\<lambda>c. c \<noteq> 46) ?s" and ?rest = "dropWhile (\<lambda>c. c \<noteq> 46) ?s"
  have "length ?nm + length ?rest = unat len" using take_drop_length [of "\<lambda>c. c \<noteq> 46" ?s] by simp
  moreover have "sint len = int (unat len)" using assms by (rule sint_small)
  ultimately have "sint len - 1 - int (length ?nm) = int (length ?rest) - 1" by linarith
  then show ?thesis by (simp add: invalid_name_def find_dot_list [OF assms] split_name_def Let_def del: dropWhile_eq_Nil_conv)
qed

lemma split_name_bounds:
  assumes "split_name s = Some (nm, ex)"
  shows "length nm \<le> 8" "length ex \<le> 3" "length nm + length ex < length s" "s ! length nm = 46"
    "nm = take (length nm) s" "ex = drop (Suc (length nm)) s"
proof -
  let ?w = "takeWhile (\<lambda>c. c \<noteq> 46) s" and ?r = "dropWhile (\<lambda>c. c \<noteq> 46) s"
  have nm: "nm = ?w" and ex: "ex = tl ?r" and r: "?r \<noteq> []" "length ?w \<le> 8" "length ?r \<le> 4"
    using assms by (auto simp: split_name_def Let_def split: if_splits simp del: dropWhile_eq_Nil_conv)
  have s: "s = nm @ hd ?r # ex" using r(1) nm ex takeWhile_dropWhile_id [of "\<lambda>c. c \<noteq> 46" s] by simp
  show "length nm \<le> 8" "length ex \<le> 3" using r nm ex by simp_all
  show "length nm + length ex < length s" "nm = take (length nm) s" "ex = drop (Suc (length nm)) s" by (subst s, simp)+
  have "hd ?r = 46" using r(1) hd_dropWhile [of "\<lambda>c. c \<noteq> 46" s] by simp
  then show "s ! length nm = 46" by (subst s) simp
qed

text \<open>What extracting a name leaves in memory.\<close>

lemma cp_parse_run:
  assumes regs: "regions_apart [(fname, 8), (xa, 3), (start, n), (args_info + 8 * of_nat i, 8)]"
    and start: "start = args_value + arg_position args_info i k" and n: "n = unat (arg_length args_info i k)" "n < 2 ^ 31"
  obtains m where "cp_parse fname xa args_value args_info i k = (split_name (mem_read (kernel_mem k) start n) \<noteq> None, with_mem m k)"
    and "same_beside [(fname, 8), (xa, 3)] (kernel_mem k) m"
    and "\<And>nm x. split_name (mem_read (kernel_mem k) start n) = Some (nm, x) \<Longrightarrow> mem_read m fname 8 = pad 8 nm \<and> mem_read m xa 3 = pad 3 x"
proof -
  note apart = regions_apart_nth [OF regs]
  let ?k = "poke xa (replicate 3 0) (poke fname (replicate 8 0) k)" and ?s = "mem_read (kernel_mem k) start n"
  let ?m0 = "mem_write (mem_write (kernel_mem k) fname (replicate 8 0)) xa (replicate 3 0)"
  have k: "?k = with_mem ?m0 k" by (simp add: poke_def)
  have b0: "same_beside [(fname, 8), (xa, 3)] (kernel_mem k) ?m0"
    by (rule same_beside_write2) simp_all
  have in_args: "clear_of (args_info + 8 * of_nat i, 8) r" "clear_of (start, n) r" if "r \<in> set [(fname, 8), (xa, 3)]" for r
    using that apart [of 3 0] apart [of 3 1] apart [of 2 0] apart [of 2 1] by auto
  have args: "arg_position args_info i ?k = arg_position args_info i k" "arg_length args_info i ?k = arg_length args_info i k"
    using args_beside [of "[(fname, 8), (xa, 3)]" k ?k args_info i] b0 in_args(1) by simp_all
  have s: "mem_read ?m0 start n = ?s" using same_besideD [OF b0 in_args(2)] .
  have sn: "sint (arg_length args_info i k) = int n" using n by (simp add: sint_small)
  have inv: "invalid_name (find_dot ?m0 start (arg_length args_info i k)) (arg_length args_info i k) \<longleftrightarrow> split_name ?s = None"
    using invalid_name_iff [of "arg_length args_info i k" ?m0 start] n s by simp
  show ?thesis
  proof (cases "split_name ?s")
    case None
    have "cp_parse fname xa args_value args_info i k = (False, ?k)"
      using inv None by (simp add: cp_parse_def args flip: start)
    with None b0 that [of ?m0] show ?thesis by (simp add: k)
  next
    case (Some p)
    then obtain nm x where p: "split_name ?s = Some (nm, x)" by (cases p) auto
    note bnd = split_name_bounds [OF p]
    let ?d = "length nm"
    have "find_dot ?m0 start (arg_length args_info i k) = int ?d"
      using find_dot_list [of "arg_length args_info i k" ?m0 start] n s p
      by (auto simp: split_name_def Let_def split: if_splits simp del: dropWhile_eq_Nil_conv)
    note dot = this
    have dn: "?d < n" "?d + length x < n" "length x = n - Suc ?d"
      using bnd(3) by simp_all (subst bnd(6), simp)
    let ?m1 = "mem_write ?m0 fname nm" and ?m2 = "mem_write (mem_write ?m0 fname nm) xa x"
    have x_at: "start + of_int (int ?d) + 1 = start + of_nat (Suc ?d)" by simp
    have c1: "clear_of (fname, ?d) (start, ?d)" 
      by (rule clear_of_less [of fname 8 start n]) (use apart [of 0 2] bnd(1) dn in simp_all)
    have r1: "mem_read ?m0 start ?d = nm" using s bnd(5) take_mem_read [of ?d n ?m0 start] dn by simp
    have w1: "memcpy ?m0 fname start ?d = ?m1" using memcpy_clear [OF c1] r1 by simp
    have r2: "mem_read ?m1 (start + of_nat (Suc ?d)) (length x) = x"
    proof -
      have sx: "mem_read ?m1 start n = ?s"
        using same_besideD [OF same_beside_write [of nm 8 fname ?m0], of start n] in_args(2) bnd(1) s by simp
      have "n = Suc ?d + length x" using dn by simp
      then have "drop (Suc ?d) (mem_read ?m1 start n) = mem_read ?m1 (start + of_nat (Suc ?d)) (length x)"
        by (simp only: mem_read_add) simp
      then show ?thesis using sx bnd(6) by simp
    qed
    have w2: "memcpy ?m1 xa (start + of_nat (Suc ?d)) (length x) = ?m2"
    proof (cases "x = []")
      case True
      then show ?thesis by (simp add: memcpy_def)
    next
      case False
      then have "Suc ?d < n" using dn(2) by (cases x) auto
      then have "clear_of (start + of_nat (Suc ?d), length x) (xa, length x)"
        using clear_of_part [OF in_args(2) [of "(xa, 3)"], of "Suc ?d" "length x"] dn bnd(2) by (auto dest: clear_of_less)
      then have "clear_of (xa, length x) (start + of_nat (Suc ?d), length x)" by (subst clear_of_sym)
      from memcpy_clear [OF this, of ?m1] r2 show ?thesis by simp
    qed
    have "nat (sint (arg_length args_info i k) - int ?d - 1) = length x" using dn(1,3) sn by simp
    then have run: "cp_parse fname xa args_value args_info i k = (True, with_mem ?m2 k)"
      using inv p w1 w2 [folded x_at] by (simp add: cp_parse_def k args [unfolded k] dot Let_def flip: start)
    have "same_beside [(fname, 8), (xa, 3)] ?m0 ?m2"
        by (rule same_beside_write2) (use bnd in simp_all)
    then have beside: "same_beside [(fname, 8), (xa, 3)] (kernel_mem k) ?m2"
      using same_beside_mono [OF same_beside_trans [OF b0]] by fastforce
    have z: "mem_read ?m0 fname 8 = replicate 8 0" "mem_read ?m0 xa 3 = replicate 3 0"
      using apart [of 0 1] mem_read_write_same [of "replicate 8 0" "kernel_mem k" fname] mem_read_write_same [of "replicate 3 0"]
      by (simp_all add: read_write_clear)
    have "mem_read ?m2 fname 8 = pad 8 nm"
    proof -
      have "mem_read ?m2 fname 8 = mem_read ?m1 fname 8"
        by (rule read_write_clear, rule clear_of_less [OF _ order_refl]) (use apart [of 0 1] bnd in auto)
      then show ?thesis using mem_read_write_prefix [of nm 8 ?m0 fname] bnd(1) z(1) by (simp add: pad_def)
    qed
    moreover have "mem_read ?m2 xa 3 = pad 3 x"
    proof -
      have "mem_read ?m1 xa 3 = replicate 3 0"
        using read_write_clear [of xa 3 fname nm ?m0] apart [of 1 0] bnd(1) z(2) by (auto dest: clear_of_less)
      then show ?thesis using mem_read_write_prefix [of x 3 ?m1 xa] bnd(2) by (simp add: pad_def)
    qed
    ultimately show ?thesis using that [of ?m2] run p beside by simp
  qed
qed

lemma cp_parse_Some:
  assumes "regions_apart [(fname, 8), (xa, 3), (start, n), (args_info + 8 * of_nat i, 8)]"
    and "start = args_value + arg_position args_info i k" and "n = unat (arg_length args_info i k)" and "n < 2 ^ 31"
    and "split_name (mem_read (kernel_mem k) start n) = Some nx"
  obtains m where "cp_parse fname xa args_value args_info i k = (True, with_mem m k)"
    and "same_beside [(fname, 8), (xa, 3)] (kernel_mem k) m"
    and "mem_read m fname 8 = pad 8 (fst nx)" and "mem_read m xa 3 = pad 3 (snd nx)"
proof -
  obtain nm x where nx: "nx = (nm, x)" by fastforce
  from cp_parse_run [OF assms(1-4)] obtain m where
    m: "cp_parse fname xa args_value args_info i k = (split_name (mem_read (kernel_mem k) start n) \<noteq> None, with_mem m k)"
      "same_beside [(fname, 8), (xa, 3)] (kernel_mem k) m"
      "\<And>nm x. split_name (mem_read (kernel_mem k) start n) = Some (nm, x) \<Longrightarrow> mem_read m fname 8 = pad 8 nm \<and> mem_read m xa 3 = pad 3 x"
    by blast
  show thesis by (rule that [of m]) (use m assms(5) in \<open>simp_all add: nx\<close>)
qed

section \<open>The requests\<close>

definition cp_sends :: "u32 \<Rightarrow> u32 \<Rightarrow> u8 list \<times> u8 list \<Rightarrow> FAT32DriverRequest" where
  "cp_sends buffer parent nx = (cp_request buffer parent)\<lparr>req_name := pad 8 (fst nx), req_ext := pad 3 (snd nx)\<rparr>"

lemma cp_sends_ok: "split_name s = Some nx \<Longrightarrow> request_ok (cp_sends buffer parent nx)"
  using split_name_bounds [of s "fst nx" "snd nx"] by (simp add: cp_sends_def cp_request_def request_ok_def length_pad)

lemma cp_prepare_run:
  assumes regs: "regions_apart [(req, 23), (fname, 8), (xa, 3)]" and r: "request_ok r"
  shows "cp_prepare req fname xa r k
    = poke req (encode_request (r\<lparr>req_name := mem_read (kernel_mem k) fname 8, req_ext := mem_read (kernel_mem k) xa 3\<rparr>)) k"
proof -
  note apart = regions_apart_nth [OF regs]
  let ?m = "kernel_mem k" and ?nm = "mem_read (kernel_mem k) fname 8" and ?x = "mem_read (kernel_mem k) xa 3"
  let ?tail = "le32 (parent_cluster_number r) @ le32 (buffer_size r)"
  have l: "length (req_name r) = 8" "length (req_ext r) = 3" using r by (simp_all add: request_ok_def)
  let ?m1 = "mem_write ?m req (le32 (buf r) @ req_name r @ (req_ext r @ ?tail))"
  let ?m2 = "mem_write ?m req (le32 (buf r) @ ?nm @ (req_ext r @ ?tail))"
  have m1: "mem_write ?m req (encode_request r) = ?m1" by (simp add: encode_request_def)
  have s1: "mem_read ?m1 fname 8 = ?nm" by (rule read_write_clear) (use apart [of 1 0] l in simp)
  have s2: "mem_read ?m2 xa 3 = ?x" by (rule read_write_clear) (use apart [of 2 0] l in simp)
  have c1: "clear_of (req + 4, 8) (fname, 8)" using clear_of_part [of req 23 _ 4 8] apart [of 0 1] by simp
  have c2: "clear_of (req + 12, 3) (xa, 3)" using clear_of_part [of req 23 _ 12 3] apart [of 0 2] by simp
  have w1: "memcpy ?m1 (req + 4) fname 8 = ?m2"
    using mem_write_part [of ?nm "req_name r" "le32 (buf r)" "req_ext r @ ?tail" ?m req] l by (simp add: memcpy_clear [OF c1] s1)
  have "memcpy ?m2 (req + 12) xa 3 = mem_write ?m req ((le32 (buf r) @ ?nm) @ ?x @ ?tail)"
    using mem_write_part [of ?x "req_ext r" "le32 (buf r) @ ?nm" ?tail ?m req] l by (simp add: memcpy_clear [OF c2] s2)
  then have w2: "memcpy ?m2 (req + 12) xa 3
      = mem_write ?m req (encode_request (r\<lparr>req_name := ?nm, req_ext := ?x\<rparr>))" by (simp add: encode_request_def)
  show ?thesis by (simp add: cp_prepare_def poke_def Let_def m1 w1 w2)
qed

text \<open>The locals of the command.\<close>

definition cp_written :: "cp_frame \<Rightarrow> (u32 \<times> nat) list" where
  "cp_written fr = [(src_filename fr, 8), (src_extension fr, 3), (dest_filename fr, 8), (dest_extension fr, 3),
     (cluster_buffer fr, CLUSTER_SIZE), (src_request fr, 23)]"

definition cp_layout :: "'p shell_env \<Rightarrow> cp_frame \<Rightarrow> u32 \<Rightarrow> nat \<Rightarrow> u32 \<Rightarrow> nat \<Rightarrow> u32 \<Rightarrow> bool" where
  "cp_layout env fr a1 n1 a2 n2 args_info \<longleftrightarrow>
     regions_apart (cp_written fr @ [(dest_request fr, 23), (cp_error fr, 4), (a1, n1), (a2, n2), (args_info + 8, 8), (args_info + 16, 8),
       (current_directory env, 4), (TEXT_BUFFER, 4000)])
     \<and> (\<forall>s\<in>{cp_cannot_read, cp_cannot_write}. \<forall>r\<in>set (cp_written fr @ [(dest_request fr, 23), (cp_error fr, 4), (TEXT_BUFFER, 4000)]).
          clear_of (literal env s, Suc (length s)) r)"

text \<open>The two names, as lists of bytes, and the memory in which the first system call is made.\<close>

definition arg_bytes :: "u32 \<Rightarrow> u32 \<Rightarrow> nat \<Rightarrow> 'p kernel_state \<Rightarrow> u8 list" where
  "arg_bytes args_value args_info i k
     = mem_read (kernel_mem k) (args_value + arg_position args_info i k) (unat (arg_length args_info i k))"

lemma cp_to_read:
  assumes lay: "cp_layout env fr a1 n1 a2 n2 args_info"
    and a: "a1 = args_value + arg_position args_info 1 k" "a2 = args_value + arg_position args_info 2 k"
    and n: "n1 = unat (arg_length args_info 1 k)" "n2 = unat (arg_length args_info 2 k)" "n1 < 2 ^ 31" "n2 < 2 ^ 31"
    and split: "split_name (arg_bytes args_value args_info 1 k) = Some nx1" "split_name (arg_bytes args_value args_info 2 k) = Some nx2"
  obtains m where "cp env fr args_value args_info 3 k = do {
      q \<leftarrow> syscalls env 0 (src_request fr) (cp_error fr) 0 (with_mem m k);
      cp_finish env fr q }"
    and "decode_request m (src_request fr) = cp_sends (cluster_buffer fr) (peek32 (current_directory env) k) nx1"
    and "same_beside (cp_written fr) (kernel_mem k) m"
    and "mem_read m (dest_filename fr) 8 = pad 8 (fst nx2)" "mem_read m (dest_extension fr) 3 = pad 3 (snd nx2)"
proof -
  have regs: "regions_apart (cp_written fr @ [(dest_request fr, 23), (cp_error fr, 4), (a1, n1), (a2, n2), (args_info + 8, 8), (args_info + 16, 8),
       (current_directory env, 4), (TEXT_BUFFER, 4000)])" using lay by (simp add: cp_layout_def)
  note cl = regs [unfolded cp_written_def, simplified]
  let ?S = "[(src_filename fr, 8), (src_extension fr, 3)] :: (u32 \<times> nat) list"
    and ?T = "[(dest_filename fr, 8), (dest_extension fr, 3)] :: (u32 \<times> nat) list"
  have r1: "regions_apart [(src_filename fr, 8), (src_extension fr, 3), (a1, n1), (args_info + 8 * of_nat 1, 8)]"
    and r2: "regions_apart [(dest_filename fr, 8), (dest_extension fr, 3), (a2, n2), (args_info + 8 * of_nat 2, 8)]"
    and r3: "regions_apart [(src_request fr, 23), (src_filename fr, 8), (src_extension fr, 3)]"
    using cl by (simp_all add: clear_of_sym)
  have s1: "split_name (mem_read (kernel_mem k) a1 n1) = Some nx1" using split(1) by (simp only: a n arg_bytes_def)
  obtain m1 where
    p1: "cp_parse (src_filename fr) (src_extension fr) args_value args_info 1 k = (True, with_mem m1 k)"
    and b1: "same_beside ?S (kernel_mem k) m1"
    and f1: "mem_read m1 (src_filename fr) 8 = pad 8 (fst nx1)" "mem_read m1 (src_extension fr) 3 = pad 3 (snd nx1)"
    by (rule cp_parse_Some [OF r1 a(1) n(1,3) s1])
  have S: "clear_of (args_info + 8 * of_nat 2, 8) r" "clear_of (a2, n2) r" "clear_of (current_directory env, 4) r" if "r \<in> set ?S" for r
    using that cl by (auto simp: clear_of_sym)
  have T: "clear_of (src_filename fr, 8) r" "clear_of (src_extension fr, 3) r" "clear_of (current_directory env, 4) r" if "r \<in> set ?T" for r
    using that cl by (auto simp: clear_of_sym)
  have args2: "arg_position args_info 2 (with_mem m1 k) = arg_position args_info 2 k" "arg_length args_info 2 (with_mem m1 k) = arg_length args_info 2 k"
    using args_beside [of ?S k "with_mem m1 k" args_info 2] b1 S(1) by simp_all
  have s2: "split_name (mem_read (kernel_mem (with_mem m1 k)) a2 n2) = Some nx2"
    using same_besideD [OF b1 S(2)] split(2) a(2) n(2) by (simp add: arg_bytes_def)
  have a2: "a2 = args_value + arg_position args_info 2 (with_mem m1 k)" "n2 = unat (arg_length args_info 2 (with_mem m1 k))"
    using args2 a(2) n(2) by simp_all
  obtain m2 where
    p2: "cp_parse (dest_filename fr) (dest_extension fr) args_value args_info 2 (with_mem m1 k) = (True, with_mem m2 (with_mem m1 k))"
    and b2: "same_beside ?T (kernel_mem (with_mem m1 k)) m2"
    and f2: "mem_read m2 (dest_filename fr) 8 = pad 8 (fst nx2)" "mem_read m2 (dest_extension fr) 3 = pad 3 (snd nx2)"
    by (rule cp_parse_Some [OF r2 a2(1) a2(2) n(4) s2])
  let ?m3 = "mem_write m2 (cluster_buffer fr) (replicate CLUSTER_SIZE 0)"
  let ?r = "cp_sends (cluster_buffer fr) (peek32 (current_directory env) k) nx1"
  let ?m4 = "mem_write ?m3 (src_request fr) (encode_request ?r)"
  have ms: "memset m2 (cluster_buffer fr) 0 CLUSTER_SIZE = ?m3" by (simp add: memset_eq CLUSTER_SIZE_def)
  have b3: "same_beside [(cluster_buffer fr, CLUSTER_SIZE)] m2 ?m3" by (rule same_beside_write) simp
  have parent: "peek32 (current_directory env) (with_mem m2 k) = peek32 (current_directory env) k"
    using same_besideD [OF b2 T(3)] same_besideD [OF b1 S(3)] by (simp add: peek32_def)
  have keep: "mem_read ?m3 a j = mem_read m2 a j" if "clear_of (a, j) (cluster_buffer fr, CLUSTER_SIZE)" for a j
    using same_besideD [OF b3, of a j] that by simp
  have src: "mem_read ?m3 (src_filename fr) 8 = pad 8 (fst nx1)" "mem_read ?m3 (src_extension fr) 3 = pad 3 (snd nx1)"
    using keep [of "src_filename fr" 8] keep [of "src_extension fr" 3] same_besideD [OF b2 T(1)] same_besideD [OF b2 T(2)] f1 cl by simp_all
  have ok: "request_ok (cp_request (cluster_buffer fr) (peek32 (current_directory env) k))" "request_ok ?r"
    using cp_sends_ok [OF split(1)] by (simp_all add: cp_request_def request_ok_def)
  have prep: "cp_prepare (src_request fr) (src_filename fr) (src_extension fr)
      (cp_request (cluster_buffer fr) (peek32 (current_directory env) k)) (with_mem ?m3 k) = with_mem ?m4 k"
    unfolding cp_prepare_run [OF r3 ok(1)] by (simp add: src cp_sends_def poke_def)
  show thesis
  proof (rule that [of ?m4])
    show "cp env fr args_value args_info 3 k = do {
      q \<leftarrow> syscalls env 0 (src_request fr) (cp_error fr) 0 (with_mem ?m4 k);
      cp_finish env fr q }"
      by (simp add: cp_def p1 p2 ms prep parent Let_def del: One_nat_def)
    show "decode_request ?m4 (src_request fr) = ?r" by (rule decode_encode_request [OF ok(2)])
    have b4: "same_beside [(src_request fr, 23)] ?m3 ?m4" by (rule same_beside_write) (simp add: length_encode_request ok)
    have "same_beside (((?S @ ?T) @ [(cluster_buffer fr, CLUSTER_SIZE)]) @ [(src_request fr, 23)]) (kernel_mem k) ?m4"
      by (rule same_beside_trans [OF same_beside_trans [OF same_beside_trans [OF b1] b3] b4]) (use b2 in simp)
    then show "same_beside (cp_written fr) (kernel_mem k) ?m4" by (rule same_beside_mono) (simp add: cp_written_def)
    have "mem_read ?m4 a j = mem_read m2 a j"
      if "clear_of (a, j) (cluster_buffer fr, CLUSTER_SIZE)" "clear_of (a, j) (src_request fr, 23)" for a j
      using same_besideD [OF b4, of a j] keep [of a j] that by simp
    then show "mem_read ?m4 (dest_filename fr) 8 = pad 8 (fst nx2)" "mem_read ?m4 (dest_extension fr) 3 = pad 3 (snd nx2)"
      using f2 cl by simp_all
  qed
qed

section \<open>What the command does\<close>

text \<open>The command was called with two valid names, in a memory laid out as the compiler lays it out.\<close>

definition cp_call :: "'p shell_env \<Rightarrow> cp_frame \<Rightarrow> u32 \<Rightarrow> u32 \<Rightarrow> 'p kernel_state \<Rightarrow> u8 list \<times> u8 list \<Rightarrow> u8 list \<times> u8 list \<Rightarrow> bool" where
  "cp_call env fr args_value args_info k nx1 nx2 \<longleftrightarrow>
     on_screen (screen k) \<and> readable env k cp_cannot_read \<and> readable env k cp_cannot_write
     \<and> unat (arg_length args_info 1 k) < 2 ^ 31 \<and> unat (arg_length args_info 2 k) < 2 ^ 31
     \<and> cp_layout env fr (args_value + arg_position args_info 1 k) (unat (arg_length args_info 1 k))
         (args_value + arg_position args_info 2 k) (unat (arg_length args_info 2 k)) args_info
     \<and> split_name (arg_bytes args_value args_info 1 k) = Some nx1 \<and> split_name (arg_bytes args_value args_info 2 k) = Some nx2"

lemma layout_clear:
  assumes "cp_layout env fr a1 n1 a2 n2 args_info"
  shows "regions_apart [(dest_request fr, 23), (dest_filename fr, 8), (dest_extension fr, 3)]"
    "\<And>r. r \<in> set (cp_written fr @ [(dest_request fr, 23)]) \<Longrightarrow> clear_of (cp_error fr, 4) r"
    "\<And>r. r \<in> set (cp_written fr @ [(dest_request fr, 23), (cp_error fr, 4)]) \<Longrightarrow> clear_of (current_directory env, 4) r"
    "\<And>s r. s \<in> {cp_cannot_read, cp_cannot_write} \<Longrightarrow> r \<in> set (cp_written fr @ [(dest_request fr, 23), (cp_error fr, 4)]) \<Longrightarrow>
      clear_of (literal env s, Suc (length s)) r"
    "\<And>r. r \<in> {(dest_filename fr, 8), (dest_extension fr, 3)} \<Longrightarrow> clear_of r (cluster_buffer fr, CLUSTER_SIZE) \<and> clear_of r (cp_error fr, 4)"
    "clear_of (cluster_buffer fr, CLUSTER_SIZE) (dest_request fr, 23) \<and> clear_of (cluster_buffer fr, CLUSTER_SIZE) (cp_error fr, 4)"
proof -
  note cl = assms [unfolded cp_layout_def, THEN conjunct1, unfolded cp_written_def, simplified]
  show "regions_apart [(dest_request fr, 23), (dest_filename fr, 8), (dest_extension fr, 3)]"
    "\<And>r. r \<in> set (cp_written fr @ [(dest_request fr, 23)]) \<Longrightarrow> clear_of (cp_error fr, 4) r"
    "\<And>r. r \<in> set (cp_written fr @ [(dest_request fr, 23), (cp_error fr, 4)]) \<Longrightarrow> clear_of (current_directory env, 4) r"
    "\<And>r. r \<in> {(dest_filename fr, 8), (dest_extension fr, 3)} \<Longrightarrow> clear_of r (cluster_buffer fr, CLUSTER_SIZE) \<and> clear_of r (cp_error fr, 4)"
    "clear_of (cluster_buffer fr, CLUSTER_SIZE) (dest_request fr, 23) \<and> clear_of (cluster_buffer fr, CLUSTER_SIZE) (cp_error fr, 4)"
    using cl by (auto simp: cp_written_def clear_of_sym)
  show "\<And>s r. s \<in> {cp_cannot_read, cp_cannot_write} \<Longrightarrow> r \<in> set (cp_written fr @ [(dest_request fr, 23), (cp_error fr, 4)]) \<Longrightarrow>
      clear_of (literal env s, Suc (length s)) r"
    using assms by (auto simp: cp_layout_def)
qed

text \<open>The command between a read that left 0 in \<open>error_code\<close> and its second system call.\<close>

lemma cp_to_write:
  assumes lay: "cp_layout env fr a1 n1 a2 n2 args_info" and zero: "mem_read (kernel_mem k) (cp_error fr) 4 = replicate 4 0"
    and names: "mem_read (kernel_mem k) (dest_filename fr) 8 = pad 8 (fst nx)" "mem_read (kernel_mem k) (dest_extension fr) 3 = pad 3 (snd nx)"
    and r: "r = cp_sends (cluster_buffer fr) (peek32 (current_directory env) k) nx" "request_ok r"
    and m: "m = mem_write (kernel_mem k) (dest_request fr) (encode_request r)"
  shows "cp_finish env fr k = do {
      q \<leftarrow> syscalls env 2 (dest_request fr) (cp_error fr) 0 (with_mem m k);
      if peek32 (cp_error fr) q \<noteq> 0 then print_message env cp_cannot_write q else Some q }"
    and "decode_request m (dest_request fr) = r" and "mem_read m (cp_error fr) 4 = replicate 4 0"
    and "same_beside [(dest_request fr, 23)] (kernel_mem k) m"
proof -
  let ?r0 = "cp_request (cluster_buffer fr) (peek32 (current_directory env) k)"
  have ok: "request_ok ?r0" by (simp add: cp_request_def request_ok_def)
  have prep: "cp_prepare (dest_request fr) (dest_filename fr) (dest_extension fr) ?r0 k = with_mem m k"
    unfolding cp_prepare_run [OF layout_clear(1) [OF lay] ok] by (simp add: names poke_def m r(1) cp_sends_def)
  have e0: "peek32 (cp_error fr) k = 0" by (simp add: peek32_def zero of_le32_eq_0)
  show "cp_finish env fr k = do {
      q \<leftarrow> syscalls env 2 (dest_request fr) (cp_error fr) 0 (with_mem m k);
      if peek32 (cp_error fr) q \<noteq> 0 then print_message env cp_cannot_write q else Some q }"
    by (simp add: cp_finish_def e0 prep Let_def)
  show "decode_request m (dest_request fr) = r" unfolding m by (rule decode_encode_request [OF r(2)])
  show "mem_read m (cp_error fr) 4 = replicate 4 0"
    unfolding m using layout_clear(2) [OF lay, of "(dest_request fr, 23)"] zero r(2)
    by (simp add: read_write_clear length_encode_request)
  show "same_beside [(dest_request fr, 23)] (kernel_mem k) m"
    unfolding m by (rule same_beside_write) (simp add: length_encode_request r(2))
qed

text \<open>
  The first system call the command asks for, whatever \<open>syscalls\<close> is, and what the function \<open>syscall\<close> of the kernel
  makes of it for a source of one cluster, on any block device.
\<close>

lemma cp_first_call:
  assumes bd: "block_device ops blocks valid" and v: "valid (dev (storage k))" and call: "cp_call env fr args_value args_info k nx1 nx2"
    and r1: "r1 = cp_sends (cluster_buffer fr) (peek32 (current_directory env) k) nx1"
    and D: "D = cluster_of (blocks (dev (storage k)))"
    and ok: "parent_ok (fat_table (storage k)) D (parent_cluster_number r1)"
    and found: "find_entry (req_identifier r1) (parent_table D r1) = Some i" "read_code r1 (parent_table D r1) = 0"
    and path: "fat_path (fat_table (storage k)) (entry_cluster (parent_table D r1 ! i)) [x]"
  obtains m s1 where "cp env fr args_value args_info 3 k = do {
      q \<leftarrow> syscalls env 0 (src_request fr) (cp_error fr) 0 (with_mem m k);
      cp_finish env fr q }"
    and "decode_request m (src_request fr) = r1"
    and "syscall ops (call_frame 0 (src_request fr) (cp_error fr) 0) (with_mem m k) = Some (after_call (cp_error fr) 0 s1 k)"
    and "mem s1 = mem_write m (cluster_buffer fr) (D x)" "length (D x) = CLUSTER_SIZE" "same_beside (cp_written fr) (kernel_mem k) m"
    and "mem_read m (dest_filename fr) 8 = pad 8 (fst nx2)" "mem_read m (dest_extension fr) 3 = pad 3 (snd nx2)"
    and "valid (dev s1)" "fat_table s1 = fat_table (storage k)" "\<forall>j<2048. cluster_of (blocks (dev s1)) j = D j"
proof -
  let ?a1 = "args_value + arg_position args_info 1 k" and ?a2 = "args_value + arg_position args_info 2 k"
  let ?n1 = "unat (arg_length args_info 1 k)" and ?n2 = "unat (arg_length args_info 2 k)"
  have lay: "cp_layout env fr ?a1 ?n1 ?a2 ?n2 args_info" and n: "?n1 < 2 ^ 31" "?n2 < 2 ^ 31"
    and split: "split_name (arg_bytes args_value args_info 1 k) = Some nx1" "split_name (arg_bytes args_value args_info 2 k) = Some nx2"
    using call by (simp_all add: cp_call_def)
  from cp_to_read [OF lay refl refl refl refl n split] obtain m where
    run: "cp env fr args_value args_info 3 k = do {
      q \<leftarrow> syscalls env 0 (src_request fr) (cp_error fr) 0 (with_mem m k);
      cp_finish env fr q }"
    and req: "decode_request m (src_request fr) = r1"
    and m: "same_beside (cp_written fr) (kernel_mem k) m"
      "mem_read m (dest_filename fr) 8 = pad 8 (fst nx2)" "mem_read m (dest_extension fr) 3 = pad 3 (snd nx2)"
    by (auto simp: r1)
  let ?s = "storage (with_mem m k)"
  have b: "buf r1 = cluster_buffer fr" by (simp add: r1 cp_sends_def cp_request_def)
  have x: "chain_bytes D [x] = D x" "x < 2048" using path by (simp_all add: chain_bytes_def CLUSTER_MAP_SIZE_def)
  have s: "cluster_of (blocks (dev ?s)) = D" "fat_table ?s = fat_table (storage k)" "dev ?s = dev (storage k)" "mem ?s = m"
    by (simp_all add: D)
  from block_device.read_succeeds [OF bd, of ?s r1 i "[x]", unfolded s, folded D, OF v ok found path, unfolded b x(1)] obtain d' where
    rd: "read_fat32 ops r1 ?s = Some (0, ?s\<lparr>dir_table_buf := parent_table D r1, mem := mem_write m (cluster_buffer fr) (D x), dev := d'\<rparr>)"
    and d': "valid d'" "\<forall>j<2048. cluster_of (blocks d') j = D j" by blast
  let ?s1 = "?s\<lparr>dir_table_buf := parent_table D r1, mem := mem_write m (cluster_buffer fr) (D x), dev := d'\<rparr>"
  have sys: "syscall ops (call_frame 0 (src_request fr) (cp_error fr) 0) (with_mem m k) = Some (after_call (cp_error fr) 0 ?s1 k)"
    using syscall_reads [of ops "with_mem m k" "src_request fr" 0 ?s1] rd req by (simp add: after_call_def with_mem_def)
  have "length (D x) = CLUSTER_SIZE" using block_device.length_cluster [OF bd v x(2)] by (simp add: D CLUSTER_SIZE_def)
  with that [OF run req sys] m d' show thesis by simp
qed

lemma error_bytes:
  assumes "cp_layout env fr a1 n1 a2 n2 args_info" and "same_beside (cp_written fr) (kernel_mem k) m"
    and "mem s1 = mem_write m (cluster_buffer fr) bs" and "length bs = CLUSTER_SIZE"
  shows "mem_read (kernel_mem (after_call (cp_error fr) 0 s1 k)) (cp_error fr) 4 = 0 # mem_read (kernel_mem k) (cp_error fr + 1) 3"
proof -
  have clear: "clear_of (cp_error fr, 4) r" if "r \<in> set (cp_written fr)" for r
    using layout_clear(2) [OF assms(1)] that by auto
  have "mem_read (mem s1) (cp_error fr) 4 = mem_read m (cp_error fr) 4"
    unfolding assms(3) by (rule read_write_clear) (use clear [of "(cluster_buffer fr, CLUSTER_SIZE)"] in \<open>simp add: assms(4) cp_written_def\<close>)
  also have "\<dots> = mem_read (kernel_mem k) (cp_error fr) 4" using assms(2) clear by (rule same_besideD)
  finally have "mem_read (mem s1) (cp_error fr + 1) 3 = mem_read (kernel_mem k) (cp_error fr + 1) 3"
    by (simp add: read4_Cons)
  then show ?thesis by (simp add: upd_read_rest)
qed

lemma after_read_beside:
  assumes "same_beside (cp_written fr) (kernel_mem k) m" and "mem s1 = mem_write m (cluster_buffer fr) bs" and "length bs = CLUSTER_SIZE"
  shows "same_beside (cp_written fr @ [(cp_error fr, 4)]) (kernel_mem k) (kernel_mem (after_call (cp_error fr) c s1 k))"
proof -
  have "same_beside [(cluster_buffer fr, CLUSTER_SIZE)] m (mem s1)" unfolding assms(2) by (rule same_beside_write) (simp add: assms(3))
  from same_beside_trans [OF same_beside_trans [OF assms(1) this] same_beside_upd, of "cp_error fr" "of_int c"]
  show ?thesis by (auto simp: cp_written_def intro: same_beside_mono)
qed

text \<open>The state between the two system calls.\<close>

lemma cp_reads:
  assumes "block_device ops blocks valid" and "valid (dev (storage k))" and call: "cp_call env fr args_value args_info k nx1 nx2"
    and "r1 = cp_sends (cluster_buffer fr) (peek32 (current_directory env) k) nx1" and "D = cluster_of (blocks (dev (storage k)))"
    and "parent_ok (fat_table (storage k)) D (parent_cluster_number r1)"
    and "find_entry (req_identifier r1) (parent_table D r1) = Some i" "read_code r1 (parent_table D r1) = 0"
    and "fat_path (fat_table (storage k)) (entry_cluster (parent_table D r1 ! i)) [x]"
  obtains m K where "cp env fr args_value args_info 3 k = do {
      q \<leftarrow> syscalls env 0 (src_request fr) (cp_error fr) 0 (with_mem m k);
      cp_finish env fr q }"
    and "decode_request m (src_request fr) = r1" "same_beside (cp_written fr) (kernel_mem k) m"
    and "syscall ops (call_frame 0 (src_request fr) (cp_error fr) 0) (with_mem m k) = Some K"
    and "screen K = screen k" "same_beside (cp_written fr @ [(cp_error fr, 4)]) (kernel_mem k) (kernel_mem K)"
    and "mem_read (kernel_mem K) (cp_error fr) 4 = 0 # mem_read (kernel_mem k) (cp_error fr + 1) 3"
    and "mem_read (kernel_mem K) (dest_filename fr) 8 = pad 8 (fst nx2)" "mem_read (kernel_mem K) (dest_extension fr) 3 = pad 3 (snd nx2)"
    and "mem_read (kernel_mem K) (cluster_buffer fr) CLUSTER_SIZE = D x"
    and "valid (dev (storage K))" "fat_table (storage K) = fat_table (storage k)" "\<forall>j<2048. cluster_of (blocks (dev (storage K))) j = D j"
proof -
  from cp_first_call [OF assms] obtain m s1 where
    fin: "cp env fr args_value args_info 3 k = do {
      q \<leftarrow> syscalls env 0 (src_request fr) (cp_error fr) 0 (with_mem m k);
      cp_finish env fr q }" "decode_request m (src_request fr) = r1"
      "syscall ops (call_frame 0 (src_request fr) (cp_error fr) 0) (with_mem m k) = Some (after_call (cp_error fr) 0 s1 k)"
    and s1: "mem s1 = mem_write m (cluster_buffer fr) (D x)" "length (D x) = CLUSTER_SIZE" "same_beside (cp_written fr) (kernel_mem k) m"
      "valid (dev s1)" "fat_table s1 = fat_table (storage k)" "\<forall>j<2048. cluster_of (blocks (dev s1)) j = D j"
    and names: "mem_read m (dest_filename fr) 8 = pad 8 (fst nx2)" "mem_read m (dest_extension fr) 3 = pad 3 (snd nx2)"
    by blast
  let ?K = "after_call (cp_error fr) 0 s1 k"
  have lay: "cp_layout env fr (args_value + arg_position args_info 1 k) (unat (arg_length args_info 1 k))
      (args_value + arg_position args_info 2 k) (unat (arg_length args_info 2 k)) args_info"
    using call by (simp add: cp_call_def)
  have store: "mem_read (kernel_mem ?K) a j = mem_read (mem s1) a j" if "clear_of (a, j) (cp_error fr, 4)" for a j
    using same_besideD [OF same_beside_upd [of "cp_error fr" "mem s1" 0], of a j] that by simp
  have "mem_read (kernel_mem ?K) a j = mem_read m a j"
    if "clear_of (a, j) (cluster_buffer fr, CLUSTER_SIZE)" "clear_of (a, j) (cp_error fr, 4)" for a j
    using store [of a j] that read_write_clear [of a j "cluster_buffer fr" "D x" m] by (simp add: s1(1,2))
  then have names': "mem_read (kernel_mem ?K) (dest_filename fr) 8 = pad 8 (fst nx2)" "mem_read (kernel_mem ?K) (dest_extension fr) 3 = pad 3 (snd nx2)"
    using layout_clear(5) [OF lay] names by simp_all
  have "mem_read (kernel_mem ?K) (cluster_buffer fr) CLUSTER_SIZE = D x"
    using store layout_clear(6) [OF lay] mem_read_write_same [of "D x" m "cluster_buffer fr"] s1(1,2) by (simp add: CLUSTER_SIZE_def)
  with names' that [OF fin(1,2) s1(3) fin(3) _ after_read_beside [OF s1(3,1,2)] error_bytes [OF lay s1(3,1,2)]] s1(4-6) show thesis by simp
qed

section \<open>Properties\<close>

lemma replicate_4: "replicate 4 a = a # replicate 3 a"
  by (simp add: numeral_eq_Suc)


text \<open>
  C34. At this commit \<open>cp\<close> does nothing and does not say so. Its two system calls are \<open>int 0x30\<close>, which the handler of
  the kernel ignores: called with two valid names, whatever the stack holds in \<open>error_code\<close>, whether the source
  exists or not, the command returns, and nothing has changed but its own locals: not the screen, the
  keyboard, the FAT, the driver's buffers or the disk.
\<close>

theorem cp_silent:
  assumes "cp_call env fr args_value args_info k nx1 nx2"
  shows "\<exists>m. cp (trapping io env) fr args_value args_info 3 k = Some (with_mem m k)
    \<and> same_beside (cp_written fr @ [(dest_request fr, 23)]) (kernel_mem k) m"
proof -
  let ?env = "trapping io env"
  let ?a1 = "args_value + arg_position args_info 1 k" and ?a2 = "args_value + arg_position args_info 2 k"
  let ?n1 = "unat (arg_length args_info 1 k)" and ?n2 = "unat (arg_length args_info 2 k)"
  have lay: "cp_layout ?env fr ?a1 ?n1 ?a2 ?n2 args_info" and lay0: "cp_layout env fr ?a1 ?n1 ?a2 ?n2 args_info"
    and n: "?n1 < 2 ^ 31" "?n2 < 2 ^ 31" and msg: "readable env k cp_cannot_read"
    and split: "split_name (arg_bytes args_value args_info 1 k) = Some nx1" "split_name (arg_bytes args_value args_info 2 k) = Some nx2"
    using assms by (simp_all add: cp_call_def cp_layout_def)
  from cp_to_read [OF lay refl refl refl refl n split] obtain m where
    run: "cp ?env fr args_value args_info 3 k = cp_finish ?env fr (with_mem m k)"
    and m: "same_beside (cp_written fr) (kernel_mem k) m"
      "mem_read m (dest_filename fr) 8 = pad 8 (fst nx2)" "mem_read m (dest_extension fr) 3 = pad 3 (snd nx2)"
    by auto
  show ?thesis
  proof (cases "mem_read m (cp_error fr) 4 = replicate 4 0")
    case True
    let ?r = "cp_sends (cluster_buffer fr) (peek32 (current_directory ?env) (with_mem m k)) nx2"
    let ?m = "mem_write m (dest_request fr) (encode_request ?r)"
    note second = cp_to_write [where k = "with_mem m k" and nx = nx2 and m = ?m, OF lay _ _ _ refl cp_sends_ok [OF split(2)]]
    have "cp_finish ?env fr (with_mem m k) = Some (with_mem ?m k)"
      using second(1,3) True m by (simp add: peek32_def of_le32_eq_0)
    moreover have "same_beside [(dest_request fr, 23)] m ?m" using second(4) True m by simp
    ultimately show ?thesis using run same_beside_trans [OF m(1)] by auto
  next
    case False
    then have "peek32 (cp_error fr) (with_mem m k) \<noteq> 0" by (simp add: peek32_def of_le32_eq_0)
    moreover have "readable env (with_mem m k) cp_cannot_read"
      by (rule readable_beside [OF msg, of "cp_written fr"]) (use m(1) layout_clear(4) [OF lay0, of cp_cannot_read] in auto)
    ultimately have "cp_finish ?env fr (with_mem m k) = Some (with_mem m k)"
      by (simp add: cp_finish_def trapping_print)
    moreover have "same_beside (cp_written fr @ [(dest_request fr, 23)]) (kernel_mem k) m"
      using m(1) by (rule same_beside_mono) auto
    ultimately show ?thesis using run by auto
  qed
qed

text \<open>
  A program that calls \<open>cp hello.txt copy.txt\<close> on the image with the file \<open>hello.txt\<close>, and its memory; \<open>e\<close>
  are the bytes the stack holds at \<open>error_code\<close>.
\<close>

definition cp_env :: "image shell_env" where
  "cp_env = mkdir_env\<lparr>literal := \<lambda>s. if s = cp_cannot_read then 0x4800 else 0x4880\<rparr>"

definition cp_blocks :: "u8 list \<Rightarrow> (u32 \<times> u8 list) list" where
  "cp_blocks e = [(0x3000, le32 2), (0x3108, le32 0), (0x310C, le32 9), (0x3110, le32 16), (0x3114, le32 8),
     (0x3200, ascii ''hello.txt''), (0x3210, ascii ''copy.txt''), (0x3340, e),
     (0x4800, ascii cp_cannot_read @ [0]), (0x4880, ascii cp_cannot_write @ [0])]"

definition cp_kernel :: "u8 list \<Rightarrow> image kernel_state" where
  "cp_kernel e = mkdir_kernel\<lparr>storage := with_hello (place (cp_blocks e) (\<lambda>_. 0))\<rparr>"

definition cp_locals :: cp_frame where
  "cp_locals = \<lparr>src_filename = 0x3400, src_extension = 0x3410, dest_filename = 0x3420, dest_extension = 0x3430,
     cluster_buffer = 0x3800, src_request = 0x3440, cp_error = 0x3340, dest_request = 0x3460\<rparr>"

lemma cp_text_lengths: "length cp_cannot_read = 33" "length cp_cannot_write = 36"
  by (simp_all add: cp_cannot_read_def cp_cannot_write_def)

lemma cp_blocks_apart: "length e = 4 \<Longrightarrow> blocks_apart (cp_blocks e)"
  by (simp add: blocks_apart_def cp_blocks_def clear_of_def cp_text_lengths)

lemma cp_kernel_mem: "kernel_mem (cp_kernel e) = place (cp_blocks e) (\<lambda>_. 0)"
  by (simp add: cp_kernel_def with_hello_facts)

lemma cp_kernel_read:
  assumes "length e = 4" and "(a, b) \<in> set (cp_blocks e)" and "length b = n" and "n \<le> 2 ^ 32"
  shows "mem_read (kernel_mem (cp_kernel e)) a n = b"
  using place_read [OF cp_blocks_apart [OF assms(1)] assms(2), of "\<lambda>_. 0"] assms(3,4) by (simp add: cp_kernel_mem)

lemma cp_readable:
  assumes "length e = 4"
  shows "readable cp_env (cp_kernel e) cp_cannot_read" "readable cp_env (cp_kernel e) cp_cannot_write"
proof -
  have ne: "cp_cannot_write \<noteq> cp_cannot_read" by (rule notI, drule arg_cong [of _ _ length]) (simp add: cp_text_lengths)
  note placed = placed_readable [OF cp_blocks_apart [OF assms] _ cp_kernel_mem]
  note at = cp_env_def cp_blocks_def cp_text_lengths clear_of_def TEXT_BUFFER_def
  have chars: "0 \<notin> set (ascii cp_cannot_read)" "0 \<notin> set (ascii cp_cannot_write)"
    by (simp_all add: cp_cannot_read_def cp_cannot_write_def ascii_def)
  show "readable cp_env (cp_kernel e) cp_cannot_read" by (rule placed) (use chars in \<open>simp_all add: at\<close>)
  show "readable cp_env (cp_kernel e) cp_cannot_write" by (rule placed) (use chars ne in \<open>simp_all add: at\<close>)
qed

lemma cp_args:
  assumes "length e = 4"
  shows "arg_position 0x3100 1 (cp_kernel e) = 0" "arg_length 0x3100 1 (cp_kernel e) = 9"
    "arg_position 0x3100 2 (cp_kernel e) = 16" "arg_length 0x3100 2 (cp_kernel e) = 8"
    "peek32 (current_directory cp_env) (cp_kernel e) = 2" "mem_read (kernel_mem (cp_kernel e)) 0x3340 4 = e"
    "arg_bytes 0x3200 0x3100 1 (cp_kernel e) = ascii ''hello.txt''" "arg_bytes 0x3200 0x3100 2 (cp_kernel e) = ascii ''copy.txt''"
proof -
  note rd = cp_kernel_read [OF assms]
  show 1: "arg_position 0x3100 1 (cp_kernel e) = 0" "arg_length 0x3100 1 (cp_kernel e) = 9"
    "arg_position 0x3100 2 (cp_kernel e) = 16" "arg_length 0x3100 2 (cp_kernel e) = 8"
    "peek32 (current_directory cp_env) (cp_kernel e) = 2"
    using rd [of "0x3108" "le32 0" 4] rd [of "0x310C" "le32 9" 4] rd [of "0x3110" "le32 16" 4] rd [of "0x3114" "le32 8" 4] rd [of "0x3000" "le32 2" 4]
    by (simp_all add: arg_position_def arg_length_def peek32_def cp_blocks_def cp_env_def mkdir_env_def)
  show "mem_read (kernel_mem (cp_kernel e)) 0x3340 4 = e" by (rule rd) (simp_all add: assms cp_blocks_def)
  show "arg_bytes 0x3200 0x3100 1 (cp_kernel e) = ascii ''hello.txt''" "arg_bytes 0x3200 0x3100 2 (cp_kernel e) = ascii ''copy.txt''"
    unfolding arg_bytes_def 1 by (rule rd; simp add: cp_blocks_def)+
qed

lemma cp_example_call:
  assumes "length e = 4"
  shows "cp_call cp_env cp_locals 0x3200 0x3100 (cp_kernel e) (ascii ''hello'', ascii ''txt'') (ascii ''copy'', ascii ''txt'')"
proof -
  have "cp_layout cp_env cp_locals 0x3200 9 0x3210 8 0x3100"
    by (simp add: cp_layout_def cp_written_def cp_locals_def clear_of_def TEXT_BUFFER_def CLUSTER_SIZE_def cp_env_def mkdir_env_def cp_text_lengths)
  moreover have "on_screen (screen (cp_kernel e))" using mkdir_example_ready(1) by (simp add: cp_kernel_def)
  moreover have "split_name (ascii ''hello.txt'') = Some (ascii ''hello'', ascii ''txt'')" "split_name (ascii ''copy.txt'') = Some (ascii ''copy'', ascii ''txt'')"
    by (simp_all add: split_name_def ascii_def)
  ultimately show ?thesis using cp_readable [OF assms] cp_args [OF assms] by (simp add: cp_call_def)
qed

abbreviation hello_request :: FAT32DriverRequest where
  "hello_request \<equiv> cp_sends 0x3800 2 (ascii ''hello'', ascii ''txt'')"

abbreviation copy_request :: FAT32DriverRequest where
  "copy_request \<equiv> cp_sends 0x3800 2 (ascii ''copy'', ascii ''txt'')"

lemma cp_example_source:
  fixes m :: memory
  defines "D \<equiv> disk (with_hello m)"
  shows "fs_ok hello_fat D" "parent_ok hello_fat D (parent_cluster_number hello_request)"
    "find_entry (req_identifier hello_request) (parent_table D hello_request) = Some 2"
    "read_code hello_request (parent_table D hello_request) = 0" "fat_path hello_fat (entry_cluster (parent_table D hello_request ! 2)) [3]"
proof -
  have p: "parent_cluster_number hello_request = 2" by (simp add: cp_sends_def cp_request_def)
  have t: "parent_table D hello_request = hello_table" using with_hello_table [OF p] by (simp add: D_def)
  have i: "req_identifier hello_request = req_identifier hello"
    by (simp add: req_identifier_def cp_sends_def hello_def pad_def ascii_def numeral_eq_Suc)
  show "fs_ok hello_fat D" using tree_fs_ok [OF reach_tree [OF with_hello_reach [of m]]] by (simp add: D_def with_hello_facts)
  show "parent_ok hello_fat D (parent_cluster_number hello_request)" using with_hello_parent by (simp only: p D_def)
  show f: "find_entry (req_identifier hello_request) (parent_table D hello_request) = Some 2" using hello_found by (simp add: t i)
  have "attribute (hello_table ! 2) = 0" "filesize (hello_table ! 2) = 2048" "entry_cluster (hello_table ! 2) = 3"
    by (simp_all add: hello_entry hello_ok zero_entry_def CLUSTER_SIZE_def fresh_free)
  with f hello_chain show "read_code hello_request (parent_table D hello_request) = 0"
    "fat_path hello_fat (entry_cluster (parent_table D hello_request ! 2)) [3]"
    by (simp_all add: read_code_def t ATTR_SUBDIRECTORY_def) (simp add: cp_sends_def cp_request_def CLUSTER_SIZE_def)
qed

lemma cp_example_target:
  fixes m :: memory
  defines "D \<equiv> disk (with_hello m)"
  shows "write_result copy_request hello_fat D = 0"
    "attribute (parent_table D copy_request ! the (find_empty_slot (parent_table D copy_request))) \<noteq> ATTR_SUBDIRECTORY"
proof -
  have p: "parent_cluster_number copy_request = 2" by (simp add: cp_sends_def cp_request_def)
  have t: "parent_table D copy_request = hello_table" using with_hello_table [OF p] by (simp add: D_def)
  have "request_ok copy_request" by (rule cp_sends_ok [of "ascii ''copy.txt''"]) (simp add: split_name_def ascii_def)
  moreover have "hd (req_identifier copy_request) \<noteq> hd (req_identifier hello)"
    by (simp add: req_identifier_def cp_sends_def hello_def pad_def ascii_def)
  then have "req_identifier copy_request \<noteq> req_identifier hello" by (rule contrapos_nn) (rule arg_cong)
  moreover have "clusters_written copy_request \<le> 508" by (simp add: cp_sends_def cp_request_def clusters_written_def CLUSTER_SIZE_def)
  ultimately have "write_code copy_request hello_fat hello_table = 0" by (rule second_file_code)
  then show "write_result copy_request hello_fat D = 0" using with_hello_parent by (simp add: write_result_def p t) (simp add: D_def)
  have "root_directory_table ! 3 = zero_entry" by (simp add: root_directory_table_def DIR_ENTRIES_def)
  then have a: "attribute (hello_table ! 3) = 0" by (simp add: hello_table_other zero_entry_def)
  show "attribute (parent_table D copy_request ! the (find_empty_slot (parent_table D copy_request))) \<noteq> ATTR_SUBDIRECTORY"
    using a by (simp add: t hello_slot ATTR_SUBDIRECTORY_def)
qed

lemma cp_example_fat: "fat_table (storage (cp_kernel e)) = hello_fat"
  by (simp add: cp_kernel_def with_hello_facts)

lemma cp_example_disk: "disk (storage (cp_kernel e)) = disk (with_hello (place (cp_blocks e) (\<lambda>_. 0)))"
  by (simp add: cp_kernel_def)


theorem cp_silent_witness:
  "\<exists>m. cp (trapping dead_ports cp_env) cp_locals 0x3200 0x3100 3 (cp_kernel [0, 0, 0, 0]) = Some (with_mem m (cp_kernel [0, 0, 0, 0]))"
proof -
  have "length ([0, 0, 0, 0] :: u8 list) = 4" by simp
  from cp_silent [OF cp_example_call [OF this], of dead_ports] show ?thesis by blast
qed

text \<open>A request of one cluster size, written and read back: the second chunk is what remains.\<close>

lemma chunk_after_write:
  assumes bd: "block_device ops blocks valid" and v: "valid (dev s)" and fs: "fs_ok (fat_table s) D"
    and D: "\<forall>j<2048. cluster_of (blocks (dev s)) j = D j" and r: "request_ok r" "buffer_size r = 2048"
    and res: "write_result r (fat_table s) D = 0"
    and slot: "attribute (parent_table D r ! the (find_empty_slot (parent_table D r))) \<noteq> ATTR_SUBDIRECTORY" and n: "4096 \<le> n"
  shows "\<exists>s1 s2. write_fat32 ops r (s\<lparr>mem := m\<rparr>) = Some (0, s1) \<and> mem s1 = m
    \<and> read_fat32 ops (r\<lparr>buf := b, buffer_size := n\<rparr>) s1 = Some (0, s2)
    \<and> mem s2 = mem_write m b (mem_read m (buf r + of_nat CLUSTER_SIZE) CLUSTER_SIZE)"
proof -
  have two: "clusters_written r = 2" by (simp add: clusters_written_def r CLUSTER_SIZE_def)
  have ok: "parent_ok (fat_table s) D (parent_cluster_number r)" using res by (simp add: write_result_def split: if_splits)
  have p: "unat (parent_cluster_number r) < 2048" using parent_unat [OF ok] by simp
  have t: "parent_table (cluster_of (blocks (dev s))) r = parent_table D r" using D p by (simp add: parent_table_def)
  have res': "write_result r (fat_table s) (cluster_of (blocks (dev s))) = 0"
    using res D p by (simp add: write_result_def t parent_ok_def split: if_splits)
  have s: "fat_table (s\<lparr>mem := m\<rparr>) = fat_table s" "dev (s\<lparr>mem := m\<rparr>) = dev s" "mem (s\<lparr>mem := m\<rparr>) = m" by simp_all
  have "of_nat (clusters_written r * CLUSTER_SIZE) \<le> n" using n by (simp add: two CLUSTER_SIZE_def)
  from block_device.read_after_write [OF bd, of "s\<lparr>mem := m\<rparr>" r, unfolded s t, OF v r(1) fs_ok_cong [OF fs D] res' _ slot this, of b]
  obtain s1 s2 where w: "write_fat32 ops r (s\<lparr>mem := m\<rparr>) = Some (0, s1)"
    and rd: "read_fat32 ops (r\<lparr>buf := b, buffer_size := n\<rparr>) s1 = Some (0, s2)"
    and m2: "mem s2 = mem_write m b (stored_bytes r m)" by (auto simp: r(2))
  have "stored_bytes r m = mem_read m (buf r + of_nat CLUSTER_SIZE) CLUSTER_SIZE"
    using stored_bytes_start [of r m] length_stored_bytes [of r m] by (simp add: two CLUSTER_SIZE_def)
  with w rd m2 write_fat32_memory [OF w] show ?thesis by auto
qed

text \<open>
  C17. A copy made from the requests of \<open>cp\<close> does not contain the source. Whatever \<open>syscalls\<close> is, the command asks for call 0
  with the name of the source; when \<open>syscall\<close> performs it for a source of one cluster and the uninitialised
  bytes are 0, the text of the source is in the buffer, and the command asks for call 2 with the name of the
  destination, the same buffer and size 2048; when \<open>syscall\<close> performs that for a destination that can be written, the
  code is 0, so that the command says nothing, but reading the destination back yields the 2048 bytes
  behind the buffer instead of the source, because \<open>write\<close> stores two chunks for the size of 2048, of which only
  the second survives. (At this commit \<open>int 0x30\<close> does not lead to \<open>syscall\<close> and nothing is copied at all, as shown above.)
\<close>

theorem cp_loses_text:
  assumes "block_device ops blocks valid" and "valid (dev (storage k))" and "cp_call env fr args_value args_info k nx1 nx2"
    and "r1 = cp_sends (cluster_buffer fr) (peek32 (current_directory env) k) nx1" and "D = cluster_of (blocks (dev (storage k)))"
    and "fs_ok (fat_table (storage k)) D"
    and "find_entry (req_identifier r1) (parent_table D r1) = Some i" and "read_code r1 (parent_table D r1) = 0"
    and "fat_path (fat_table (storage k)) (entry_cluster (parent_table D r1 ! i)) [x]"
    and "mem_read (kernel_mem k) (cp_error fr + 1) 3 = replicate 3 0"
    and "r2 = cp_sends (cluster_buffer fr) (peek32 (current_directory env) k) nx2" and "write_result r2 (fat_table (storage k)) D = 0"
    and "attribute (parent_table D r2 ! the (find_empty_slot (parent_table D r2))) \<noteq> ATTR_SUBDIRECTORY" and "4096 \<le> n"
  shows "\<exists>m K m2 k' s2. cp env fr args_value args_info 3 k = do {
        q \<leftarrow> syscalls env 0 (src_request fr) (cp_error fr) 0 (with_mem m k);
        cp_finish env fr q }
    \<and> syscall ops (call_frame 0 (src_request fr) (cp_error fr) 0) (with_mem m k) = Some K
    \<and> mem_read (kernel_mem K) (cluster_buffer fr) CLUSTER_SIZE = D x
    \<and> cp_finish env fr K = do {
        q \<leftarrow> syscalls env 2 (dest_request fr) (cp_error fr) 0 (with_mem m2 K);
        if peek32 (cp_error fr) q \<noteq> 0 then print_message env cp_cannot_write q else Some q }
    \<and> syscall ops (call_frame 2 (dest_request fr) (cp_error fr) 0) (with_mem m2 K) = Some k'
    \<and> peek32 (cp_error fr) k' = 0 \<and> screen k' = screen k
    \<and> mem_read (kernel_mem k') (cluster_buffer fr) CLUSTER_SIZE = D x
    \<and> read_fat32 ops (r2\<lparr>buf := b, buffer_size := n\<rparr>) (storage k') = Some (0, s2)
    \<and> mem s2 = mem_write (kernel_mem k') b (mem_read (kernel_mem k') (cluster_buffer fr + of_nat CLUSTER_SIZE) CLUSTER_SIZE)"
proof -
  let ?fat = "fat_table (storage k)"
  have lay: "cp_layout env fr (args_value + arg_position args_info 1 k) (unat (arg_length args_info 1 k))
      (args_value + arg_position args_info 2 k) (unat (arg_length args_info 2 k)) args_info"
    and split: "split_name (arg_bytes args_value args_info 2 k) = Some nx2"
    using assms(3) by (simp_all add: cp_call_def)
  have r2: "request_ok r2" "buffer_size r2 = 2048" "buf r2 = cluster_buffer fr" "parent_cluster_number r2 = parent_cluster_number r1"
    using cp_sends_ok [OF split] by (simp_all add: assms(4,11)) (simp_all add: cp_sends_def cp_request_def CLUSTER_SIZE_def)
  have ok: "parent_ok ?fat D (parent_cluster_number r1)" using assms(12) r2(4) by (simp add: write_result_def split: if_splits)
  from cp_reads [OF assms(1-5) ok assms(7-9)] obtain m K where
    run: "cp env fr args_value args_info 3 k = do {
        q \<leftarrow> syscalls env 0 (src_request fr) (cp_error fr) 0 (with_mem m k);
        cp_finish env fr q }"
      "syscall ops (call_frame 0 (src_request fr) (cp_error fr) 0) (with_mem m k) = Some K"
    and K: "screen K = screen k"
      "mem_read (kernel_mem K) (cluster_buffer fr) CLUSTER_SIZE = D x" "valid (dev (storage K))" "fat_table (storage K) = ?fat"
      "\<forall>j<2048. cluster_of (blocks (dev (storage K))) j = D j"
    and beside: "same_beside (cp_written fr @ [(cp_error fr, 4)]) (kernel_mem k) (kernel_mem K)"
    and code: "mem_read (kernel_mem K) (cp_error fr) 4 = 0 # mem_read (kernel_mem k) (cp_error fr + 1) 3"
    and names: "mem_read (kernel_mem K) (dest_filename fr) 8 = pad 8 (fst nx2)" "mem_read (kernel_mem K) (dest_extension fr) 3 = pad 3 (snd nx2)"
    by blast
  have zero: "mem_read (kernel_mem K) (cp_error fr) 4 = replicate 4 0" unfolding code assms(10) by (simp add: replicate_4)
  have parent: "peek32 (current_directory env) K = peek32 (current_directory env) k"
    by (rule peek32_beside [OF beside]) (use layout_clear(3) [OF lay] in auto)
  let ?m = "mem_write (kernel_mem K) (dest_request fr) (encode_request r2)"
  have r2': "r2 = cp_sends (cluster_buffer fr) (peek32 (current_directory env) K) nx2" by (simp add: parent assms(11))
  note second = cp_to_write [OF lay zero names r2' r2(1) refl]
  from chunk_after_write [OF assms(1) K(3) assms(6) [folded K(4)] K(5) r2(1,2) assms(12,13) [folded K(4)] assms(14), of ?m b] obtain s2 s3 where
    w: "write_fat32 ops r2 ((storage K)\<lparr>mem := ?m\<rparr>) = Some (0, s2)"
    and rd: "read_fat32 ops (r2\<lparr>buf := b, buffer_size := n\<rparr>) s2 = Some (0, s3)"
    and m: "mem s2 = ?m" "mem s3 = mem_write ?m b (mem_read ?m (cluster_buffer fr + of_nat CLUSTER_SIZE) CLUSTER_SIZE)"
    by (auto simp: r2(3))
  let ?k' = "after_call (cp_error fr) 0 s2 K"
  have sys: "syscall ops (call_frame 2 (dest_request fr) (cp_error fr) 0) (with_mem ?m K) = Some ?k'"
    using syscall_writes [of ops "with_mem ?m K" "dest_request fr" 0 s2] w second(2) by (simp add: after_call_def with_mem_def)
  have "?m (cp_error fr) # mem_read ?m (cp_error fr + 1) 3 = 0 # replicate 3 0"
    using second(3) by (simp only: read4_Cons replicate_4)
  then have "?m (cp_error fr) = 0" by (simp only: list.inject)
  then have "(mem s2)(cp_error fr := of_int 0) = mem s2" by (simp only: m(1) of_int_0 fun_upd_idem)
  then have mk: "kernel_mem ?k' = ?m" "storage ?k' = s2" by (simp_all add: m(1) after_call_def flip: m(1))
  have buf: "mem_read ?m (cluster_buffer fr) CLUSTER_SIZE = D x"
    using layout_clear(6) [OF lay] K(2) by (simp add: read_write_clear length_encode_request r2(1))
  have silent: "peek32 (cp_error fr) ?k' = 0" unfolding peek32_def mk(1) second(3) by (simp add: of_le32_eq_0)
  show ?thesis
  proof (rule exI [of _ m], rule exI [of _ K], rule exI [of _ ?m], rule exI [of _ ?k'], rule exI [of _ s3], intro conjI)
    show "screen ?k' = screen k" using K(1) by simp
    show "mem_read (kernel_mem ?k') (cluster_buffer fr) CLUSTER_SIZE = D x" unfolding mk(1) by (rule buf)
    show "read_fat32 ops (r2\<lparr>buf := b, buffer_size := n\<rparr>) (storage ?k') = Some (0, s3)" unfolding mk(2) by (rule rd)
    show "mem s3 = mem_write (kernel_mem ?k') b (mem_read (kernel_mem ?k') (cluster_buffer fr + of_nat CLUSTER_SIZE) CLUSTER_SIZE)"
      unfolding mk(1) by (rule m(2))
  qed (fact run(1) run(2) K(2) second(1) sys silent)+
qed

theorem cp_loses_text_witness:
  "\<exists>m K m2 k' s2. syscall image_ops (call_frame 0 0x3440 0x3340 0) (with_mem m (cp_kernel [0, 0, 0, 0])) = Some K
    \<and> syscall image_ops (call_frame 2 0x3460 0x3340 0) (with_mem m2 K) = Some k'
    \<and> mem_read (kernel_mem k') 0x3800 CLUSTER_SIZE = disk (storage (cp_kernel [0, 0, 0, 0])) 3
    \<and> read_fat32 image_ops (copy_request\<lparr>buf := 0x8000, buffer_size := 4096\<rparr>) (storage k') = Some (0, s2)
    \<and> mem s2 = mem_write (kernel_mem k') 0x8000 (mem_read (kernel_mem k') 0x4000 CLUSTER_SIZE)"
proof -
  let ?e = "[0, 0, 0, 0] :: u8 list" and ?k = "cp_kernel [0, 0, 0, 0]" and ?m = "place (cp_blocks [0, 0, 0, 0]) (\<lambda>_. 0)"
  have e: "length ?e = 4" by simp
  have "mem_read (kernel_mem ?k) (0x3340 + 1) 3 = [0, 0, 0]" using cp_args(6) [OF e] by (simp only: read4_Cons list.inject)
  then have b: "mem_read (kernel_mem ?k) (cp_error cp_locals + 1) 3 = replicate 3 0" by (simp add: cp_locals_def numeral_eq_Suc)
  note src = cp_example_source [of ?m, folded cp_example_fat [of ?e], folded cp_example_disk [of ?e]]
  note tgt = cp_example_target [of ?m, folded cp_example_fat [of ?e], folded cp_example_disk [of ?e]]
  have n: "(4096 :: u32) \<le> 4096" by simp
  have at: "cluster_buffer cp_locals = 0x3800" "(0x3800 :: u32) + of_nat CLUSTER_SIZE = 0x4000"
    "src_request cp_locals = 0x3440" "dest_request cp_locals = 0x3460" "cp_error cp_locals = 0x3340"
    by (simp_all add: cp_locals_def CLUSTER_SIZE_def)
  from cp_loses_text [OF img.block_device_axioms TrueI cp_example_call [OF e] _ refl src(1,3-5) b _ tgt n, of "0x8000"] show ?thesis
    unfolding at cp_args(5) [OF e] by blast
qed

end
