(* ===== verification/Shell_Cd.thy ===== *)
theory Shell_Cd imports Shell_Mkdir begin

text \<open>
  The command \<open>cd\<close> of \<open>src/ch2/user-shell/cd.c\<close> and the loop over the components of a path that it shares,
  line for line, with \<open>ls.c\<close>. The array \<open>name[13]\<close> lies in the caller's memory at \<open>name_at\<close>; the copy into it
  has no bound, so a long component runs over whatever lies behind it.
\<close>

definition cd_no_entry :: string where "cd_no_entry = ''cd: no such file or directory'' @ [CHR 0x0A]"
definition cd_not_directory :: string where "cd_not_directory = ''cd: not a directory'' @ [CHR 0x0A]"
definition cd_too_many :: string where "cd_too_many = ''cd: too many arguments'' @ [CHR 0x0A]"
definition cd_missing :: string where "cd_missing = ''cd: missing argument'' @ [CHR 0x0A]"

text \<open>\<open>dir_table.table[i]\<close> of the shell.\<close>

definition table_entry :: "'p shell_env \<Rightarrow> int \<Rightarrow> 'p kernel_state \<Rightarrow> FAT32DirectoryEntry" where
  "table_entry env i k = decode_entry (mem_read (kernel_mem k) (shell_dir_table env + 32 * of_int i) 32)"

text \<open>The loop that looks for the end of the component which starts at \<open>j\<close>.\<close>

partial_function (option) component_end :: "memory \<Rightarrow> u32 \<Rightarrow> u32 \<Rightarrow> u32 option" where
  "component_end m path j = (if m (path + j) \<noteq> 47 \<and> m (path + j) \<noteq> 0 then component_end m path (j + 1) else Some j)"

text \<open>How the loop over the components ends: at the end of the path, or with one of two complaints.\<close>

datatype walk_end = Reached u32 | No_entry | Not_directory

definition copy_component :: "u32 \<Rightarrow> u32 \<Rightarrow> u32 \<Rightarrow> 'p kernel_state \<Rightarrow> 'p kernel_state" where
  "copy_component name_at start len k =
     (let k = with_mem (memset (kernel_mem k) name_at 0 13) k;
          k = with_mem (memcpy (kernel_mem k) name_at start (unat len)) k
      in poke (name_at + len) [0] k)"

partial_function (option) walk_path ::
  "'p shell_env \<Rightarrow> u32 \<Rightarrow> u32 \<Rightarrow> u32 \<Rightarrow> u32 \<Rightarrow> 'p kernel_state \<Rightarrow> (walk_end \<times> 'p kernel_state) option" where
  "walk_path env name_at path i cluster_number k =
     (if kernel_mem k (path + i) = 0 then Some (Reached cluster_number, k)
      else if kernel_mem k (path + i) = 47 then walk_path env name_at path (i + 1) cluster_number k
      else do {
        j \<leftarrow> component_end (kernel_mem k) path i;
        let k = copy_component name_at (path + i) (j - i) k;
        let entry = findEntry env name_at k;
        if entry = -1 then Some (No_entry, k)
        else if attribute (table_entry env entry k) AND ATTR_SUBDIRECTORY \<noteq> 0
        then walk_path env name_at path j (ucast (cluster_low (table_entry env entry k))) k
        else Some (Not_directory, k) })"

text \<open>Where the walk starts: at the root for a path that begins with a slash, which is skipped.\<close>

definition walk_argument :: "'p shell_env \<Rightarrow> u32 \<Rightarrow> u32 \<Rightarrow> 'p kernel_state \<Rightarrow> (walk_end \<times> 'p kernel_state) option" where
  "walk_argument env name_at path k =
     (if kernel_mem k path = 47 then walk_path env name_at (path + 1) 0 ROOT_CLUSTER_NUMBER k
      else walk_path env name_at path 0 (peek32 (current_directory env) k) k)"

definition cd :: "'p shell_env \<Rightarrow> u32 \<Rightarrow> u32 \<Rightarrow> u32 \<Rightarrow> u32 \<Rightarrow> 'p kernel_state \<Rightarrow> 'p kernel_state option" where
  "cd env name_at args_value args_info args_count k =
     (if args_count = 2 then do {
        (w, k) \<leftarrow> walk_argument env name_at (args_value + arg_position args_info 1 k) k;
        case w of
          No_entry \<Rightarrow> Some (shell_puts (literal env cd_no_entry) 30 (RED env) k)
        | Not_directory \<Rightarrow> Some (shell_puts (literal env cd_not_directory) 21 (RED env) k)
        | Reached cluster_number \<Rightarrow>
            updateDirectoryTable env cluster_number (poke (current_directory env) (le32 cluster_number) k) }
      else if 2 < sint args_count then Some (shell_puts (literal env cd_too_many) 23 (RED env) k)
      else Some (shell_puts (literal env cd_missing) 21 (RED env) k))"

section \<open>Paths\<close>

text \<open>The components of a path, and their resolution in one table.\<close>

function path_components :: "u8 list \<Rightarrow> u8 list list" where
  "path_components [] = []"
| "path_components (c # rest) =
     (if c = 47 then path_components rest
      else (c # takeWhile (\<lambda>c. c \<noteq> 47) rest) # path_components (dropWhile (\<lambda>c. c \<noteq> 47) rest))"
  by pat_completeness auto
termination by (relation "measure length") (auto simp: length_dropWhile_le le_imp_less_Suc)

definition entry_name :: "u8 list \<Rightarrow> u8 list" where
  "entry_name c = take 8 (pad 13 c)"

definition index_of_name :: "u8 list \<Rightarrow> dir_table \<Rightarrow> nat option" where
  "index_of_name nm t = scan (\<lambda>i. name (t ! i) = nm) 0 DIR_ENTRIES"

fun resolve :: "dir_table \<Rightarrow> u32 \<Rightarrow> u8 list list \<Rightarrow> walk_end" where
  "resolve t cluster [] = Reached cluster"
| "resolve t cluster (c # rest) =
     (case index_of_name (entry_name c) t of
        None \<Rightarrow> No_entry
      | Some i \<Rightarrow> if attribute (t ! i) AND ATTR_SUBDIRECTORY \<noteq> 0 then resolve t (ucast (cluster_low (t ! i))) rest
                  else Not_directory)"

text \<open>Where the bytes \<open>p\<close> of a path lead: absolute paths start at the root, others at \<open>cwd\<close>.\<close>

definition path_target :: "dir_table \<Rightarrow> u32 \<Rightarrow> u8 list \<Rightarrow> walk_end" where
  "path_target t cwd p = resolve t (if p \<noteq> [] \<and> hd p = 47 then ROOT_CLUSTER_NUMBER else cwd) (path_components p)"

text \<open>The directory table the shell has loaded.\<close>

definition loaded_table :: "'p shell_env \<Rightarrow> 'p kernel_state \<Rightarrow> dir_table" where
  "loaded_table env k = decode_table (mem_read (kernel_mem k) (shell_dir_table env) CLUSTER_SIZE)"

text \<open>What \<open>cd\<close> and \<open>ls\<close> rely on: \<open>findEntry\<close> compares eight bytes with the names of the loaded table.\<close>

locale directory_lookup =
  fixes env :: "'p shell_env"
  assumes find_law: "findEntry env a k
    = (case index_of_name (mem_read (kernel_mem k) a 8) (loaded_table env k) of None \<Rightarrow> -1 | Some i \<Rightarrow> int i)"

begin

lemma find_in_table:
  assumes "mem_read (kernel_mem k) a 8 = nm"
  shows "findEntry env a k = (case index_of_name nm (loaded_table env k) of None \<Rightarrow> -1 | Some i \<Rightarrow> int i)"
  using find_law assms by simp

end

section \<open>One component\<close>

lemma component_end_run:
  assumes "mem_read m path (Suc (length bs)) = bs @ [0]" and "i \<le> length bs" and "0 \<notin> set bs"
  shows "component_end m path (of_nat i) = Some (of_nat (i + length (takeWhile (\<lambda>c. c \<noteq> 47) (drop i bs))))"
  using assms(2)
proof (induction "length bs - i" arbitrary: i)
  case 0
  then have "i = length bs" by simp
  moreover have "m (path + of_nat (length bs)) = 0"
    using arg_cong [OF assms(1), of "\<lambda>xs. xs ! length bs"] by simp
  ultimately show ?case by (subst component_end.simps) simp
next
  case (Suc d)
  then have i: "i < length bs" by simp
  have at: "m (path + of_nat i) = bs ! i"
    using arg_cong [OF assms(1), of "\<lambda>xs. xs ! i"] i by (simp add: nth_append)
  have "bs ! i \<noteq> 0" using i assms(3) by (metis nth_mem)
  moreover have "drop i bs = bs ! i # drop (Suc i) bs" using i by (simp add: Cons_nth_drop_Suc)
  moreover have "component_end m path (of_nat (Suc i)) = Some (of_nat (Suc i + length (takeWhile (\<lambda>c. c \<noteq> 47) (drop (Suc i) bs))))"
    by (rule Suc.hyps(1)) (use Suc.hyps(2) i in simp_all)
  ultimately show ?case by (subst component_end.simps) (simp add: at algebra_simps)
qed

text \<open>The copy of a component that fits leaves it, padded with zeros, in the array.\<close>

lemma copy_component_run:
  assumes "clear_of (name_at, 13) (start, n)" and "n \<le> 12" and "c = mem_read (kernel_mem k) start n"
  shows "copy_component name_at start (of_nat n) k = poke name_at (pad 13 c) k"
proof -
  let ?m = "kernel_mem k"
  let ?m1 = "mem_write ?m name_at (replicate n 0 @ replicate (13 - n) 0)"
  have n: "n < 2 ^ 32" and l: "length c = n" using assms(2,3) by simp_all
  have "13 - n = Suc (12 - n)" using assms(2) by simp
  then have one: "replicate (13 - n) (0 :: u8) = 0 # replicate (12 - n) 0" by simp
  have "replicate 13 0 = replicate n (0 :: u8) @ replicate (13 - n) 0" using assms(2) by (simp flip: replicate_add)
  then have m1: "memset ?m name_at 0 13 = ?m1" by (simp add: memset_eq)
  have "mem_read ?m1 start n = c"
    unfolding assms(3) by (rule read_write_clear, subst clear_of_sym) (use assms(1,2) in simp)
  moreover have "clear_of (name_at, n) (start, n)" using assms(1) by (rule clear_of_less) (use assms(2) in simp_all)
  ultimately have "memcpy ?m1 name_at start n = mem_write ?m1 name_at c" by (simp add: memcpy_clear)
  also have "\<dots> = mem_write ?m name_at (c @ 0 # replicate (12 - n) 0)"
  proof -
    have "mem_write (mem_write ?m name_at ([] @ replicate n 0 @ replicate (13 - n) 0)) (name_at + of_nat (length ([] :: u8 list))) c
        = mem_write ?m name_at ([] @ c @ replicate (13 - n) 0)"
      by (rule mem_write_part) (use l assms(2) in simp_all)
    then show ?thesis by (simp only: append_Nil list.size of_nat_0 add_0_right one) (simp only: semiring_1_class.of_nat_0 add_0_right)
  qed
  finally have m2: "memcpy ?m1 name_at start n = mem_write ?m name_at (c @ 0 # replicate (12 - n) 0)" .
  have m3: "mem_write (mem_write ?m name_at (c @ 0 # replicate (12 - n) 0)) (name_at + of_nat n) [0]
      = mem_write ?m name_at (c @ 0 # replicate (12 - n) 0)"
    using mem_write_part [of "[0]" "[0]" c "replicate (12 - n) 0" ?m name_at] l assms(2) by simp
  have "pad 13 c = c @ 0 # replicate (12 - n) 0" using l by (simp add: pad_def one)
  then show ?thesis
    by (simp add: copy_component_def poke_def Let_def m1 unat_of_nat_u32 [OF n] m2 m3)
qed

section \<open>The walk\<close>

lemma chunks_nth: "i < n \<Longrightarrow> chunks w n bs ! i = take w (drop (w * i) bs)"
  by (induction w n bs arbitrary: i rule: chunks.induct) (auto simp: nth_Cons' add.commute algebra_simps)

lemma table_entry_nth:
  assumes "i < DIR_ENTRIES"
  shows "table_entry env (int i) k = loaded_table env k ! i"
proof -
  have "chunks 32 DIR_ENTRIES bs ! i = take 32 (drop (32 * i) bs)" for bs :: "u8 list"
    using assms by (simp add: chunks_nth)
  moreover have "take 32 (drop (32 * i) (mem_read (kernel_mem k) a CLUSTER_SIZE)) = mem_read (kernel_mem k) (a + 32 * of_nat i) 32" for a
    using assms by (intro nth_equalityI) (auto simp: DIR_ENTRIES_def CLUSTER_SIZE_def algebra_simps)
  ultimately show ?thesis
    using assms by (simp add: table_entry_def loaded_table_def decode_table_def)
qed

lemma component_split:
  assumes "i < length bs" and "bs ! i \<noteq> 47"
  defines "n \<equiv> length (takeWhile (\<lambda>c. c \<noteq> 47) (drop i bs))"
  shows "path_components (drop i bs) = take n (drop i bs) # path_components (drop (i + n) bs)" and "0 < n" and "i + n \<le> length bs"
proof -
  let ?P = "\<lambda>c :: u8. c \<noteq> 47"
  have d: "drop i bs = bs ! i # drop (Suc i) bs" using assms(1) by (simp add: Cons_nth_drop_Suc)
  have n: "n = Suc (length (takeWhile ?P (drop (Suc i) bs)))" using assms(2) by (simp add: n_def d)
  then show "0 < n" by simp
  have "n \<le> length (drop i bs)" unfolding n_def by (rule length_takeWhile_le)
  then show "i + n \<le> length bs" using assms(1) by simp
  have "drop (i + n) bs = dropWhile ?P (drop (Suc i) bs)" by (simp add: n dropWhile_eq_drop add.commute)
  moreover have "take n (drop i bs) = bs ! i # takeWhile ?P (drop (Suc i) bs)"
    by (simp add: d n) (metis takeWhile_eq_take)
  ultimately show "path_components (drop i bs) = take n (drop i bs) # path_components (drop (i + n) bs)"
    using assms(2) by (simp add: d)
qed

context directory_lookup
begin

text \<open>One component of at most 12 characters: it is copied, looked up and followed.\<close>

lemma walk_component:
  assumes path: "mem_read (kernel_mem k) path (Suc (length bs)) = bs @ [0]" and nul: "0 \<notin> set bs"
    and i: "i < length bs" "bs ! i \<noteq> 47" and n: "n = length (takeWhile (\<lambda>c. c \<noteq> 47) (drop i bs))" "n \<le> 12"
    and apart: "clear_of (name_at, 13) (path, Suc (length bs))" "clear_of (name_at, 13) (shell_dir_table env, CLUSTER_SIZE)"
    and c: "c = take n (drop i bs)" and t: "t = loaded_table env k" and k': "k' = poke name_at (pad 13 c) k"
  shows "same_beside [(name_at, 13)] (kernel_mem k) (kernel_mem k')" and "loaded_table env k' = t"
    and "mem_read (kernel_mem k') path (Suc (length bs)) = bs @ [0]"
    and "walk_path env name_at path (of_nat i) cluster k = (case index_of_name (entry_name c) t of
        None \<Rightarrow> Some (No_entry, k')
      | Some e \<Rightarrow> if attribute (t ! e) AND ATTR_SUBDIRECTORY \<noteq> 0
          then walk_path env name_at path (of_nat (i + n)) (ucast (cluster_low (t ! e))) k'
          else Some (Not_directory, k'))"
proof -
  note comp = component_split [OF i, folded n(1)]
  have l: "length (pad 13 c) = 13" using n(2) by (simp add: length_pad c)
  show beside: "same_beside [(name_at, 13)] (kernel_mem k) (kernel_mem k')"
    unfolding k' using same_beside_write [of "pad 13 c" 13 name_at "kernel_mem k"] l by simp
  show t': "loaded_table env k' = t"
    using same_besideD [OF beside, of "shell_dir_table env" CLUSTER_SIZE] apart(2) by (simp add: loaded_table_def clear_of_sym t)
  show "mem_read (kernel_mem k') path (Suc (length bs)) = bs @ [0]"
    using same_besideD [OF beside, of path "Suc (length bs)"] apart(1) path by (simp add: clear_of_sym)
  have at: "kernel_mem k (path + of_nat j) = bs ! j" if "j < length bs" for j
    using arg_cong [OF path, of "\<lambda>xs. xs ! j"] that by (simp add: nth_append)
  have "bs ! i \<noteq> 0" using i nul by (metis nth_mem)
  note here = this i(2) at [OF i(1)]
  have "mem_read (kernel_mem k) (path + of_nat i) n = c"
    using comp(3) at by (intro nth_equalityI) (simp_all add: c add.assoc flip: of_nat_add)
  moreover have "clear_of (name_at, 13) (path + of_nat i, n)"
    using clear_of_part [of path "Suc (length bs)" "(name_at, 13)" i n] apart(1) i(1) comp(3) by (simp add: clear_of_sym)
  ultimately have copied: "copy_component name_at (path + of_nat i) (of_nat n) k = k'"
    unfolding k' using copy_component_run n(2) by metis
  have stop: "component_end (kernel_mem k) path (of_nat i) = Some (of_nat (i + n))"
    using component_end_run [OF path _ nul, of i] i(1) n(1) by simp
  have "mem_read (kernel_mem k') name_at 8 = take 8 (mem_read (kernel_mem k') name_at 13)" by (simp add: take_mem_read)
  also have "mem_read (kernel_mem k') name_at 13 = pad 13 c"
    using mem_read_write_same [of "pad 13 c" "kernel_mem k" name_at] l by (simp add: k')
  finally have found: "findEntry env name_at k' = (case index_of_name (entry_name c) t of None \<Rightarrow> -1 | Some i \<Rightarrow> int i)"
    using find_in_table [of k' name_at] t' by (simp add: entry_name_def)
  have entries: "table_entry env (int e) k' = t ! e" if "index_of_name (entry_name c) t = Some e" for e
    using that by (simp add: index_of_name_def scan_Some_iff table_entry_nth t')
  show "walk_path env name_at path (of_nat i) cluster k = (case index_of_name (entry_name c) t of
        None \<Rightarrow> Some (No_entry, k')
      | Some e \<Rightarrow> if attribute (t ! e) AND ATTR_SUBDIRECTORY \<noteq> 0
          then walk_path env name_at path (of_nat (i + n)) (ucast (cluster_low (t ! e))) k'
          else Some (Not_directory, k'))"
    by (subst walk_path.simps) (simp add: here stop copied found entries split: option.split)
qed

lemma walk_path_run:
  assumes "mem_read (kernel_mem k) path (Suc (length bs)) = bs @ [0]" and "0 \<notin> set bs" and "i \<le> length bs"
    and "clear_of (name_at, 13) (path, Suc (length bs))" and "clear_of (name_at, 13) (shell_dir_table env, CLUSTER_SIZE)"
    and "\<forall>c\<in>set (path_components (drop i bs)). length c \<le> 12"
  shows "\<exists>m. walk_path env name_at path (of_nat i) cluster k
      = Some (resolve (loaded_table env k) cluster (path_components (drop i bs)), with_mem m k)
    \<and> same_beside [(name_at, 13)] (kernel_mem k) m"
  using assms(1,3,6)
proof (induction "length bs - i" arbitrary: i cluster k rule: less_induct)
  case less
  have here: "kernel_mem k (path + of_nat i) = (bs @ [0]) ! i"
    using arg_cong [OF less.prems(1), of "\<lambda>xs. xs ! i"] less.prems(2) by simp
  consider "i = length bs" | "i < length bs" "bs ! i = 47" | "i < length bs" "bs ! i \<noteq> 47" using less.prems(2) by linarith
  then show ?case
  proof cases
    case 1
    then show ?thesis using here by (subst walk_path.simps) (auto simp: same_beside_def intro!: exI [of _ "kernel_mem k"])
  next
    case 2
    then have d: "path_components (drop i bs) = path_components (drop (Suc i) bs)" by (simp flip: Cons_nth_drop_Suc)
    have "(47 :: u8) \<noteq> 0" by simp
    then have "walk_path env name_at path (of_nat i) cluster k = walk_path env name_at path (of_nat (Suc i)) cluster k"
      by (subst walk_path.simps) (simp add: here 2 nth_append ac_simps)
    with less.hyps [of "Suc i" k cluster] less.prems 2 d show ?thesis by (simp del: of_nat_Suc)
  next
    case 3
    define n where "n = length (takeWhile (\<lambda>c. c \<noteq> 47) (drop i bs))"
    define k' where "k' = poke name_at (pad 13 (take n (drop i bs))) k"
    let ?t = "loaded_table env k"
    note comp = component_split [OF 3, folded n_def]
    have "n \<le> 12" using less.prems(3) comp by simp
    note step = walk_component [OF less.prems(1) assms(2) 3 n_def this assms(4,5) refl refl k'_def]
    have k: "with_mem m k' = with_mem m k" "k' = with_mem (kernel_mem k') k" for m by (simp_all add: k'_def poke_def)
    have IH: "\<exists>m. walk_path env name_at path (of_nat (i + n)) cl k'
        = Some (resolve ?t cl (path_components (drop (i + n) bs)), with_mem m k) \<and> same_beside [(name_at, 13)] (kernel_mem k) m" for cl
    proof -
      have "length bs - (i + n) < length bs - i" using comp 3(1) by simp
      from less.hyps [OF this step(3) comp(3)] less.prems(3) obtain m where
        m: "walk_path env name_at path (of_nat (i + n)) cl k' = Some (resolve ?t cl (path_components (drop (i + n) bs)), with_mem m k')"
          "same_beside [(name_at, 13)] (kernel_mem k') m" by (auto simp: comp(1) step(2))
      from same_beside_trans [OF step(1) m(2)] have "same_beside [(name_at, 13)] (kernel_mem k) m" by (rule same_beside_mono) simp
      with m(1) show ?thesis unfolding k(1) by blast
    qed
    have stays: "\<exists>m. Some (w, k') = Some (w, with_mem m k) \<and> same_beside [(name_at, 13)] (kernel_mem k) m" for w :: walk_end
      using step(1) k(2) by blast
    show ?thesis
      unfolding step(4) comp(1) resolve.simps by (cases "index_of_name (entry_name (take n (drop i bs))) ?t") (use IH stays in simp_all)
  qed
qed

end

text \<open>The walk of a whole argument, from the root when it begins with a slash.\<close>

definition path_layout :: "'p shell_env \<Rightarrow> u32 \<Rightarrow> u32 \<Rightarrow> nat \<Rightarrow> string list \<Rightarrow> bool" where
  "path_layout env name_at path n messages \<longleftrightarrow>
     (\<forall>r\<in>set ([(path, Suc n), (shell_dir_table env, CLUSTER_SIZE)] @ map (\<lambda>s. (literal env s, Suc (length s))) messages).
        clear_of (name_at, 13) r)"

context directory_lookup
begin

lemma walk_argument_run:
  assumes path: "c_string (kernel_mem k) path p" and lay: "path_layout env name_at path (length p) messages"
    and short: "\<forall>c\<in>set (path_components p). length c \<le> 12"
  obtains m where "walk_argument env name_at path k
      = Some (path_target (loaded_table env k) (peek32 (current_directory env) k) p, with_mem m k)"
    and "same_beside [(name_at, 13)] (kernel_mem k) m"
proof -
  have bytes: "mem_read (kernel_mem k) path (Suc (length p)) = p @ [0]" and nul: "0 \<notin> set p"
    using path by (simp_all add: c_string_iff)
  have clear: "clear_of (name_at, 13) (path, Suc (length p))" "clear_of (name_at, 13) (shell_dir_table env, CLUSTER_SIZE)"
    using lay by (simp_all add: path_layout_def)
  have first: "kernel_mem k path = (p @ [0]) ! 0" using arg_cong [OF bytes, of "\<lambda>xs. xs ! 0"] by simp
  show thesis
  proof (cases "\<exists>q. p = 47 # q")
    case True
    then obtain q where q: "p = 47 # q" by blast
    have "mem_read (kernel_mem k) path (1 + Suc (length q)) = 47 # q @ [0]" using bytes by (simp add: q)
    then have "mem_read (kernel_mem k) (path + 1) (Suc (length q)) = q @ [0]" unfolding mem_read_add by (simp add: mem_read_def)
    moreover have "clear_of (name_at, 13) (path + 1, Suc (length q))"
      using clear_of_part [of path "Suc (length p)" "(name_at, 13)" 1 "Suc (length q)"] clear(1) by (simp add: q clear_of_sym)
    ultimately show thesis
      using walk_path_run [of k "path + 1" q 0 name_at ROOT_CLUSTER_NUMBER] nul short clear(2) that first
      by (auto simp: q walk_argument_def path_target_def)
  next
    case False
    then have "kernel_mem k path \<noteq> 47" "\<not> (p \<noteq> [] \<and> hd p = 47)" using first by (cases p; auto)+
    then show thesis
      using walk_path_run [OF bytes nul _ clear, of 0 "peek32 (current_directory env) k"] short that
      by (auto simp: walk_argument_def path_target_def)
  qed
qed

end

text \<open>Printing the first bytes of a readable message, with or without its terminator.\<close>

lemma readable_puts:
  assumes "readable env k s" and "on_screen (screen k)" and "unat n \<le> Suc (length s)"
  shows "shell_puts (literal env s) n color k = say color (take (unat n) (ascii s @ [0])) k"
proof -
  have bytes: "mem_read (kernel_mem k) (literal env s) (Suc (length s)) = ascii s @ [0]"
    and off: "off_screen (literal env s) (Suc (length s))"
    using assms(1) by (simp_all add: readable_def c_string_iff)
  have "off_screen (literal env s) (unat n)" using off_screen_mono [OF off, of 0 "unat n"] assms(3) by simp
  moreover have "mem_read (kernel_mem k) (literal env s) (unat n) = take (unat n) (ascii s @ [0])"
    unfolding bytes [symmetric] by (simp add: take_mem_read assms(3))
  ultimately show ?thesis by (simp add: puts_says [OF assms(2)])
qed

lemma cd_text_lengths: "length cd_no_entry = 30" "length cd_not_directory = 20" "length cd_too_many = 23" "length cd_missing = 21"
  by (simp_all add: cd_no_entry_def cd_not_directory_def cd_too_many_def cd_missing_def)

text \<open>Components that name directories of one table.\<close>

definition names_directory :: "dir_table \<Rightarrow> u8 list \<Rightarrow> bool" where
  "names_directory t c \<longleftrightarrow> (case index_of_name (entry_name c) t of None \<Rightarrow> False | Some i \<Rightarrow> attribute (t ! i) AND ATTR_SUBDIRECTORY \<noteq> 0)"

definition named_cluster :: "dir_table \<Rightarrow> u8 list \<Rightarrow> u32" where
  "named_cluster t c = ucast (cluster_low (t ! the (index_of_name (entry_name c) t)))"

lemma resolve_last:
  "xs \<noteq> [] \<Longrightarrow> \<forall>c\<in>set xs. names_directory t c \<Longrightarrow> resolve t cluster xs = Reached (named_cluster t (last xs))"
proof (induction xs arbitrary: cluster)
  case (Cons c xs)
  obtain i where i: "index_of_name (entry_name c) t = Some i" "attribute (t ! i) AND ATTR_SUBDIRECTORY \<noteq> 0"
    using Cons.prems by (auto simp: names_directory_def split: option.splits)
  then show ?case using Cons by (cases "xs = []") (simp_all add: named_cluster_def)
qed simp

section \<open>An example\<close>

text \<open>
  The search of \<open>findEntry\<close> as \<open>user-shell.c\<close> describes it in a comment: the first entry whose name has the
  eight bytes at \<open>a\<close>. It meets the contract.
\<close>

definition first_entry :: "'p shell_env \<Rightarrow> u32 \<Rightarrow> 'p kernel_state \<Rightarrow> int" where
  "first_entry env a k =
     (case scan (\<lambda>i. memcmp (kernel_mem k) (shell_dir_table env + 32 * of_nat i) a 8 = 0) 0 DIR_ENTRIES of None \<Rightarrow> -1 | Some i \<Rightarrow> int i)"

definition with_first_entry :: "'p shell_env \<Rightarrow> 'p shell_env" where
  "with_first_entry env = env\<lparr>findEntry := first_entry env\<rparr>"

interpretation table_search: directory_lookup "with_first_entry env" for env
proof
  fix a and k :: "'a kernel_state"
  let ?t = "loaded_table (with_first_entry env) k"
  have nth: "name (?t ! i) = mem_read (kernel_mem k) (shell_dir_table env + 32 * of_nat i) 8" if "i < DIR_ENTRIES" for i
    unfolding table_entry_nth [OF that, symmetric]
    by (simp add: table_entry_def decode_entry_def bytes_at_def take_mem_read with_first_entry_def)
  have "scan (\<lambda>i. memcmp (kernel_mem k) (shell_dir_table env + 32 * of_nat i) a 8 = 0) 0 DIR_ENTRIES
      = scan (\<lambda>i. name (?t ! i) = mem_read (kernel_mem k) a 8) 0 DIR_ENTRIES"
    by (rule scan_cong) (simp add: nth memcmp_is_bytes memcmp_bytes_eq_0)
  then show "findEntry (with_first_entry env) a k
      = (case index_of_name (mem_read (kernel_mem k) a 8) ?t of None \<Rightarrow> -1 | Some i \<Rightarrow> int i)"
    by (simp add: with_first_entry_def first_entry_def index_of_name_def)
qed

text \<open>A shell whose loaded table holds the directories \<open>docs\<close> and \<open>src\<close>, and the call \<open>cd /docs/src\<close>.\<close>

definition shell_entry :: "string \<Rightarrow> u8 \<Rightarrow> u16 \<Rightarrow> FAT32DirectoryEntry" where
  "shell_entry s a c = zero_entry\<lparr>name := pad 8 (ascii s), attribute := a, user_attribute := UATTR_NOT_EMPTY, cluster_low := c\<rparr>"

definition cd_table :: dir_table where
  "cd_table = shell_entry ''root'' 16 2 # shell_entry ''docs'' 16 5 # shell_entry ''src'' 16 9 # shell_entry ''notes'' 0 7
     # replicate 60 zero_entry"

definition cd_texts :: "(string \<times> u32) list" where
  "cd_texts = [(cd_no_entry, 0x4000), (cd_not_directory, 0x4040), (cd_too_many, 0x4080), (cd_missing, 0x40C0)]"

definition cd_env :: "image shell_env" where
  "cd_env = with_first_entry (mkdir_env\<lparr>literal := \<lambda>s. (case map_of cd_texts s of Some a \<Rightarrow> a | None \<Rightarrow> 0),
     shell_dir_table := 0x5000, updateDirectoryTable := \<lambda>c k. Some (poke 0x5000 (disk (storage k) (unat c)) k)\<rparr>)"

definition cd_blocks :: "(u32 \<times> u8 list) list" where
  "cd_blocks = [(0x3000, le32 2), (0x3108, le32 0), (0x3200, ascii ''/docs/src'' @ [0]), (0x5000, encode_table cd_table)]
     @ map (\<lambda>(s, a). (a, ascii s @ [0])) cd_texts"

definition cd_kernel :: "image kernel_state" where
  "cd_kernel = mkdir_kernel\<lparr>storage := formatted (place cd_blocks (\<lambda>_. 0))\<rparr>"

lemmas cd_texts_defs = cd_no_entry_def cd_not_directory_def cd_too_many_def cd_missing_def

lemma cd_literals:
  "literal cd_env cd_no_entry = 0x4000" "literal cd_env cd_not_directory = 0x4040" "literal cd_env cd_too_many = 0x4080"
  "literal cd_env cd_missing = 0x40C0"
  by (simp_all add: cd_env_def with_first_entry_def cd_texts_def cd_texts_defs)

lemma cd_env_simps: "shell_dir_table cd_env = 0x5000" "current_directory cd_env = 0x3000" "RED cd_env = 12" "LIGHT_BLUE cd_env = 9"
  by (simp_all add: cd_env_def with_first_entry_def mkdir_env_def)

lemma cd_table_ok: "table_ok cd_table" "length (encode_table cd_table) = 2048"
proof -
  show "table_ok cd_table"
    by (auto simp: table_ok_def cd_table_def shell_entry_def entry_ok_def zero_entry_def DIR_ENTRIES_def pad_def set_replicate_conv_if)
  from length_encode_table [OF this] show "length (encode_table cd_table) = 2048" by (simp add: CLUSTER_SIZE_def)
qed

lemma cd_blocks_apart: "blocks_apart cd_blocks"
  by (simp add: blocks_apart_def cd_blocks_def cd_texts_def clear_of_def cd_text_lengths cd_table_ok)

lemma cd_kernel_mem: "kernel_mem cd_kernel = place cd_blocks (\<lambda>_. 0)"
  by (simp add: cd_kernel_def formatted_facts)

lemma cd_kernel_read: "(a, b) \<in> set cd_blocks \<Longrightarrow> length b = n \<Longrightarrow> n \<le> 2 ^ 32 \<Longrightarrow> mem_read (kernel_mem cd_kernel) a n = b"
  using place_read [OF cd_blocks_apart, of a b "\<lambda>_. 0"] by (simp add: cd_kernel_mem)

lemma cd_readable:
  assumes "s \<in> {cd_no_entry, cd_not_directory, cd_too_many, cd_missing}"
  shows "readable cd_env cd_kernel s"
proof (rule placed_readable [OF cd_blocks_apart _ cd_kernel_mem])
  show "0 \<notin> set (ascii s)" using assms by (auto simp: cd_texts_defs ascii_def)
qed (use assms in \<open>elim insertE emptyE; simp add: cd_blocks_def cd_texts_def cd_literals cd_text_lengths clear_of_def TEXT_BUFFER_def\<close>)+

lemma cd_example:
  "directory_lookup cd_env" "on_screen (screen cd_kernel)" "peek32 (current_directory cd_env) cd_kernel = 2"
  "c_string (kernel_mem cd_kernel) (0x3200 + arg_position 0x3100 1 cd_kernel) (ascii ''/docs/src'')"
  "path_layout cd_env 0x3400 (0x3200 + arg_position 0x3100 1 cd_kernel) (length (ascii ''/docs/src'')) [cd_no_entry, cd_not_directory]"
  "path_components (ascii ''/docs/src'') = [ascii ''docs'', ascii ''src'']" "loaded_table cd_env cd_kernel = cd_table"
proof -
  show "directory_lookup cd_env" unfolding cd_env_def by (rule table_search.directory_lookup_axioms)
  show "on_screen (screen cd_kernel)" using mkdir_example_ready(1) by (simp add: cd_kernel_def)
  show "peek32 (current_directory cd_env) cd_kernel = 2"
    using cd_kernel_read [of "0x3000" "le32 2" 4] by (simp add: peek32_def cd_env_simps cd_blocks_def)
  have a: "arg_position 0x3100 1 cd_kernel = 0"
    using cd_kernel_read [of "0x3108" "le32 0" 4] by (simp add: arg_position_def peek32_def cd_blocks_def)
  show "c_string (kernel_mem cd_kernel) (0x3200 + arg_position 0x3100 1 cd_kernel) (ascii ''/docs/src'')"
    unfolding a c_string_iff
  proof (intro conjI)
    show "mem_read (kernel_mem cd_kernel) (0x3200 + 0) (Suc (length (ascii ''/docs/src''))) = ascii ''/docs/src'' @ [0]"
      unfolding add_0_right by (rule cd_kernel_read) (simp_all add: cd_blocks_def)
  qed (simp_all add: ascii_def)
  show "path_layout cd_env 0x3400 (0x3200 + arg_position 0x3100 1 cd_kernel) (length (ascii ''/docs/src'')) [cd_no_entry, cd_not_directory]"
    unfolding a by (simp add: path_layout_def clear_of_def cd_env_simps cd_literals cd_text_lengths CLUSTER_SIZE_def)
  show "path_components (ascii ''/docs/src'') = [ascii ''docs'', ascii ''src'']" by (simp add: ascii_def)
  show "loaded_table cd_env cd_kernel = cd_table"
    using cd_kernel_read [of "0x5000" "encode_table cd_table" 2048] cd_table_ok
    by (simp add: loaded_table_def cd_env_simps cd_blocks_def CLUSTER_SIZE_def)
qed

lemma cd_example_found:
  "index_of_name (entry_name (ascii ''docs'')) cd_table = Some 1" "index_of_name (entry_name (ascii ''src'')) cd_table = Some 2"
  "cd_table ! 1 = shell_entry ''docs'' 16 5" "cd_table ! 2 = shell_entry ''src'' 16 9"
  by (simp_all add: index_of_name_def scan_rec DIR_ENTRIES_def cd_table_def shell_entry_def entry_name_def pad_def ascii_def)

section \<open>Properties\<close>

text \<open>
  C15. \<open>cd\<close> with one argument follows the reference resolution of the path, in which every component is looked
  up in the table that is loaded when the command starts: it then stores the cluster reached and loads its
  table, or types one of two complaints (the second with its terminating NUL). It writes nothing else but
  its 13-byte array, as long as every component has at most 12 characters. Any other number of arguments
  types a complaint.
\<close>

theorem cd_resolves:
  assumes "directory_lookup env" and "on_screen (screen k)" and "\<forall>s\<in>{cd_no_entry, cd_not_directory, cd_too_many, cd_missing}. readable env k s"
    and "c_string (kernel_mem k) (args_value + arg_position args_info 1 k) p"
    and "path_layout env name_at (args_value + arg_position args_info 1 k) (length p) [cd_no_entry, cd_not_directory]"
    and "\<forall>c\<in>set (path_components p). length c \<le> 12"
  shows "(\<exists>k1. same_beside [(name_at, 13)] (kernel_mem k) (kernel_mem k1) \<and> k1 = with_mem (kernel_mem k1) k
      \<and> cd env name_at args_value args_info 2 k
        = (case path_target (loaded_table env k) (peek32 (current_directory env) k) p of
             Reached c \<Rightarrow> updateDirectoryTable env c (poke (current_directory env) (le32 c) k1)
           | No_entry \<Rightarrow> Some (say (RED env) (ascii cd_no_entry) k1)
           | Not_directory \<Rightarrow> Some (say (RED env) (ascii cd_not_directory @ [0]) k1)))
    \<and> (\<forall>j. j \<noteq> 2 \<longrightarrow> cd env name_at args_value args_info j k
        = Some (say (RED env) (ascii (if 2 < sint j then cd_too_many else cd_missing)) k))"
proof
  show "\<forall>j. j \<noteq> 2 \<longrightarrow> cd env name_at args_value args_info j k
        = Some (say (RED env) (ascii (if 2 < sint j then cd_too_many else cd_missing)) k)"
    using readable_puts [of env k cd_too_many 23] readable_puts [of env k cd_missing 21] assms(2,3)
    by (simp add: cd_def cd_text_lengths)
  obtain m where walk: "walk_argument env name_at (args_value + arg_position args_info 1 k) k
      = Some (path_target (loaded_table env k) (peek32 (current_directory env) k) p, with_mem m k)"
    and beside: "same_beside [(name_at, 13)] (kernel_mem k) m"
    by (rule directory_lookup.walk_argument_run [OF assms(1,4-6)])
  have "readable env (with_mem m k) s" if "s \<in> {cd_no_entry, cd_not_directory}" for s
    by (rule readable_beside [where k = k and rs = "[(name_at, 13)]"])
      (use assms(3,5) that beside in \<open>auto simp: path_layout_def clear_of_sym\<close>)
  then have "shell_puts (literal env cd_no_entry) 30 (RED env) (with_mem m k) = say (RED env) (ascii cd_no_entry) (with_mem m k)"
    "shell_puts (literal env cd_not_directory) 21 (RED env) (with_mem m k) = say (RED env) (ascii cd_not_directory @ [0]) (with_mem m k)"
    using readable_puts [of env "with_mem m k" cd_no_entry 30 "RED env"] readable_puts [of env "with_mem m k" cd_not_directory 21 "RED env"] assms(2)
    by (simp_all add: cd_text_lengths)
  then show "\<exists>k1. same_beside [(name_at, 13)] (kernel_mem k) (kernel_mem k1) \<and> k1 = with_mem (kernel_mem k1) k
      \<and> cd env name_at args_value args_info 2 k
        = (case path_target (loaded_table env k) (peek32 (current_directory env) k) p of
             Reached c \<Rightarrow> updateDirectoryTable env c (poke (current_directory env) (le32 c) k1)
           | No_entry \<Rightarrow> Some (say (RED env) (ascii cd_no_entry) k1)
           | Not_directory \<Rightarrow> Some (say (RED env) (ascii cd_not_directory @ [0]) k1))"
    using walk beside by (intro exI [of _ "with_mem m k"]) (simp add: cd_def split: walk_end.split)
qed

theorem cd_resolves_witness:
  "\<exists>k1. cd cd_env 0x3400 0x3200 0x3100 2 cd_kernel = updateDirectoryTable cd_env 9 (poke 0x3000 (le32 9) k1)
    \<and> cd cd_env 0x3400 0x3200 0x3100 1 cd_kernel = Some (say 12 (ascii cd_missing) cd_kernel)"
proof -
  have msgs: "\<forall>s\<in>{cd_no_entry, cd_not_directory, cd_too_many, cd_missing}. readable cd_env cd_kernel s" using cd_readable by blast
  have short: "\<forall>c\<in>set (path_components (ascii ''/docs/src'')). length c \<le> 12" by (simp add: cd_example(6))
  have "path_target cd_table 2 (ascii ''/docs/src'') = Reached 9"
    unfolding path_target_def cd_example(6) resolve.simps cd_example_found option.case cd_example_found
    by (simp add: shell_entry_def ATTR_SUBDIRECTORY_def)
  note path = this [folded cd_example(3,7)]
  from cd_resolves [OF cd_example(1,2) msgs cd_example(4,5) short, unfolded path walk_end.case] obtain k1 where
    "cd cd_env 0x3400 0x3200 0x3100 2 cd_kernel = updateDirectoryTable cd_env 9 (poke (current_directory cd_env) (le32 9) k1)"
    and "\<forall>j. j \<noteq> 2 \<longrightarrow> cd cd_env 0x3400 0x3200 0x3100 j cd_kernel
      = Some (say (RED cd_env) (ascii (if 2 < sint j then cd_too_many else cd_missing)) cd_kernel)" by blast
  then show ?thesis by (intro exI [of _ k1]) (simp add: cd_env_simps)
qed

text \<open>
  C24. \<open>cd\<close> never descends. When every component of a path with at least one component names a directory of the
  table that is loaded at the start, the new current directory is the cluster which that table, the one of
  the old current directory, gives for the last component; the components before it and a leading slash
  make no difference.
\<close>

theorem cd_flat:
  assumes "directory_lookup env" and "c_string (kernel_mem k) (args_value + arg_position args_info 1 k) p"
    and "path_layout env name_at (args_value + arg_position args_info 1 k) (length p) []"
    and "\<forall>c\<in>set (path_components p). length c \<le> 12"
    and "path_components p \<noteq> []" and "\<forall>c\<in>set (path_components p). names_directory (loaded_table env k) c"
  shows "\<exists>k1. same_beside [(name_at, 13)] (kernel_mem k) (kernel_mem k1) \<and> k1 = with_mem (kernel_mem k1) k
      \<and> cd env name_at args_value args_info 2 k
        = (let c = named_cluster (loaded_table env k) (last (path_components p))
           in updateDirectoryTable env c (poke (current_directory env) (le32 c) k1))"
proof -
  obtain m where walk: "walk_argument env name_at (args_value + arg_position args_info 1 k) k
      = Some (path_target (loaded_table env k) (peek32 (current_directory env) k) p, with_mem m k)"
    and beside: "same_beside [(name_at, 13)] (kernel_mem k) m"
    by (rule directory_lookup.walk_argument_run [OF assms(1-4)])
  then show ?thesis
    using resolve_last [OF assms(5,6)] by (intro exI [of _ "with_mem m k"]) (simp add: cd_def path_target_def Let_def)
qed

theorem cd_flat_witness:
  "\<exists>k1. cd cd_env 0x3400 0x3200 0x3100 2 cd_kernel = updateDirectoryTable cd_env 9 (poke 0x3000 (le32 9) k1)
    \<and> same_beside [(0x3400, 13)] (kernel_mem cd_kernel) (kernel_mem k1)"
proof -
  have short: "\<forall>c\<in>set (path_components (ascii ''/docs/src'')). length c \<le> 12" "path_components (ascii ''/docs/src'') \<noteq> []"
    by (simp_all add: cd_example(6))
  have lay: "path_layout cd_env 0x3400 (0x3200 + arg_position 0x3100 1 cd_kernel) (length (ascii ''/docs/src'')) []"
    using cd_example(5) by (simp add: path_layout_def)
  have dirs: "\<forall>c\<in>set (path_components (ascii ''/docs/src'')). names_directory (loaded_table cd_env cd_kernel) c"
    unfolding cd_example(6,7)
    by (simp add: names_directory_def cd_example_found del: One_nat_def) (simp add: shell_entry_def ATTR_SUBDIRECTORY_def)
  have "named_cluster cd_table (ascii ''src'') = 9" by (simp add: named_cluster_def cd_example_found) (simp add: shell_entry_def)
  with cd_flat [OF cd_example(1,4) lay short dirs] show ?thesis
    unfolding cd_example(6,7) by (auto simp: cd_env_simps)
qed

end
