(* ===== verification/Shell_Ls.thy ===== *)
theory Shell_Ls imports Shell_Cd begin

text \<open>
  The command \<open>ls\<close> of \<open>src/ch2/user-shell/ls.c\<close>: printing the loaded directory table, and the loop over the
  arguments, whose body runs only for arguments of length 0.
\<close>

definition ls_no_entry :: string where "ls_no_entry = ''ls: no such file or directory'' @ [CHR 0x0A]"
definition ls_not_directory :: string where "ls_not_directory = ''ls: not a directory'' @ [CHR 0x0A]"

text \<open>A loop over the elements of a list whose body may fail, and one whose body may also leave the function.\<close>

primrec for_each :: "('a \<Rightarrow> 's \<Rightarrow> 's option) \<Rightarrow> 'a list \<Rightarrow> 's \<Rightarrow> 's option" where
  "for_each f [] s = Some s"
| "for_each f (x # xs) s = do { s \<leftarrow> f x s; for_each f xs s }"

primrec for_until :: "('a \<Rightarrow> 's \<Rightarrow> (bool \<times> 's) option) \<Rightarrow> 'a list \<Rightarrow> 's \<Rightarrow> 's option" where
  "for_until f [] s = Some s"
| "for_until f (x # xs) s = do { (go, s) \<leftarrow> f x s; if go then for_until f xs s else Some s }"

text \<open>The body of \<open>print_directory_table\<close> for \<open>dir_table.table[i]\<close>, whose 32 bytes lie at \<open>a\<close>.\<close>

definition print_entry :: "'p shell_env \<Rightarrow> nat \<Rightarrow> 'p kernel_state \<Rightarrow> 'p kernel_state option" where
  "print_entry env i k =
     (let a = shell_dir_table env + 32 * of_nat i in
      if user_attribute (table_entry env (int i) k) = UATTR_NOT_EMPTY then do {
        let k = (if kernel_mem k (a + 7) \<noteq> 0 then shell_puts a 8 (LIGHT_BLUE env) k else shell_puts a 1 (LIGHT_BLUE env) k);
        k \<leftarrow> (if attribute (table_entry env (int i) k) \<noteq> ATTR_SUBDIRECTORY then do {
                n \<leftarrow> strlen (kernel_mem k) (a + 8);
                if n \<noteq> 0 then Some (shell_puts (a + 8) 3 (LIGHT_BLUE env) (shell_putc 46 (LIGHT_BLUE env) k)) else Some k }
              else Some k);
        Some (shell_putc 10 (LIGHT_BLUE env) k) }
      else Some k)"

definition print_directory_table :: "'p shell_env \<Rightarrow> 'p kernel_state \<Rightarrow> 'p kernel_state option" where
  "print_directory_table env k = do {
     k \<leftarrow> for_each (print_entry env) [1..<63] k;
     print_entry env 63 k }"

text \<open>One round of the loop over the arguments; the flag is false when the function returns.\<close>

definition list_argument :: "'p shell_env \<Rightarrow> u32 \<Rightarrow> u32 \<Rightarrow> u32 \<Rightarrow> nat \<Rightarrow> 'p kernel_state \<Rightarrow> (bool \<times> 'p kernel_state) option" where
  "list_argument env name_at args_value args_info i k =
     (if arg_length args_info i k = 0 then do {
        (w, k) \<leftarrow> walk_argument env name_at (args_value + arg_position args_info i k) k;
        case w of
          No_entry \<Rightarrow> Some (False, shell_puts (literal env ls_no_entry) 30 (RED env) k)
        | Not_directory \<Rightarrow> Some (False, shell_puts (literal env ls_not_directory) 21 (RED env) k)
        | Reached cluster_number \<Rightarrow> do {
            k \<leftarrow> updateDirectoryTable env cluster_number k;
            k \<leftarrow> print_directory_table env k;
            Some (True, k) } }
      else Some (True, k))"

definition find_all_directory :: "'p shell_env \<Rightarrow> u32 \<Rightarrow> u32 \<Rightarrow> u32 \<Rightarrow> u32 \<Rightarrow> 'p kernel_state \<Rightarrow> 'p kernel_state option" where
  "find_all_directory env name_at args_value args_info args_count k =
     (if sint args_count = -1 then do {
        k \<leftarrow> updateDirectoryTable env (peek32 (current_directory env) k) k;
        print_directory_table env k }
      else for_until (list_argument env name_at args_value args_info) [1..<nat (sint args_count)] k)"

definition ls :: "'p shell_env \<Rightarrow> u32 \<Rightarrow> u32 \<Rightarrow> u32 \<Rightarrow> u32 \<Rightarrow> 'p kernel_state \<Rightarrow> 'p kernel_state option" where
  "ls env name_at args_value args_info args_count k =
     (if args_count = 1 then find_all_directory env name_at args_value args_info (-1) k
      else find_all_directory env name_at args_value args_info args_count k)"

section \<open>The listing of a table\<close>

text \<open>What one entry types: eight characters or one, a dot and three characters of extension, a newline.\<close>

definition entry_line :: "FAT32DirectoryEntry \<Rightarrow> u8 list" where
  "entry_line e =
     (if user_attribute e = UATTR_NOT_EMPTY
      then (if name e ! 7 \<noteq> 0 then name e else take 1 (name e))
         @ (if attribute e \<noteq> ATTR_SUBDIRECTORY \<and> ext e ! 0 \<noteq> 0 then 46 # ext e else []) @ [10]
      else [])"

definition listing :: "dir_table \<Rightarrow> u8 list" where
  "listing t = concat (map entry_line (tl t))"

lemma for_each_append: "for_each f (xs @ ys) s = Option.bind (for_each f xs s) (for_each f ys)"
  by (induction xs arbitrary: s) (simp_all split: bind_split)

lemma for_each_single: "for_each f [x] = f x"
  by (rule ext) simp

lemma print_directory_table_all: "print_directory_table env k = for_each (print_entry env) [1..<64] k"
proof -
  have "[1..<64] = [1..<63] @ [63 :: nat]" using upt_Suc_append [of 1 63] by simp
  then show ?thesis by (simp only: print_directory_table_def for_each_append for_each_single)
qed

lemma strlen_empty:
  assumes "m z = 0"
  shows "\<exists>n. strlen m a = Some n \<and> (n = 0 \<longleftrightarrow> m a = 0)"
proof -
  obtain bs where bs: "c_string m a bs" "strlen m a = Some (of_nat (length bs))" using strlen_correct [of m a] assms by blast
  then have "length bs < 2 ^ 32" and "bs \<noteq> [] \<Longrightarrow> m a \<noteq> 0" "bs = [] \<Longrightarrow> m a = 0"
    using c_string_nth [OF bs(1), of 0] by (auto simp: c_string_def)
  moreover have "(of_nat (length bs) :: u32) = 0 \<longleftrightarrow> bs = []"
    using unat_of_nat_u32 [OF calculation(1)] by (metis length_0_conv unat_0 unat_eq_zero)
  ultimately show ?thesis using bs(2) by auto
qed

lemma length_loaded_table: "length (loaded_table env k) = DIR_ENTRIES"
  by (simp add: loaded_table_def decode_table_def)

text \<open>The bytes of an entry, wherever the table stands off the screen.\<close>

lemma entry_bytes:
  assumes "i < DIR_ENTRIES" and "t = loaded_table env k" and "a = shell_dir_table env + 32 * of_nat i"
  shows "name (t ! i) = mem_read (kernel_mem k) a 8" "ext (t ! i) = mem_read (kernel_mem k) (a + 8) 3"
    "table_entry env (int i) k = t ! i"
proof -
  show e: "table_entry env (int i) k = t ! i" using table_entry_nth [OF assms(1)] by (simp add: assms(2))
  have "mem_read (kernel_mem k) a (8 + (3 + 21)) = mem_read (kernel_mem k) a 8 @ mem_read (kernel_mem k) (a + 8) 3 @ mem_read (kernel_mem k) (a + 8 + 3) 21"
    unfolding mem_read_add by simp
  then show "name (t ! i) = mem_read (kernel_mem k) a 8" "ext (t ! i) = mem_read (kernel_mem k) (a + 8) 3"
    unfolding e [symmetric] by (simp_all add: table_entry_def decode_entry_def bytes_at_def assms(3))
qed

lemma print_entry_run:
  assumes "on_screen (screen k)" and "off_screen (shell_dir_table env) CLUSTER_SIZE" and "i < DIR_ENTRIES"
    and "kernel_mem k z = 0" and "off_screen z 1"
  shows "print_entry env i k = Some (say (LIGHT_BLUE env) (entry_line (loaded_table env k ! i)) k)"
proof -
  let ?a = "shell_dir_table env + 32 * of_nat i" and ?c = "LIGHT_BLUE env" and ?t = "loaded_table env k"
  have in_table: "off_screen (?a + of_nat j) n" if "j + n \<le> 32" for j n
    using off_screen_mono [OF assms(2), of "32 * i + j" n] assms(3) that by (simp add: DIR_ENTRIES_def CLUSTER_SIZE_def add.assoc)
  note off = in_table [of 0 8, simplified] in_table [of 0 1, simplified] in_table [of 8 3, simplified] in_table [of 0 32, simplified]
  note e = entry_bytes [OF assms(3) refl refl, of env k]
  define nm where "nm = (if name (?t ! i) ! 7 \<noteq> 0 then name (?t ! i) else take 1 (name (?t ! i)))"
  define k1 where "k1 = say ?c nm k"
  have k1: "(if kernel_mem k (?a + 7) \<noteq> 0 then shell_puts ?a 8 ?c k else shell_puts ?a 1 ?c k) = k1"
    using puts_says [OF assms(1), of ?a 8 ?c] puts_says [OF assms(1), of ?a 1 ?c] off(1,2)
    by (simp add: k1_def nm_def e(1) take_mem_read)
  have o1: "only_screen k k1" unfolding k1_def by (rule say_only_screen [OF assms(1)])
  have e1: "table_entry env (int i) k1 = ?t ! i"
    using only_screen_read [OF o1 off(4)] e(3) by (simp add: table_entry_def)
  have x: "mem_read (kernel_mem k1) (?a + 8) 3 = ext (?t ! i)" using only_screen_read [OF o1 off(3)] by (simp add: e(2))
  have "mem_read (kernel_mem k1) z 1 = mem_read (kernel_mem k) z 1" by (rule only_screen_read [OF o1 assms(5)])
  then have "kernel_mem k1 z = 0" using assms(4) by (simp add: mem_read_def)
  then obtain n where n: "strlen (kernel_mem k1) (?a + 8) = Some n" "n = 0 \<longleftrightarrow> ext (?t ! i) ! 0 = 0"
    using strlen_empty [of "kernel_mem k1" z "?a + 8"] x [THEN arg_cong, of "\<lambda>xs. xs ! 0"] by auto
  let ?k2 = "shell_putc 46 ?c k1"
  have o2: "only_screen k1 ?k2" by (rule putc_only_screen [OF only_screenD(1) [OF o1]])
  have dot: "shell_puts (?a + 8) 3 ?c ?k2 = say ?c (46 # ext (?t ! i)) k1"
    using puts_says [OF only_screenD(1) [OF o2], of "?a + 8" 3 ?c] off(3) only_screen_read [OF o2 off(3)] x by (simp add: say_def)
  show ?thesis
  proof (cases "user_attribute (?t ! i) = UATTR_NOT_EMPTY")
    case True
    then have line: "entry_line (?t ! i) = nm @ (if attribute (?t ! i) \<noteq> ATTR_SUBDIRECTORY \<and> ext (?t ! i) ! 0 \<noteq> 0 then 46 # ext (?t ! i) else []) @ [10]"
      by (simp add: entry_line_def nm_def)
    have "say ?c (entry_line (?t ! i)) k = shell_putc 10 ?c (say ?c (if attribute (?t ! i) \<noteq> ATTR_SUBDIRECTORY \<and> ext (?t ! i) ! 0 \<noteq> 0 then 46 # ext (?t ! i) else []) k1)"
      unfolding line k1_def by (simp add: say_def)
    then show ?thesis
      using True n by (simp add: print_entry_def Let_def e(3) k1 e1 dot)
  next
    case False
    then show ?thesis by (simp add: print_entry_def Let_def e(3) entry_line_def)
  qed
qed

lemma print_table_run:
  assumes "on_screen (screen k)" and "off_screen (shell_dir_table env) CLUSTER_SIZE" and "kernel_mem k z = 0" and "off_screen z 1"
  shows "print_directory_table env k = Some (say (LIGHT_BLUE env) (listing (loaded_table env k)) k)"
proof -
  let ?t = "loaded_table env k" and ?c = "LIGHT_BLUE env"
  have "for_each (print_entry env) [i..<DIR_ENTRIES] q = Some (say ?c (concat (map entry_line (drop i ?t))) q)"
    if "only_screen k q" and "i \<le> DIR_ENTRIES" for i q
    using that
  proof (induction "DIR_ENTRIES - i" arbitrary: i q)
    case 0
    then show ?case by (simp add: length_loaded_table)
  next
    case (Suc d)
    then have i: "i < DIR_ENTRIES" by simp
    have "mem_read (kernel_mem q) z 1 = mem_read (kernel_mem k) z 1" by (rule only_screen_read [OF Suc.prems(1) assms(4)])
    then have z: "kernel_mem q z = 0" using assms(3) by (simp add: mem_read_def)
    have t: "loaded_table env q = ?t" using only_screen_read [OF Suc.prems(1) assms(2)] by (simp add: loaded_table_def)
    let ?q = "say ?c (entry_line (?t ! i)) q"
    note scr = only_screenD(1) [OF Suc.prems(1)]
    have "for_each (print_entry env) [Suc i..<DIR_ENTRIES] ?q = Some (say ?c (concat (map entry_line (drop (Suc i) ?t))) ?q)"
      by (rule Suc.hyps(1)) (use Suc.hyps(2) i only_screen_trans [OF Suc.prems(1) say_only_screen [OF scr]] in simp_all)
    moreover have "drop i ?t = ?t ! i # drop (Suc i) ?t" using i by (simp add: Cons_nth_drop_Suc length_loaded_table)
    ultimately show ?case
      using print_entry_run [OF scr assms(2) i z assms(4)] i by (simp add: t upt_conv_Cons say_append)
  qed
  from this [of k 1] assms(1) show ?thesis
    by (simp add: print_directory_table_all listing_def only_screen_refl drop_Suc DIR_ENTRIES_def)
qed

lemma ls_text_lengths: "length ls_no_entry = 30" "length ls_not_directory = 20"
  by (simp_all add: ls_no_entry_def ls_not_directory_def)

text \<open>The branches of the loop body, for an argument of length 0: the same walk as in \<open>cd\<close>.\<close>

lemma list_argument_run:
  assumes "directory_lookup env" and "on_screen (screen k)" and "\<forall>s\<in>{ls_no_entry, ls_not_directory}. readable env k s"
    and "arg_length args_info i k = 0" and "c_string (kernel_mem k) (args_value + arg_position args_info i k) p"
    and "path_layout env name_at (args_value + arg_position args_info i k) (length p) [ls_no_entry, ls_not_directory]"
    and "\<forall>c\<in>set (path_components p). length c \<le> 12"
  obtains k1 where "same_beside [(name_at, 13)] (kernel_mem k) (kernel_mem k1)" and "k1 = with_mem (kernel_mem k1) k"
    and "list_argument env name_at args_value args_info i k
        = (case path_target (loaded_table env k) (peek32 (current_directory env) k) p of
             Reached c \<Rightarrow> do { q \<leftarrow> updateDirectoryTable env c k1; q \<leftarrow> print_directory_table env q; Some (True, q) }
           | No_entry \<Rightarrow> Some (False, say (RED env) (ascii ls_no_entry) k1)
           | Not_directory \<Rightarrow> Some (False, say (RED env) (ascii ls_not_directory @ [0]) k1))"
proof -
  obtain m where walk: "walk_argument env name_at (args_value + arg_position args_info i k) k
      = Some (path_target (loaded_table env k) (peek32 (current_directory env) k) p, with_mem m k)"
    and beside: "same_beside [(name_at, 13)] (kernel_mem k) m"
    by (rule directory_lookup.walk_argument_run [OF assms(1,5-7)])
  have "readable env (with_mem m k) s" if "s \<in> {ls_no_entry, ls_not_directory}" for s
    by (rule readable_beside [where k = k and rs = "[(name_at, 13)]"])
      (use assms(3,6) that beside in \<open>auto simp: path_layout_def clear_of_sym\<close>)
  then have "shell_puts (literal env ls_no_entry) 30 (RED env) (with_mem m k) = say (RED env) (ascii ls_no_entry) (with_mem m k)"
    "shell_puts (literal env ls_not_directory) 21 (RED env) (with_mem m k) = say (RED env) (ascii ls_not_directory @ [0]) (with_mem m k)"
    using readable_puts [of env "with_mem m k" ls_no_entry 30 "RED env"] readable_puts [of env "with_mem m k" ls_not_directory 21 "RED env"] assms(2)
    by (simp_all add: ls_text_lengths)
  then show thesis
    using that [of "with_mem m k"] walk beside assms(4) by (simp add: list_argument_def split: walk_end.split)
qed

section \<open>Properties\<close>

text \<open>
  C18. \<open>ls\<close> without arguments loads the table of the current directory and types one line for each of its entries
  1 to 63 that are in use, in the order of the table: the name when it has eight characters and else its
  first character only, and the extension of files that have one. Nothing but the screen changes. That the
  table is the one of the current directory is what \<open>updateDirectoryTable\<close>, called with that directory, has to see to.
\<close>

theorem ls_lists:
  assumes "updateDirectoryTable env (peek32 (current_directory env) k) k = Some k1" and "on_screen (screen k1)"
    and "off_screen (shell_dir_table env) CLUSTER_SIZE" and "kernel_mem k1 z = 0" and "off_screen z 1"
  shows "ls env name_at args_value args_info 1 k = Some (say (LIGHT_BLUE env) (listing (loaded_table env k1)) k1)
    \<and> only_screen k1 (say (LIGHT_BLUE env) (listing (loaded_table env k1)) k1)"
  using print_table_run [OF assms(2-5)] assms(1) say_only_screen [OF assms(2)] by (simp add: ls_def find_all_directory_def)

text \<open>On a freshly formatted disk, whose root directory has the entry \<open>..\<close> only, one dot is listed.\<close>

theorem ls_lists_witness:
  "\<exists>k1. ls cd_env 0x3400 0x3200 0x3100 1 cd_kernel = Some (say 9 [46, 10] k1) \<and> kernel_mem k1 0x5000 = 114"
proof -
  let ?k1 = "poke 0x5000 (encode_table root_directory_table) cd_kernel"
  have len: "length (encode_table root_directory_table) = 2048"
    using length_encode_table [OF root_directory_table_ok] by (simp add: CLUSTER_SIZE_def)
  have "disk (storage cd_kernel) 2 = encode_table root_directory_table" by (simp add: cd_kernel_def formatted_facts)
  then have load: "updateDirectoryTable cd_env (peek32 (current_directory cd_env) cd_kernel) cd_kernel = Some ?k1"
    by (simp add: cd_example(3)) (simp add: cd_env_def with_first_entry_def)
  have scr: "on_screen (screen ?k1)" using cd_example(2) by simp
  have off: "off_screen (shell_dir_table cd_env) CLUSTER_SIZE" "off_screen 0x10 1"
    by (rule clear_of_screen, simp add: clear_of_def TEXT_BUFFER_def CLUSTER_SIZE_def cd_env_simps)+
  have "mem_read (kernel_mem ?k1) 0x10 1 = mem_read (place cd_blocks (\<lambda>_. 0)) 0x10 1"
    using read_write_clear [of "0x10" 1 "0x5000" "encode_table root_directory_table" "kernel_mem cd_kernel"]
    by (simp add: clear_of_def len cd_kernel_mem)
  also have "\<dots> = mem_read (\<lambda>_. 0) 0x10 1"
    by (rule place_other) (simp add: cd_blocks_def cd_texts_def clear_of_def cd_text_lengths cd_table_ok)
  finally have z: "kernel_mem ?k1 0x10 = 0" by (simp add: mem_read_def)
  have bytes: "mem_read (kernel_mem ?k1) 0x5000 2048 = encode_table root_directory_table"
    using mem_read_write_same [of "encode_table root_directory_table" "kernel_mem cd_kernel" "0x5000"] len by simp
  then have t: "loaded_table cd_env ?k1 = root_directory_table"
    by (simp add: loaded_table_def cd_env_simps CLUSTER_SIZE_def root_directory_table_ok)
  have "entry_line zero_entry = []" "entry_line (dir_entry_for ''..'') = [46, 10]"
    by (simp_all add: entry_line_def zero_entry_def dir_entry_for_def UATTR_NOT_EMPTY_def ATTR_SUBDIRECTORY_def ascii_def)
  then have "listing root_directory_table = [46, 10]"
    by (simp add: listing_def root_directory_table_def)
  moreover have "kernel_mem ?k1 0x5000 = 114"
    using bytes [THEN arg_cong, of "\<lambda>xs. xs ! 0"] by (simp add: encode_table_def root_directory_table_def encode_entry_def dir_entry_for_def ascii_def)
  ultimately show ?thesis
    using ls_lists [OF load scr off(1) z off(2), of "0x3400" "0x3200" "0x3100"] by (intro exI [of _ ?k1]) (simp only: t cd_env_simps)
qed

text \<open>
  C33. \<open>ls\<close> with arguments, none of them of length 0, does nothing at all: no path is looked at and nothing is
  typed, whatever the arguments say.
\<close>

theorem ls_ignores_arguments:
  assumes "args_count \<noteq> 1" and "args_count \<noteq> -1"
    and "\<forall>i. 1 \<le> i \<and> int i < sint args_count \<longrightarrow> arg_length args_info i k \<noteq> 0"
  shows "ls env name_at args_value args_info args_count k = Some k"
proof -
  have "for_until (list_argument env name_at args_value args_info) xs k = Some k" if "\<forall>i\<in>set xs. arg_length args_info i k \<noteq> 0" for xs
    using that by (induction xs) (simp_all add: list_argument_def)
  moreover have "\<forall>i\<in>set [1..<nat (sint args_count)]. arg_length args_info i k \<noteq> 0" using assms(3) by (auto simp: zless_nat_eq_int_zless)
  ultimately have "for_until (list_argument env name_at args_value args_info) [1..<nat (sint args_count)] k = Some k" by blast
  moreover have "sint args_count \<noteq> -1" using assms(2) by (metis signed_minus_1 signed_word_eqI)
  ultimately show ?thesis using assms(1) by (simp add: ls_def find_all_directory_def)
qed

theorem ls_ignores_arguments_witness: "ls mkdir_env 0x3400 0x3200 0x3100 2 mkdir_kernel = Some mkdir_kernel"
proof (rule ls_ignores_arguments)
  have "arg_length 0x3100 i mkdir_kernel \<noteq> 0" if "1 \<le> i" "int i < 2" for i :: nat
  proof -
    have i: "i = 1" using that by linarith
    show ?thesis unfolding i using mkdir_args(2) by simp
  qed
  then show "\<forall>i. 1 \<le> i \<and> int i < sint (2 :: u32) \<longrightarrow> arg_length 0x3100 i mkdir_kernel \<noteq> 0" by simp
qed simp_all

end
