(* ===== verification/Spec2Isabelle.thy ===== *)
theory Spec2Isabelle imports CString Fat_Properties Page_Allocator Idt Inserter_Main Kernel_Runs Kernel_Types Shell_Cp Shell_Ls begin

text \<open>
  Verification of an educational 32-bit x86 operating system kernel (sources under \<open>src/\<close>): the C code of
  the kernel, of its drivers and of the host tool that fills a disk image. This theory imports the whole
  development.

  \<^bold>\<open>The program.\<close> The entry point switches to the higher half and calls \<open>kernel_setup\<close> (\<open>kernel.c\<close>), which
  loads the descriptor tables (\<open>ch0/gdt\<close>, \<open>ch1/idt\<close>), programs the interrupt controllers
  (\<open>ch1/interrupt\<close>), clears the screen (\<open>ch1/framebuffer\<close>), initialises the FAT32 file system
  (\<open>ch1/fat32\<close>) on the ATA disk (\<open>ch1/disk\<close>), maps a user page (\<open>ch2/paging\<close>), reads the shell into it,
  writes two files and jumps to user mode. Afterwards it reacts to keyboard interrupts
  (\<open>ch1/keyboard\<close>). The function for system calls (\<open>syscall\<close> in \<open>ch1/interrupt\<close>) reaches the file system, the
  keyboard buffer and the text output. The external inserter (\<open>ch2/external-inserter\<close>) links the same file
  system with an image in memory. The shell commands \<open>mkdir\<close>, \<open>cp\<close>, \<open>cd\<close>, \<open>ls\<close> (\<open>ch2/user-shell\<close>) are written as its clients:
  \<open>mkdir\<close> and \<open>cp\<close> call \<open>syscalls\<close>, whose body, in comments, executes \<open>int 0x30\<close>. At this commit the interrupt handler
  ignores that vector and nothing calls \<open>syscall\<close>: no system call of a command has an effect.

  \<^bold>\<open>Conventions.\<close> C integers are words of their width and wrap; memory is a function from 32-bit addresses to
  bytes; structures are records, arrays lists, and an access outside an array or a loop that never ends is
  the result \<open>None\<close> of an option-valued definition. Static variables are fields of a state record that is
  passed and returned. A definition has the name of the C function it models. Code that is not in the
  repository is a parameter: the port instructions and the devices behind them (\<open>port_ops\<close>), the addresses
  chosen by the linker and the contents of uninitialised memory (\<open>boot_env\<close>, \<open>junk\<close>), and what the shell commands
  call that the repository has in comments only (\<open>shell_env\<close>).

  \<^bold>\<open>Theories.\<close>
  \<^item> \<open>Prelude\<close>: words, flat memory, little-endian integers, search loops; the collections \<open>kernel_defs\<close>
    and \<open>len_simps\<close>.
  \<^item> \<open>CString\<close>: \<open>ch0/stdlib/string.c\<close>; each routine against the sentence its name promises.
  \<^item> \<open>Block_Device\<close>: the interface of \<open>disk.h\<close>; the locale \<open>block_device\<close> is what the file system relies
    on, and its providers are \<open>Inserter\<close> (the image, \<open>interpretation img\<close>) and \<open>Ata\<close> (the kernel's driver,
    \<open>sublocale drive\<close> of \<open>ata_disk\<close>).
  \<^item> \<open>Fat_Layout\<close>, \<open>Fat_Driver\<close>: the packed structures and every function of \<open>fat32.c\<close>. \<open>Fat_Chain\<close>: cluster
    chains and what the write loop does to the FAT. \<open>Fat_Device\<close>, \<open>Fat_Write\<close>, \<open>Fat_Read\<close>,
    \<open>Fat_Delete\<close>, \<open>Fat_Init\<close>: each operation on any block device, branch by branch. \<open>Fat_Invariant\<close>,
    \<open>Fat_Directory\<close>, \<open>Fat_Files\<close>, \<open>Fat_Tree\<close>, \<open>Fat_Operations\<close>: the well-formed FAT, a directory as a
    map, files as bytes, and the invariant of the whole tree under the operations. \<open>Fat_System\<close>: runs of
    requests. \<open>Fat_Example\<close>, \<open>Fat_Properties\<close>: example states, and the properties.
  \<^item> \<open>Paging\<close>, \<open>Page_Allocator\<close>: \<open>paging.c\<close>; the locale \<open>page_allocator\<close> is the abstract allocator the code
    refines, and the encoding of entries is read back as the processor translates addresses.
  \<^item> \<open>Gdt\<close>, \<open>Idt\<close>: the descriptor tables, encoded and decoded as the processor does.
  \<^item> \<open>Port_IO\<close>: port instructions and interrupt controllers. \<open>Keyboard\<close>: driver and scancode sequences.
  \<^item> \<open>Text_Screen\<close>: the locale \<open>text_screen\<close> of a window of 2000 cells, provided by \<open>Framebuffer\<close>
    (\<open>framebuffer.c\<close>) and \<open>Terminal\<close> (\<open>putc\<close>, \<open>puts\<close>).
  \<^item> \<open>Ata\<close>: \<open>disk.c\<close> over the ports; the locale \<open>ata_disk\<close> states the documented behaviour of the disk.
  \<^item> \<open>Interrupt\<close>, \<open>Syscall\<close>: the interrupt frame, the handler, the TSS, and the system calls on the state of
    the whole kernel. \<open>Kernel_System\<close>: the locale \<open>machine\<close> (an ATA disk and other ports that leave it
    alone), and one interrupt or system call on it. \<open>Boot\<close>: \<open>kernel_setup\<close>. \<open>Kernel_Runs\<close>: runs of interrupts and
    system calls after the boot. \<open>Fat_Types\<close>, \<open>Kernel_Types\<close>: the shape of the state, on any device (locale
    \<open>sized_device\<close>) and any hardware. \<open>Inserter_Main\<close>: the program of the
    inserter, and the shell on its way from a host file to the program memory.
  \<^item> \<open>Shell_Calls\<close>: the surroundings of the shell commands (\<open>shell_env\<close>), regions of memory, and the locale
    \<open>shell_calls\<close>, the contract of the system calls the commands are written for. \<open>trapping\<close> is the commented body
    of \<open>syscalls\<close>: \<open>int 0x30\<close> through the handler, without effect. \<open>interpretation direct\<close> shows that the function \<open>syscall\<close>, called
    directly, keeps the contract. What the commands ask for is proved for every \<open>syscalls\<close>; what becomes of it, for each of the two. \<open>Shell_Mkdir\<close>, \<open>Shell_Cp\<close>: \<open>mkdir.c\<close> and \<open>cp.c\<close>, with the locals whose address is taken
    as regions of the caller's memory. \<open>Shell_Cd\<close>, \<open>Shell_Ls\<close>: \<open>cd.c\<close> and \<open>ls.c\<close>; the locale \<open>directory_lookup\<close> is
    the contract of \<open>findEntry\<close>, met by the search the comment in \<open>user-shell.c\<close> describes.

  \<^bold>\<open>What the properties show.\<close> The file system: the tree stays well-formed under every
  sequence of requests whose writes follow the protocol \<open>good_write\<close> (\<open>fs_reach
  good_write\<close>; \<open>protocol_needed\<close> shows that the protocol is needed) and of such system calls
  on the kernel's own disk (\<open>kernel_reach\<close>); \<open>write\<close> refines insertion into a map,
  \<open>delete\<close> removal, and other files keep their bytes; a file shorter than a cluster reads back as
  it was written, a longer one loses every second chunk; each error code is characterised and the operations
  return. The disk drivers: both providers satisfy the block contract, the ATA polling loops end. Memory
  management: allocation and release refine the abstract allocator, and the processor's translation changes only
  at the page. Screen and keyboard: a refinement of typing, bounds of every store, the delivery of a key. The
  boot: it returns with the invariant, and what it gets wrong. The shape of the state (sizes of tables, range of
  the codes, cursor) survives any hardware. The shell commands: the requests \<open>mkdir\<close> and
  \<open>cp\<close> build, that at this commit both end silently without any effect, the messages
  \<open>mkdir\<close> types under the contract, \<open>cd\<close> against a reference resolution of paths
  (\<open>path_target\<close>), \<open>ls\<close> against the listing of a table, and what the requests of
  \<open>cp\<close> and \<open>mkdir\<close> leave on the disk when \<open>syscall\<close> performs them.

  \<^bold>\<open>Bounds and fuel.\<close> No definition uses fuel: loops over tables are folds or \<open>scan\<close> over the C bounds (512
  FAT entries, 64 directory entries, 1024 pages, 32 frames, 256 gates), the write loop recurses on the
  number of clusters it still has to write, and loops that may not end (chains of \<open>read\<close> and \<open>delete\<close>, polling a disk,
  strings without terminator, the walk along a path) are \<open>partial_function (option)\<close> with theorems that they return. The disk has
  8192 blocks (4 MiB), as the makefile and the inserter create it.

  \<^bold>\<open>Assumptions.\<close> \<open>block_device\<close> is discharged for both providers. \<open>ata_disk\<close> and \<open>machine\<close> describe hardware:
  status reads become ready after finitely many polls, a disk that is not busy in a data phase has its data
  ready, the other ports do not disturb the disk. \<open>Ata\<close> and \<open>Kernel_System\<close> instantiate them with a disk that
  answers late. \<open>good_write\<close> excludes the two uses of \<open>write\<close> that break the tree: a directory request whose
  buffer is not an empty directory table, and a file in the slot of a deleted directory. \<open>mkdir_layout\<close>,
  \<open>cp_layout\<close> and \<open>path_layout\<close> say that the compiler and the linker give the locals, globals and literals of a command
  regions of their own, off the text screen; paths have components of at most 12 characters, since longer ones
  overrun the array of \<open>cd\<close> and \<open>ls\<close> (the definitions model the overrun as the write it is).

  \<^bold>\<open>Not modelled.\<close> The assembly of the entry point, of the interrupt stubs and of the user
  program's start, except the removed identity mapping and the words a stub pushes; the shell's main loop, its
  parser and its helpers in \<open>user-shell.c\<close> and \<open>user-shell.h\<close>, which are commented out
  except for a \<open>main\<close> that returns 0 (the makefile compiles none of the commands). Scalar locals of
  the commands are values, not memory. The effect of stale translations between a change of the page directory
  and \<open>invlpg\<close> is not modelled, nor are interrupts during a system call: a step of
  \<open>kernel_reach\<close> is a whole handler, or a call of the function \<open>syscall\<close>, which is
  more than the interrupts of this commit lead to. Memory is addressed by virtual addresses; only
  \<open>Page_Allocator\<close> and \<open>Boot\<close> relate them to physical ones.
\<close>

end
